(* ===== verification/Prelude.thy ===== *)
theory Prelude
  imports Main "HOL-Library.Word" "HOL-Library.Multiset"
begin

text \<open>
  The shared vocabulary of the development: Rust's machine integers as words, the outcome of
  a Rust computation (a value, an \<^verbatim>\<open>Err\<close>, a panic, or a loop that ran out of fuel), network
  byte order and the decimal printer of the standard library.  The general lemmas that the
  components share are here too.
\<close>

unbundle bit_operations_syntax

section \<open>Machine types\<close>

text \<open>
  \<^verbatim>\<open>usize\<close> is \<^typ>\<open>nat\<close>: every \<^verbatim>\<open>usize\<close> of the program is the length of a buffer in memory
  or a sum of two such lengths.  An \<^verbatim>\<open>Ipv4Addr\<close> is its 32-bit value (\<^verbatim>\<open>u32::from\<close> is the
  identity on it), an \<^verbatim>\<open>Ipv6Addr\<close> its 128-bit value.
\<close>

type_synonym u8 = "8 word"
type_synonym u16 = "16 word"
type_synonym u32 = "32 word"
type_synonym u64 = "64 word"
type_synonym u128 = "128 word"
type_synonym usize = nat
type_synonym Ipv4Addr = "32 word"
type_synonym Ipv6Addr = "128 word"

datatype IpAddr = V4 Ipv4Addr | V6 Ipv6Addr

record SocketAddr =
  sock_ip :: IpAddr
  sock_port :: u16

section \<open>The outcome of a computation\<close>

datatype ('e, 'a) outcome = Ok 'a | Err 'e | Panic | NoFuel

text \<open>
  Sequencing: a panic, an error (the \<^verbatim>\<open>?\<close> operator) and lack of fuel all stop the computation.
\<close>

primrec and_then :: "('e, 'a) outcome \<Rightarrow> ('a \<Rightarrow> ('e, 'b) outcome) \<Rightarrow> ('e, 'b) outcome" where
  "and_then (Ok a) f = f a"
| "and_then (Err e) f = Err e"
| "and_then Panic f = Panic"
| "and_then NoFuel f = NoFuel"

primrec map_err :: "('e \<Rightarrow> 'f) \<Rightarrow> ('e, 'a) outcome \<Rightarrow> ('f, 'a) outcome" where
  "map_err g (Ok a) = Ok a"
| "map_err g (Err e) = Err (g e)"
| "map_err g Panic = Panic"
| "map_err g NoFuel = NoFuel"

text \<open>An operation that may only succeed or panic.\<close>

primrec of_panic :: "'a option \<Rightarrow> ('e, 'a) outcome" where
  "of_panic None = Panic"
| "of_panic (Some a) = Ok a"

text \<open>The computation returns to its caller, with a value or with an error.\<close>

primrec returns :: "('e, 'a) outcome \<Rightarrow> bool" where
  "returns (Ok a) = True"
| "returns (Err e) = True"
| "returns Panic = False"
| "returns NoFuel = False"

lemma and_then_assoc: "and_then (and_then m f) g = and_then m (\<lambda>x. and_then (f x) g)"
  by (cases m) simp_all

lemma and_then_Ok_right [simp]: "and_then m Ok = m"
  by (cases m) simp_all

lemma and_then_eq_Ok_iff: "and_then m f = Ok b \<longleftrightarrow> (\<exists>a. m = Ok a \<and> f a = Ok b)"
  by (cases m) simp_all

lemma and_then_eq_Err_iff:
  "and_then m f = Err e \<longleftrightarrow> m = Err e \<or> (\<exists>a. m = Ok a \<and> f a = Err e)"
  by (cases m) auto

lemma and_then_eq_Panic_iff:
  "and_then m f = Panic \<longleftrightarrow> m = Panic \<or> (\<exists>a. m = Ok a \<and> f a = Panic)"
  by (cases m) auto

lemma and_then_cong [fundef_cong]:
  "m = m' \<Longrightarrow> (\<And>a. m' = Ok a \<Longrightarrow> f a = f' a) \<Longrightarrow> and_then m f = and_then m' f'"
  by (cases m') simp_all

lemma returns_and_then:
  "returns m \<Longrightarrow> (\<And>a. m = Ok a \<Longrightarrow> returns (f a)) \<Longrightarrow> returns (and_then m f)"
  by (cases m) simp_all

lemma returns_map_err [simp]: "returns (map_err g m) = returns m"
  by (cases m) simp_all

lemma returns_iff: "returns m \<longleftrightarrow> (\<exists>a. m = Ok a) \<or> (\<exists>e. m = Err e)"
  by (cases m) simp_all

lemma map_err_eq_Ok [simp]: "map_err g m = Ok a \<longleftrightarrow> m = Ok a"
  by (cases m) simp_all

lemma map_err_eq_Panic [simp]: "map_err g m = Panic \<longleftrightarrow> m = Panic"
  by (cases m) simp_all

lemma map_err_eq_NoFuel [simp]: "map_err g m = NoFuel \<longleftrightarrow> m = NoFuel"
  by (cases m) simp_all

lemmas outcome_iffs = and_then_eq_Ok_iff and_then_eq_Err_iff and_then_eq_Panic_iff

section \<open>Network byte order\<close>

text \<open>
  \<^verbatim>\<open>to_be_bytes\<close> and \<^verbatim>\<open>from_be_bytes\<close> of the standard library, at any number of octets:
  \<open>to_be n w\<close> is the big-endian encoding of the low \<open>n\<close> octets of \<open>w\<close>.
\<close>

primrec to_be :: "nat \<Rightarrow> 'a::len word \<Rightarrow> u8 list" where
  "to_be 0 w = []"
| "to_be (Suc n) w = ucast (drop_bit (8 * n) w) # to_be n w"

definition from_be :: "u8 list \<Rightarrow> 'a::len word" where
  "from_be bs = foldl (\<lambda>w b. push_bit 8 w OR ucast b) 0 bs"

lemma length_to_be [simp]: "length (to_be n w) = n"
  by (induction n) simp_all

lemma to_be_eq_Nil [simp]: "to_be n w = [] \<longleftrightarrow> n = 0"
  by (cases n) simp_all

lemma be_step:
  fixes w :: "'a::len word"
  shows "push_bit (8 * n) (push_bit 8 a OR ucast (ucast (drop_bit (8 * n) w) :: u8)) OR
           take_bit (8 * n) w = push_bit (8 * Suc n) a OR take_bit (8 * Suc n) w"
  by (rule bit_word_eqI) (auto simp: bit_simps add.commute)

lemma foldl_to_be:
  fixes a w :: "'a::len word"
  shows "foldl (\<lambda>w b. push_bit 8 w OR ucast b) a (to_be n w) =
           push_bit (8 * n) a OR take_bit (8 * n) w"
proof (induction n arbitrary: a)
  case 0
  then show ?case by simp
next
  case (Suc n)
  show ?case by (simp only: to_be.simps foldl_Cons Suc.IH be_step)
qed

lemma from_be_to_be: "LENGTH('a::len) \<le> 8 * n \<Longrightarrow> from_be (to_be n (w :: 'a word)) = w"
  by (simp add: from_be_def foldl_to_be) (simp add: take_bit_word_eq_self)

lemma from_be_to_be_16 [simp]: "from_be (to_be 2 (w :: u16)) = w"
  by (rule from_be_to_be) simp

lemma from_be_to_be_32 [simp]: "from_be (to_be 4 (w :: u32)) = w"
  by (rule from_be_to_be) simp

lemma from_be_to_be_128 [simp]: "from_be (to_be 16 (w :: u128)) = w"
  by (rule from_be_to_be) simp

lemma to_be_push:
  fixes w :: "'a::len word"
  shows "8 * Suc n \<le> LENGTH('a) \<Longrightarrow>
    to_be (Suc n) (push_bit 8 w OR ucast (b :: u8)) = to_be n w @ [b]"
proof (induction n)
  case 0
  then show ?case by (auto intro!: bit_word_eqI simp: bit_simps)
next
  case (Suc n)
  have "ucast (drop_bit (8 * Suc n) (push_bit 8 w OR ucast b)) = (ucast (drop_bit (8 * n) w) :: u8)"
    using Suc.prems by (intro bit_word_eqI) (auto simp: bit_simps dest: bit_imp_le_length)
  then show ?case using Suc by simp
qed

lemma to_be_from_be:
  "8 * length bs \<le> LENGTH('a::len) \<Longrightarrow> to_be (length bs) (from_be bs :: 'a word) = bs"
proof (induction bs rule: rev_induct)
  case Nil
  then show ?case by simp
next
  case (snoc b bs)
  then have "to_be (Suc (length bs)) (push_bit 8 (from_be bs :: 'a word) OR ucast b) =
    to_be (length bs) (from_be bs :: 'a word) @ [b]"
    by (intro to_be_push) simp
  then show ?case using snoc by (simp add: from_be_def)
qed

lemma to_be_from_be_16 [simp]: "length bs = 2 \<Longrightarrow> to_be 2 (from_be bs :: u16) = bs"
  using to_be_from_be [of bs, where ?'a = 16] by simp

lemma to_be_from_be_32 [simp]: "length bs = 4 \<Longrightarrow> to_be 4 (from_be bs :: u32) = bs"
  using to_be_from_be [of bs, where ?'a = 32] by simp

lemma to_be_from_be_128 [simp]: "length bs = 16 \<Longrightarrow> to_be 16 (from_be bs :: u128) = bs"
  using to_be_from_be [of bs, where ?'a = 128] by simp

text \<open>An address whose low octets are zero is restored from its leading octets alone.\<close>

lemma drop_to_be: "n \<le> m \<Longrightarrow> drop n (to_be m w) = to_be (m - n) w"
proof (induction m arbitrary: n)
  case 0
  then show ?case by simp
next
  case (Suc m)
  then show ?case by (cases n) simp_all
qed

lemma to_be_zero:
  fixes w :: "'a::len word"
  shows "take_bit (8 * m) w = 0 \<Longrightarrow> to_be m w = replicate m 0"
proof (induction m)
  case 0
  then show ?case by simp
next
  case (Suc m)
  have zero: "\<not> bit w i" if "i < 8 * Suc m" for i
    using Suc.prems that by (metis bit_0_eq bit_take_bit_iff bot_apply bot_bool_def)
  then have "ucast (drop_bit (8 * m) w) = (0 :: u8)"
    by (intro bit_word_eqI) (auto simp: bit_simps)
  moreover have "take_bit (8 * m) w = 0"
    using zero by (intro bit_word_eqI) (auto simp: bit_simps)
  ultimately show ?case using Suc.IH by simp
qed

lemma take_to_be_pad:
  "n \<le> m \<Longrightarrow> take_bit (8 * (m - n)) w = 0 \<Longrightarrow> take n (to_be m w) @ replicate (m - n) 0 = to_be m w"
  by (metis append_take_drop_id drop_to_be to_be_zero)

lemma from_be_zeros [simp]: "from_be (replicate n 0) = 0"
  by (induction n) (simp_all add: from_be_def)

text \<open>The narrowing casts \<^verbatim>\<open>n as u8\<close>, \<^verbatim>\<open>n as u16\<close> of a length that fits.\<close>

lemma unat_of_nat_u8 [simp]: "n < 256 \<Longrightarrow> unat (of_nat n :: u8) = n"
  by (simp add: unat_of_nat take_bit_nat_eq_self)

lemma unat_of_nat_u16 [simp]: "n < 65536 \<Longrightarrow> unat (of_nat n :: u16) = n"
  by (simp add: unat_of_nat take_bit_nat_eq_self)

lemma unat_u8_less: "unat (w :: u8) < 256"
  using unsigned_less [of w] by simp

lemma unat_u16_less: "unat (w :: u16) < 65536"
  using unsigned_less [of w] by simp

lemma unat_ucast_u8_u32 [simp]: "unat (ucast (w :: u8) :: u32) = unat w"
proof -
  have "unat w < 2 ^ 32" using unat_u8_less [of w] by simp
  then show ?thesis by (simp add: unsigned_ucast_eq take_bit_nat_eq_self)
qed

lemma take_take_drop: "take m xs @ take n (drop m xs) @ drop (m + n) xs = xs"
  by (metis append_take_drop_id drop_drop add.commute)

lemma to_be_2: "to_be 2 w = [ucast (drop_bit 8 w), ucast w]"
  by (simp add: numeral_2_eq_2)

lemma to_be_4: "to_be 4 w = [ucast (drop_bit 24 w), ucast (drop_bit 16 w), ucast (drop_bit 8 w), ucast w]"
proof -
  have "(4::nat) = Suc (Suc (Suc (Suc 0)))" by simp
  then show ?thesis by (simp only: to_be.simps) simp
qed

lemma take_bit_small: "unat w < 2 ^ n \<Longrightarrow> take_bit n w = (w :: 'a::len word)"
  by (simp add: word_unat_eq_iff unsigned_take_bit_eq take_bit_nat_eq_self)

section \<open>Decimal text\<close>

text \<open>\<^verbatim>\<open>Display\<close> of an unsigned integer.\<close>

definition digit_char :: "nat \<Rightarrow> char" where
  "digit_char d = char_of (48 + d)"

fun show_nat :: "nat \<Rightarrow> string" where
  "show_nat n = (if n < 10 then [digit_char n] else show_nat (n div 10) @ [digit_char (n mod 10)])"

declare show_nat.simps [simp del]

end
