(* ===== verification/Bytes_Api.thy ===== *)
theory Bytes_Api
  imports Prelude
begin

text \<open>
  The interface of the \<^verbatim>\<open>bytes\<close> crate (a dependency of the program, not part of it) as far as
  the program uses it.  A \<^verbatim>\<open>Bytes\<close>, a \<^verbatim>\<open>BytesMut\<close> or any \<^verbatim>\<open>impl Buf\<close> is represented by the bytes it
  still holds; the operations of the crate are the fields of the record \<open>bytes_ops\<close>, which every
  parser and serializer of the development takes as its argument \<open>B\<close>.  The locale
  \<open>bytes_crate\<close> states the documented behaviour of those operations: the reads are big-endian,
  advance the cursor, and panic when too little data remains; the writes append.
  \<open>documented_bytes\<close> is an implementation on byte lists, with which the hypothesis is discharged
  in witnesses.
\<close>

section \<open>The operations\<close>

record bytes_ops =
  buf_remaining :: "u8 list \<Rightarrow> nat"
  buf_get_u8 :: "u8 list \<Rightarrow> (u8 \<times> u8 list) option"
  buf_get_u16 :: "u8 list \<Rightarrow> (u16 \<times> u8 list) option"
  buf_get_u32 :: "u8 list \<Rightarrow> (u32 \<times> u8 list) option"
  buf_copy_to_slice :: "u8 list \<Rightarrow> nat \<Rightarrow> (u8 list \<times> u8 list) option"
  buf_copy_to_bytes :: "u8 list \<Rightarrow> nat \<Rightarrow> (u8 list \<times> u8 list) option"
  buf_advance :: "u8 list \<Rightarrow> nat \<Rightarrow> u8 list option"
  put_u8 :: "u8 list \<Rightarrow> u8 \<Rightarrow> u8 list"
  put_u16 :: "u8 list \<Rightarrow> u16 \<Rightarrow> u8 list"
  put_u32 :: "u8 list \<Rightarrow> u32 \<Rightarrow> u8 list"
  put_slice :: "u8 list \<Rightarrow> u8 list \<Rightarrow> u8 list"
  put_buf :: "u8 list \<Rightarrow> u8 list \<Rightarrow> u8 list"
  put_bytes :: "u8 list \<Rightarrow> u8 \<Rightarrow> nat \<Rightarrow> u8 list"

abbreviation remaining :: "bytes_ops \<Rightarrow> u8 list \<Rightarrow> nat" where
  "remaining \<equiv> buf_remaining"

text \<open>The reads, with \<open>None\<close> of the crate's operation as the panic it stands for.\<close>

definition get_u8 :: "bytes_ops \<Rightarrow> u8 list \<Rightarrow> ('e, u8 \<times> u8 list) outcome" where
  "get_u8 B buf = of_panic (buf_get_u8 B buf)"

definition get_u16 :: "bytes_ops \<Rightarrow> u8 list \<Rightarrow> ('e, u16 \<times> u8 list) outcome" where
  "get_u16 B buf = of_panic (buf_get_u16 B buf)"

definition get_u32 :: "bytes_ops \<Rightarrow> u8 list \<Rightarrow> ('e, u32 \<times> u8 list) outcome" where
  "get_u32 B buf = of_panic (buf_get_u32 B buf)"

definition copy_to_slice :: "bytes_ops \<Rightarrow> u8 list \<Rightarrow> nat \<Rightarrow> ('e, u8 list \<times> u8 list) outcome" where
  "copy_to_slice B buf n = of_panic (buf_copy_to_slice B buf n)"

definition copy_to_bytes :: "bytes_ops \<Rightarrow> u8 list \<Rightarrow> nat \<Rightarrow> ('e, u8 list \<times> u8 list) outcome" where
  "copy_to_bytes B buf n = of_panic (buf_copy_to_bytes B buf n)"

definition advance :: "bytes_ops \<Rightarrow> u8 list \<Rightarrow> nat \<Rightarrow> ('e, u8 list) outcome" where
  "advance B buf n = of_panic (buf_advance B buf n)"

section \<open>The documented behaviour\<close>

locale bytes_crate =
  fixes B :: bytes_ops
  assumes remaining_doc [simp]: "buf_remaining B buf = length buf"
    and get_u8_doc: "buf_get_u8 B buf = (case buf of [] \<Rightarrow> None | x # r \<Rightarrow> Some (x, r))"
    and get_u16_doc:
      "buf_get_u16 B buf = (if length buf < 2 then None else Some (from_be (take 2 buf), drop 2 buf))"
    and get_u32_doc:
      "buf_get_u32 B buf = (if length buf < 4 then None else Some (from_be (take 4 buf), drop 4 buf))"
    and copy_to_slice_doc:
      "buf_copy_to_slice B buf n = (if length buf < n then None else Some (take n buf, drop n buf))"
    and copy_to_bytes_doc:
      "buf_copy_to_bytes B buf n = (if length buf < n then None else Some (take n buf, drop n buf))"
    and advance_doc:
      "buf_advance B buf n = (if length buf < n then None else Some (drop n buf))"
    and put_u8_doc [simp]: "put_u8 B buf x = buf @ [x]"
    and put_u16_doc [simp]: "put_u16 B buf y = buf @ to_be 2 y"
    and put_u32_doc [simp]: "put_u32 B buf z = buf @ to_be 4 z"
    and put_slice_doc [simp]: "put_slice B buf bs = buf @ bs"
    and put_buf_doc [simp]: "put_buf B buf bs = buf @ bs"
    and put_bytes_doc [simp]: "put_bytes B buf x n = buf @ replicate n x"
begin

lemma get_u8_Cons [simp]: "get_u8 B (x # r) = Ok (x, r)"
  by (simp add: get_u8_def get_u8_doc)

lemma get_u8_Nil [simp]: "get_u8 B [] = Panic"
  by (simp add: get_u8_def get_u8_doc)

lemma get_u16_enough: "2 \<le> length buf \<Longrightarrow> get_u16 B buf = Ok (from_be (take 2 buf), drop 2 buf)"
  by (simp add: get_u16_def get_u16_doc)

lemma get_u16_short [simp]: "length buf < 2 \<Longrightarrow> get_u16 B buf = Panic"
  by (simp add: get_u16_def get_u16_doc)

lemma get_u16_two [simp]: "get_u16 B (a # b # r) = Ok (from_be [a, b], r)"
  by (simp add: get_u16_enough)

lemma get_u16_to_be [simp]: "get_u16 B (to_be 2 w @ r) = Ok (w, r)"
  by (simp add: get_u16_enough)

lemma get_u32_enough: "4 \<le> length buf \<Longrightarrow> get_u32 B buf = Ok (from_be (take 4 buf), drop 4 buf)"
  by (simp add: get_u32_def get_u32_doc)

lemma get_u32_short [simp]: "length buf < 4 \<Longrightarrow> get_u32 B buf = Panic"
  by (simp add: get_u32_def get_u32_doc)

lemma get_u32_to_be [simp]: "get_u32 B (to_be 4 w @ r) = Ok (w, r)"
  by (simp add: get_u32_enough)

lemma get_u32_to_be_last [simp]: "get_u32 B (to_be 4 w) = Ok (w, [])"
  using get_u32_to_be [of w "[]"] by simp

lemma copy_to_slice_enough [simp]:
  "n \<le> length buf \<Longrightarrow> copy_to_slice B buf n = Ok (take n buf, drop n buf)"
  by (simp add: copy_to_slice_def copy_to_slice_doc)

lemma copy_to_bytes_enough [simp]:
  "n \<le> length buf \<Longrightarrow> copy_to_bytes B buf n = Ok (take n buf, drop n buf)"
  by (simp add: copy_to_bytes_def copy_to_bytes_doc)

lemma advance_enough [simp]: "n \<le> length buf \<Longrightarrow> advance B buf n = Ok (drop n buf)"
  by (simp add: advance_def advance_doc)

lemma get_u8_eq_Ok [simp]: "get_u8 B buf = Ok (x, r) \<longleftrightarrow> buf = x # r"
  by (cases buf) auto

lemma get_u16_eq_Ok:
  "get_u16 B buf = Ok (w, r) \<longleftrightarrow> 2 \<le> length buf \<and> w = from_be (take 2 buf) \<and> r = drop 2 buf"
  by (cases "length buf < 2") (auto simp: get_u16_enough)

lemma get_u32_eq_Ok:
  "get_u32 B buf = Ok (w, r) \<longleftrightarrow> 4 \<le> length buf \<and> w = from_be (take 4 buf) \<and> r = drop 4 buf"
  by (cases "length buf < 4") (auto simp: get_u32_enough)

end

section \<open>An implementation on byte lists\<close>

definition documented_bytes :: bytes_ops where
  "documented_bytes =
     \<lparr>buf_remaining = length,
      buf_get_u8 = (\<lambda>buf. case buf of [] \<Rightarrow> None | x # r \<Rightarrow> Some (x, r)),
      buf_get_u16 = (\<lambda>buf. if length buf < 2 then None else Some (from_be (take 2 buf), drop 2 buf)),
      buf_get_u32 = (\<lambda>buf. if length buf < 4 then None else Some (from_be (take 4 buf), drop 4 buf)),
      buf_copy_to_slice = (\<lambda>buf n. if length buf < n then None else Some (take n buf, drop n buf)),
      buf_copy_to_bytes = (\<lambda>buf n. if length buf < n then None else Some (take n buf, drop n buf)),
      buf_advance = (\<lambda>buf n. if length buf < n then None else Some (drop n buf)),
      put_u8 = (\<lambda>buf x. buf @ [x]),
      put_u16 = (\<lambda>buf y. buf @ to_be 2 y),
      put_u32 = (\<lambda>buf z. buf @ to_be 4 z),
      put_slice = (@),
      put_buf = (@),
      put_bytes = (\<lambda>buf x n. buf @ replicate n x)\<rparr>"

interpretation doc: bytes_crate documented_bytes
  by unfold_locales (simp_all add: documented_bytes_def)

lemma documented_bytes_ok: "bytes_crate documented_bytes"
  by (rule doc.bytes_crate_axioms)

end
