(* ===== verification/Message.thy ===== *)
theory Message
  imports Bytes_Api
begin

text \<open>
  The framing layer, \<^verbatim>\<open>src/message/mod.rs\<close>, and the messages with a fixed layout:
  \<^verbatim>\<open>keepalive.rs\<close>, \<^verbatim>\<open>notification.rs\<close> and \<^verbatim>\<open>route_refresh.rs\<close>.  A parser on a \<^verbatim>\<open>&mut\<close> buffer returns
  the rest of the buffer with its result.
\<close>

section \<open>Message types and errors\<close>

datatype MessageType = Open | Update | Notification | Keepalive | RouteRefresh

datatype MessageError =
    UnknownType u8
  | TooShort (expected: usize) (got: usize)
  | InvalidMarker
  | InvalidLength u16
  | Parse string

definition MessageType_try_from :: "u8 \<Rightarrow> (MessageError, MessageType) outcome" where
  "MessageType_try_from v =
     (if v = 1 then Ok Open
      else if v = 2 then Ok Update
      else if v = 3 then Ok Notification
      else if v = 4 then Ok Keepalive
      else if v = 5 then Ok RouteRefresh
      else Err (UnknownType v))"

text \<open>The discriminant of \<^verbatim>\<open>#[repr(u8)] enum MessageType\<close>, as \<^verbatim>\<open>msg_type as u8\<close> reads it.\<close>

primrec MessageType_code :: "MessageType \<Rightarrow> u8" where
  "MessageType_code Open = 1"
| "MessageType_code Update = 2"
| "MessageType_code Notification = 3"
| "MessageType_code Keepalive = 4"
| "MessageType_code RouteRefresh = 5"

section \<open>The header\<close>

record Header =
  hdr_length :: u16
  msg_type :: MessageType

definition MARKER :: "u8 list" where
  "MARKER = replicate 16 0xFF"

definition HEADER_LEN :: usize where
  "HEADER_LEN = 19"

definition MAX_MESSAGE_LEN :: usize where
  "MAX_MESSAGE_LEN = 4096"

definition Header_new :: "MessageType \<Rightarrow> usize \<Rightarrow> Header" where
  "Header_new ty body_len = \<lparr>hdr_length = of_nat (HEADER_LEN + body_len), msg_type = ty\<rparr>"

definition Header_parse :: "bytes_ops \<Rightarrow> u8 list \<Rightarrow> (MessageError, Header \<times> u8 list) outcome" where
  "Header_parse B buf =
     (if remaining B buf < HEADER_LEN then Err (TooShort HEADER_LEN (remaining B buf))
      else and_then (copy_to_slice B buf 16) (\<lambda>(marker, buf).
        if marker \<noteq> MARKER then Err InvalidMarker
        else and_then (get_u16 B buf) (\<lambda>(len, buf).
          if unat len < HEADER_LEN \<or> MAX_MESSAGE_LEN < unat len then Err (InvalidLength len)
          else and_then (get_u8 B buf) (\<lambda>(type_byte, buf).
            and_then (MessageType_try_from type_byte) (\<lambda>ty.
              Ok (\<lparr>hdr_length = len, msg_type = ty\<rparr>, buf))))))"

definition Header_serialize :: "bytes_ops \<Rightarrow> Header \<Rightarrow> u8 list \<Rightarrow> u8 list" where
  "Header_serialize B hdr buf =
     put_u8 B (put_u16 B (put_slice B buf MARKER) (hdr_length hdr)) (MessageType_code (msg_type hdr))"

section \<open>A whole message\<close>

record BgpMessage =
  msg_header :: Header
  msg_body :: "u8 list"

text \<open>
  \<^verbatim>\<open>BgpMessage::parse\<close> peeks at the header through a copy of the slice, and consumes the buffer
  only when the message is complete; on an error or an incomplete message the buffer is as before.
\<close>

definition BgpMessage_parse ::
    "bytes_ops \<Rightarrow> u8 list \<Rightarrow> (MessageError, BgpMessage option \<times> u8 list) outcome" where
  "BgpMessage_parse B buf =
     (if length buf < HEADER_LEN then Ok (None, buf)
      else and_then (Header_parse B buf) (\<lambda>(header, peek).
        let total = unat (hdr_length header) in
        if length buf < total then Ok (None, buf)
        else and_then (advance B buf HEADER_LEN) (\<lambda>buf.
          and_then (copy_to_bytes B buf (total - HEADER_LEN)) (\<lambda>(body, buf).
            Ok (Some \<lparr>msg_header = header, msg_body = body\<rparr>, buf)))))"

section \<open>KEEPALIVE\<close>

definition KeepaliveMessage_serialize :: "bytes_ops \<Rightarrow> u8 list" where
  "KeepaliveMessage_serialize B = Header_serialize B (Header_new Keepalive 0) []"

section \<open>NOTIFICATION\<close>

datatype ErrorCode =
    MessageHeaderError | OpenMessageError | UpdateMessageError
  | HoldTimerExpiredError | FiniteStateMachineError | Cease

primrec ErrorCode_code :: "ErrorCode \<Rightarrow> u8" where
  "ErrorCode_code MessageHeaderError = 1"
| "ErrorCode_code OpenMessageError = 2"
| "ErrorCode_code UpdateMessageError = 3"
| "ErrorCode_code HoldTimerExpiredError = 4"
| "ErrorCode_code FiniteStateMachineError = 5"
| "ErrorCode_code Cease = 6"

record NotificationMessage =
  error_code :: u8
  error_subcode :: u8
  notif_data :: "u8 list"

definition NotificationMessage_new :: "ErrorCode \<Rightarrow> u8 \<Rightarrow> NotificationMessage" where
  "NotificationMessage_new code subcode =
     \<lparr>error_code = ErrorCode_code code, error_subcode = subcode, notif_data = []\<rparr>"

definition NotificationMessage_cease :: NotificationMessage where
  "NotificationMessage_cease = NotificationMessage_new Cease 0"

definition NotificationMessage_hold_timer_expired :: NotificationMessage where
  "NotificationMessage_hold_timer_expired = NotificationMessage_new HoldTimerExpiredError 0"

definition NotificationMessage_parse ::
    "bytes_ops \<Rightarrow> u8 list \<Rightarrow> (MessageError, NotificationMessage) outcome" where
  "NotificationMessage_parse B body =
     (if remaining B body < 2 then Err (TooShort 2 (remaining B body))
      else and_then (get_u8 B body) (\<lambda>(code, body).
        and_then (get_u8 B body) (\<lambda>(subcode, body).
          and_then (copy_to_slice B body (remaining B body)) (\<lambda>(data, body).
            Ok \<lparr>error_code = code, error_subcode = subcode, notif_data = data\<rparr>))))"

definition NotificationMessage_serialize :: "bytes_ops \<Rightarrow> NotificationMessage \<Rightarrow> u8 list" where
  "NotificationMessage_serialize B msg =
     (let body_len = 2 + length (notif_data msg);
          hdr = Header_new Notification body_len;
          out = Header_serialize B hdr []
      in put_slice B (put_u8 B (put_u8 B out (error_code msg)) (error_subcode msg)) (notif_data msg))"

section \<open>ROUTE-REFRESH\<close>

record RouteRefreshMessage =
  rr_afi :: u16
  rr_safi :: u8

definition RouteRefresh_new :: "u16 \<Rightarrow> u8 \<Rightarrow> RouteRefreshMessage" where
  "RouteRefresh_new afi safi = \<lparr>rr_afi = afi, rr_safi = safi\<rparr>"

text \<open>\<^verbatim>\<open>RouteRefresh::parse\<close> works on a slice and reads no reserved byte.\<close>

definition RouteRefresh_parse :: "u8 list \<Rightarrow> RouteRefreshMessage option" where
  "RouteRefresh_parse data =
     (if length data < 4 then None
      else Some \<lparr>rr_afi = from_be [data ! 0, data ! 1], rr_safi = data ! 3\<rparr>)"

definition RouteRefresh_serialize :: "bytes_ops \<Rightarrow> RouteRefreshMessage \<Rightarrow> u8 list" where
  "RouteRefresh_serialize B rr =
     (let buf = put_bytes B [] 0xFF 16;
          buf = put_u16 B buf (19 + 4);
          buf = put_u8 B buf 5;
          buf = put_u16 B buf (rr_afi rr);
          buf = put_u8 B buf 0
      in put_u8 B buf (rr_safi rr))"

section \<open>Lemmas\<close>

lemma MessageType_try_from_code [simp]: "MessageType_try_from (MessageType_code ty) = Ok ty"
  by (cases ty) (simp_all add: MessageType_try_from_def)

lemma MessageType_try_from_eq_Ok: "MessageType_try_from v = Ok ty \<longleftrightarrow> v = MessageType_code ty"
  by (cases ty) (auto simp: MessageType_try_from_def)

lemma returns_MessageType_try_from [simp]: "returns (MessageType_try_from v)"
  by (simp add: MessageType_try_from_def)

lemma length_MARKER [simp]: "length MARKER = 16"
  by (simp add: MARKER_def)

text \<open>The bytes of a header.\<close>

definition header_bytes :: "Header \<Rightarrow> u8 list" where
  "header_bytes hdr = MARKER @ to_be 2 (hdr_length hdr) @ [MessageType_code (msg_type hdr)]"

lemma length_header_bytes [simp]: "length (header_bytes hdr) = HEADER_LEN"
  by (simp add: header_bytes_def HEADER_LEN_def)

definition header_ok :: "Header \<Rightarrow> bool" where
  "header_ok hdr \<longleftrightarrow> HEADER_LEN \<le> unat (hdr_length hdr) \<and> unat (hdr_length hdr) \<le> MAX_MESSAGE_LEN"

lemma unat_Header_new [simp]:
  "body_len \<le> 65516 \<Longrightarrow> unat (hdr_length (Header_new ty body_len)) = HEADER_LEN + body_len"
  by (simp add: Header_new_def HEADER_LEN_def del: of_nat_add)

lemma header_ok_new [simp]: "body_len \<le> 4077 \<Longrightarrow> header_ok (Header_new ty body_len)"
  by (simp add: header_ok_def) (simp add: HEADER_LEN_def MAX_MESSAGE_LEN_def)

context bytes_crate
begin

lemma Header_serialize_eq [simp]: "Header_serialize B hdr buf = buf @ header_bytes hdr"
  by (simp add: Header_serialize_def header_bytes_def)

text \<open>\<open>Header_parse\<close> as one equation over a buffer that is long enough.\<close>

lemma Header_parse_long:
  assumes "HEADER_LEN \<le> length buf"
  shows "Header_parse B buf =
    (let len = from_be (take 2 (drop 16 buf)) in
     if take 16 buf \<noteq> MARKER then Err InvalidMarker
     else if unat len < HEADER_LEN \<or> MAX_MESSAGE_LEN < unat len then Err (InvalidLength len)
     else and_then (MessageType_try_from (buf ! 18))
            (\<lambda>ty. Ok (\<lparr>hdr_length = len, msg_type = ty\<rparr>, drop 19 buf)))"
proof -
  from assms have len: "19 \<le> length buf" by (simp add: HEADER_LEN_def)
  then have "drop 18 buf = buf ! 18 # drop 19 buf"
    using Cons_nth_drop_Suc [of 18 buf] by simp
  then have g8: "get_u8 B (drop 18 buf) = Ok (buf ! 18, drop 19 buf)" by simp
  have g16: "get_u16 B (drop 16 buf) = Ok (from_be (take 2 (drop 16 buf)), drop 18 buf)"
    using len by (simp add: get_u16_enough)
  show ?thesis
    using len by (simp add: Header_parse_def HEADER_LEN_def g16 g8 Let_def)
qed

lemma Header_parse_serialized:
  "header_ok hdr \<Longrightarrow> Header_parse B (header_bytes hdr @ rest) = Ok (hdr, rest)"
  by (subst Header_parse_long)
     (simp_all add: header_bytes_def header_ok_def HEADER_LEN_def nth_append not_less)

lemma returns_Header_parse: "returns (Header_parse B buf)"
proof (cases "HEADER_LEN \<le> length buf")
  case True
  then show ?thesis by (simp add: Header_parse_long Let_def returns_and_then)
next
  case False
  then show ?thesis by (simp add: Header_parse_def)
qed

lemma Header_parse_append:
  assumes "HEADER_LEN \<le> length buf"
  shows "Header_parse B (buf @ suffix) =
    and_then (Header_parse B buf) (\<lambda>(hdr, rest). Ok (hdr, rest @ suffix))"
  using assms
  by (simp add: Header_parse_long Let_def HEADER_LEN_def nth_append and_then_assoc)

lemma Header_parse_Ok:
  assumes "Header_parse B buf = Ok (hdr, rest)"
  shows "header_ok hdr" and "buf = header_bytes hdr @ rest"
proof -
  from assms have len: "HEADER_LEN \<le> length buf"
    by (auto simp: Header_parse_def split: if_splits)
  let ?w = "from_be (take 2 (drop 16 buf)) :: u16"
  from assms len have m: "take 16 buf = MARKER" and r: "rest = drop 19 buf"
    and ok: "HEADER_LEN \<le> unat ?w" "unat ?w \<le> MAX_MESSAGE_LEN"
    and h: "hdr_length hdr = ?w" and ty: "buf ! 18 = MessageType_code (msg_type hdr)"
    by (auto simp: Header_parse_long Let_def and_then_eq_Ok_iff MessageType_try_from_eq_Ok
             split: if_splits)
  from ok h show "header_ok hdr" by (simp add: header_ok_def)
  have len19: "19 \<le> length buf" using len by (simp add: HEADER_LEN_def)
  then have d18: "drop 18 buf = buf ! 18 # drop 19 buf"
    using Cons_nth_drop_Suc [of 18 buf] by simp
  have "buf = take 16 buf @ take 2 (drop 16 buf) @ drop 18 buf"
    using take_take_drop [of 16 buf 2] by simp
  moreover have "take 2 (drop 16 buf) = to_be 2 ?w"
    using len19 by simp
  ultimately show "buf = header_bytes hdr @ rest"
    by (simp add: header_bytes_def m r h ty d18 [unfolded ty])
qed

end

text \<open>The frame of a message: its header and its body, with the length the header announces.\<close>

definition frame_bytes :: "BgpMessage \<Rightarrow> u8 list" where
  "frame_bytes m = header_bytes (msg_header m) @ msg_body m"

definition frame_ok :: "BgpMessage \<Rightarrow> bool" where
  "frame_ok m \<longleftrightarrow> header_ok (msg_header m) \<and>
     unat (hdr_length (msg_header m)) = HEADER_LEN + length (msg_body m)"

context bytes_crate
begin

lemma BgpMessage_parse_frame:
  "frame_ok m \<Longrightarrow> BgpMessage_parse B (frame_bytes m @ rest) = Ok (Some m, rest)"
  by (simp add: BgpMessage_parse_def frame_bytes_def frame_ok_def Header_parse_serialized)

lemma BgpMessage_parse_Some:
  assumes "BgpMessage_parse B buf = Ok (Some m, rest)"
  shows "frame_ok m" and "buf = frame_bytes m @ rest"
proof -
  from assms obtain hdr peek where hp: "Header_parse B buf = Ok (hdr, peek)"
    and long: "unat (hdr_length hdr) \<le> length buf" and hl: "HEADER_LEN \<le> length buf"
    by (auto simp: BgpMessage_parse_def and_then_eq_Ok_iff Let_def split: if_splits)
  from Header_parse_Ok [OF hp] have ok: "header_ok hdr" and buf: "buf = header_bytes hdr @ peek" .
  let ?n = "unat (hdr_length hdr) - HEADER_LEN"
  from ok long buf have n: "?n \<le> length peek" "HEADER_LEN \<le> unat (hdr_length hdr)"
    by (auto simp: header_ok_def)
  with assms hp long hl buf have m: "m = \<lparr>msg_header = hdr, msg_body = take ?n peek\<rparr>"
    and rest: "rest = drop ?n peek"
    by (simp_all add: BgpMessage_parse_def Let_def)
  from m n ok show "frame_ok m" by (simp add: frame_ok_def)
  from m rest buf show "buf = frame_bytes m @ rest" by (simp add: frame_bytes_def)
qed

lemma returns_BgpMessage_parse: "returns (BgpMessage_parse B buf)"
proof -
  have "returns (and_then (advance B buf HEADER_LEN) (\<lambda>buf.
          and_then (copy_to_bytes B buf (unat (hdr_length hdr) - HEADER_LEN)) (\<lambda>(body, buf).
            Ok (Some \<lparr>msg_header = hdr, msg_body = body\<rparr>, buf))))"
    if "Header_parse B buf = Ok (hdr, peek)" "unat (hdr_length hdr) \<le> length buf" for hdr peek
    using Header_parse_Ok [OF that(1)] that(2) by (simp add: header_ok_def)
  then show ?thesis
    by (auto simp: BgpMessage_parse_def Let_def intro!: returns_and_then returns_Header_parse)
qed

lemma BgpMessage_parse_Err_append:
  assumes "BgpMessage_parse B buf = Err e"
  shows "BgpMessage_parse B (buf @ suffix) = Err e"
proof -
  from assms have hl: "HEADER_LEN \<le> length buf"
    by (auto simp: BgpMessage_parse_def split: if_splits)
  have "Header_parse B buf = Err e"
  proof (rule ccontr)
    assume "\<not> ?thesis"
    with assms hl obtain hdr peek where hp: "Header_parse B buf = Ok (hdr, peek)"
      by (auto simp: BgpMessage_parse_def and_then_eq_Err_iff)
    from Header_parse_Ok [OF hp] assms hp hl show False
      by (auto simp: BgpMessage_parse_def header_ok_def Let_def split: if_splits)
  qed
  with hl have "Header_parse B (buf @ suffix) = Err e" by (simp add: Header_parse_append)
  with hl show ?thesis by (simp add: BgpMessage_parse_def)
qed

lemma BgpMessage_parse_prefix:
  assumes ok: "frame_ok m" and cut: "k < length (frame_bytes m)"
  shows "BgpMessage_parse B (take k (frame_bytes m)) = Ok (None, take k (frame_bytes m))"
proof (cases "k < HEADER_LEN")
  case True
  with cut show ?thesis by (simp add: BgpMessage_parse_def)
next
  case False
  let ?hdr = "msg_header m"
  from False have tk: "take k (frame_bytes m) =
      header_bytes ?hdr @ take (k - HEADER_LEN) (msg_body m)"
    by (simp add: frame_bytes_def)
  from ok have hok: "header_ok ?hdr" by (simp add: frame_ok_def)
  from ok cut False have "length (take k (frame_bytes m)) < unat (hdr_length ?hdr)"
    by (simp add: frame_ok_def frame_bytes_def)
  with tk show ?thesis
    by (simp add: BgpMessage_parse_def Header_parse_serialized [OF hok])
qed

lemma NotificationMessage_parse_eq:
  "2 \<le> length body \<Longrightarrow> NotificationMessage_parse B body =
     Ok \<lparr>error_code = body ! 0, error_subcode = body ! 1, notif_data = drop 2 body\<rparr>"
  by (cases body; cases "tl body") (auto simp: NotificationMessage_parse_def)

lemma returns_NotificationMessage_parse: "returns (NotificationMessage_parse B body)"
  by (cases "2 \<le> length body") (simp_all add: NotificationMessage_parse_eq, simp add: NotificationMessage_parse_def)

end

section \<open>The contract of a message codec\<close>

text \<open>
  What \<^verbatim>\<open>OpenMessage\<close>, \<^verbatim>\<open>UpdateMessage\<close> and \<^verbatim>\<open>NotificationMessage\<close> promise to the framing layer:
  \<^verbatim>\<open>serialize\<close> writes a header of the codec's type that announces the length of what it wrote, and
  \<^verbatim>\<open>parse\<close> reads the body back.  The framed round trip follows once for all of them.
\<close>

locale wire_codec = bytes_crate B
  for B :: bytes_ops +
  fixes ty :: MessageType
    and serialize :: "'m \<Rightarrow> u8 list"
    and parse :: "u8 list \<Rightarrow> (MessageError, 'm) outcome"
    and ok :: "'m \<Rightarrow> bool"
  assumes serialize_header:
      "serialize m = header_bytes (Header_new ty (length (serialize m) - HEADER_LEN)) @
                       drop HEADER_LEN (serialize m)"
    and serialize_small: "ok m \<Longrightarrow> length (serialize m) \<le> MAX_MESSAGE_LEN"
    and parse_serialize: "ok m \<Longrightarrow> parse (drop HEADER_LEN (serialize m)) = Ok m"
begin

lemma framed_roundtrip:
  assumes "ok m"
  shows "\<exists>msg. BgpMessage_parse B (serialize m @ rest) = Ok (Some msg, rest) \<and>
               msg_type (msg_header msg) = ty \<and> parse (msg_body msg) = Ok m"
proof -
  define body where "body = drop HEADER_LEN (serialize m)"
  define msg where "msg = \<lparr>msg_header = Header_new ty (length body), msg_body = body\<rparr>"
  have ser: "serialize m = frame_bytes msg"
    by (simp only: frame_bytes_def msg_def body_def BgpMessage.simps length_drop)
       (rule serialize_header)
  from serialize_small [OF assms] have "length body \<le> 4077"
    by (simp add: body_def MAX_MESSAGE_LEN_def HEADER_LEN_def)
  then have "frame_ok msg" by (simp add: msg_def frame_ok_def)
  then have "BgpMessage_parse B (serialize m @ rest) = Ok (Some msg, rest)"
    unfolding ser by (rule BgpMessage_parse_frame)
  moreover have "msg_type (msg_header msg) = ty" by (simp add: msg_def Header_new_def)
  moreover have "parse (msg_body msg) = Ok m"
    using parse_serialize [OF assms] by (simp add: msg_def body_def)
  ultimately show ?thesis by blast
qed

end

definition notification_ok :: "NotificationMessage \<Rightarrow> bool" where
  "notification_ok n \<longleftrightarrow> length (notif_data n) \<le> 4075"

context bytes_crate
begin

lemma NotificationMessage_serialize_eq:
  "NotificationMessage_serialize B n =
     header_bytes (Header_new Notification (2 + length (notif_data n))) @
       [error_code n, error_subcode n] @ notif_data n"
  by (simp add: NotificationMessage_serialize_def Let_def)

end

sublocale bytes_crate \<subseteq> notification: wire_codec B Notification
    "NotificationMessage_serialize B" "NotificationMessage_parse B" notification_ok
  by unfold_locales
     (simp_all add: NotificationMessage_serialize_eq notification_ok_def HEADER_LEN_def
        MAX_MESSAGE_LEN_def NotificationMessage_parse_eq)

section \<open>Properties\<close>

text \<open>C6: framing is exact.  \<^verbatim>\<open>BgpMessage::parse\<close> extracts the message \<open>m\<close> and leaves \<open>rest\<close> in the
  buffer exactly when the buffer is the wire form of \<open>m\<close> (marker, length, type, body, with an
  announced length between 19 and 4096 that is the length of the frame) followed by \<open>rest\<close>.\<close>

theorem framing_exact:
  assumes "bytes_crate B"
  shows "BgpMessage_parse B buf = Ok (Some m, rest) \<longleftrightarrow> frame_ok m \<and> buf = frame_bytes m @ rest"
  using bytes_crate.BgpMessage_parse_frame [OF assms] bytes_crate.BgpMessage_parse_Some [OF assms]
  by blast

theorem framing_exact_witness:
  "BgpMessage_parse documented_bytes (KeepaliveMessage_serialize documented_bytes @ [1, 2]) =
     Ok (Some \<lparr>msg_header = Header_new Keepalive 0, msg_body = []\<rparr>, [1, 2])"
  by (subst framing_exact [OF documented_bytes_ok])
     (simp add: frame_ok_def frame_bytes_def KeepaliveMessage_serialize_def)

end
