(* ===== verification/Capabilities.thy ===== *)
theory Capabilities
  imports Message
begin

text \<open>
  BGP capabilities, \<^verbatim>\<open>src/capabilities.rs\<close>: the TLV encoding of a capability and the two nested
  index loops that read the capabilities out of the optional parameters of an OPEN message.  The
  record \<open>OptionalParam\<close> is that of \<^verbatim>\<open>src/message/open.rs\<close>.
\<close>

record OptionalParam =
  param_type :: u8
  param_value :: "u8 list"

datatype Capability =
    MultiProtocol (mp_afi: u16) (mp_safi: u8)
  | RouteRefreshCap
  | FourOctetAsn (asn: u32)
  | GracefulRestart (restart_time: u16) (gr_flags: u8)
  | UnknownCap (cap_code: u8) (cap_data: "u8 list")

fun Capability_code :: "Capability \<Rightarrow> u8" where
  "Capability_code (MultiProtocol afi safi) = 1"
| "Capability_code RouteRefreshCap = 2"
| "Capability_code (GracefulRestart t f) = 64"
| "Capability_code (FourOctetAsn n) = 65"
| "Capability_code (UnknownCap code data) = code"

fun Capability_value :: "Capability \<Rightarrow> u8 \<times> u8 list" where
  "Capability_value (MultiProtocol afi safi) = (1, [ucast (drop_bit 8 afi), ucast afi, 0, safi])"
| "Capability_value RouteRefreshCap = (2, [])"
| "Capability_value (GracefulRestart t f) =
     (let word = push_bit 12 ((ucast f :: u16) AND 0xF) OR (t AND 0x0FFF)
      in (64, [ucast (drop_bit 8 word), ucast word]))"
| "Capability_value (FourOctetAsn n) = (65, to_be 4 n)"
| "Capability_value (UnknownCap code data) = (code, data)"

definition Capability_to_bytes :: "Capability \<Rightarrow> u8 list" where
  "Capability_to_bytes cap =
     (let (code, value) = Capability_value cap in [code, of_nat (length value)] @ value)"

definition Capability_parse_one :: "u8 \<Rightarrow> u8 list \<Rightarrow> Capability" where
  "Capability_parse_one code data =
     (if code = 1 \<and> 4 \<le> length data then MultiProtocol (from_be [data ! 0, data ! 1]) (data ! 3)
      else if code = 2 then RouteRefreshCap
      else if code = 64 \<and> 2 \<le> length data then
        (let word = from_be [data ! 0, data ! 1] :: u16
         in GracefulRestart (word AND 0x0FFF) (ucast (drop_bit 12 word AND 0xF)))
      else if code = 65 \<and> 4 \<le> length data then
        FourOctetAsn (from_be [data ! 0, data ! 1, data ! 2, data ! 3])
      else UnknownCap code data)"

fun Capability_to_string :: "Capability \<Rightarrow> string" where
  "Capability_to_string (MultiProtocol afi safi) =
     ''MultiProtocol(AFI='' @ show_nat (unat afi) @ '', SAFI='' @ show_nat (unat safi) @ '')''"
| "Capability_to_string RouteRefreshCap = ''RouteRefresh''"
| "Capability_to_string (GracefulRestart t f) = ''GracefulRestart(time='' @ show_nat (unat t) @ ''s)''"
| "Capability_to_string (FourOctetAsn n) = ''4-byte-ASN('' @ show_nat (unat n) @ '')''"
| "Capability_to_string (UnknownCap code data) = ''Unknown(code='' @ show_nat (unat code) @ '')''"

text \<open>
  The inner loop of \<^verbatim>\<open>parse_optional_params\<close> over one capability parameter; \<open>e\<close> is \<^verbatim>\<open>end\<close>.  As in the
  code, a capability is only cut off at the end of the whole block, not at the end of its parameter.
\<close>

function parse_caps_loop :: "u8 list \<Rightarrow> nat \<Rightarrow> nat \<Rightarrow> Capability list \<Rightarrow> Capability list" where
  "parse_caps_loop data e cap_pos caps =
     (if cap_pos + 2 \<le> min e (length data) then
        (let code = data ! cap_pos;
             len = unat (data ! (cap_pos + 1));
             cap_pos = cap_pos + 2;
             cap_end = cap_pos + len
         in if length data < cap_end then caps
            else parse_caps_loop data e cap_end
                   (caps @ [Capability_parse_one code (take (cap_end - cap_pos) (drop cap_pos data))]))
      else caps)"
  by pat_completeness auto
termination
  by (relation "measure (\<lambda>(data, e, cap_pos, caps). length data - cap_pos)") auto

function parse_params_loop :: "u8 list \<Rightarrow> nat \<Rightarrow> Capability list \<Rightarrow> Capability list" where
  "parse_params_loop data pos caps =
     (if pos + 2 \<le> length data then
        (let ptype = data ! pos;
             len = unat (data ! (pos + 1));
             pos = pos + 2;
             caps = (if ptype = 2 then parse_caps_loop data (pos + len) pos caps else caps)
         in parse_params_loop data (pos + len) caps)
      else caps)"
  by pat_completeness auto
termination
  by (relation "measure (\<lambda>(data, pos, caps). length data - pos)") auto

declare parse_caps_loop.simps [simp del] parse_params_loop.simps [simp del]

definition parse_optional_params :: "u8 list \<Rightarrow> Capability list" where
  "parse_optional_params data = parse_params_loop data 0 []"

definition parse_from_open_params :: "OptionalParam list \<Rightarrow> Capability list" where
  "parse_from_open_params params =
     parse_optional_params
       (concat (map (\<lambda>p. param_type p # of_nat (length (param_value p)) # param_value p) params))"

definition build_capabilities :: "Capability list \<Rightarrow> u8 list" where
  "build_capabilities caps =
     (let cap_bytes = concat (map Capability_to_bytes caps) in
      if cap_bytes = [] then [0]
      else let out = 2 # of_nat (length cap_bytes) # cap_bytes
           in of_nat (length out) # out)"

section \<open>Lemmas\<close>

text \<open>
  The capabilities that the wire format can carry: the 12-bit restart time and the 4-bit flags of
  RFC 4724, and an unknown capability that is not the encoding of a known one.
\<close>

fun cap_ok :: "Capability \<Rightarrow> bool" where
  "cap_ok (GracefulRestart t f) \<longleftrightarrow> unat t < 4096 \<and> unat f < 16"
| "cap_ok (UnknownCap code data) \<longleftrightarrow> length data < 256 \<and> Capability_parse_one code data = UnknownCap code data"
| "cap_ok cap \<longleftrightarrow> True"

lemma from_be_2_cast: "from_be [ucast (drop_bit 8 w), ucast w] = (w :: u16)"
  using from_be_to_be_16 [of w] by (simp add: to_be_2 del: from_be_to_be_16)

lemma from_be_4_cast: "from_be [to_be 4 w ! 0, to_be 4 w ! 1, to_be 4 w ! 2, to_be 4 w ! 3] = (w :: u32)"
  using from_be_to_be_32 [of w] by (simp add: to_be_4 del: from_be_to_be_32)

text \<open>The two fields of the GRACEFUL-RESTART word do not overlap.\<close>

lemma and_0xFFF: "(w :: u16) AND 0x0FFF = take_bit 12 w"
proof -
  have "(mask 12 :: u16) = 0x0FFF" by (simp add: mask_eq_exp_minus_1)
  then show ?thesis by (simp add: take_bit_eq_mask)
qed

lemma and_0xF: "(w :: u16) AND 0xF = take_bit 4 w"
proof -
  have "(mask 4 :: u16) = 0xF" by (simp add: mask_eq_exp_minus_1)
  then show ?thesis by (simp add: take_bit_eq_mask)
qed

lemma gr_word_time:
  "unat t < 4096 \<Longrightarrow> (push_bit 12 (x AND 0xF) OR (t AND 0x0FFF)) AND 0x0FFF = (t :: u16)"
  using take_bit_small [of t 12]
  by (simp add: and_0xFFF and_0xF take_bit_or take_bit_push_bit)

lemma gr_word_flags:
  assumes "unat f < 16"
  shows "ucast (drop_bit 12 (push_bit 12 ((ucast f :: u16) AND 0xF) OR (t AND 0x0FFF)) AND 0xF) =
           (f :: u8)"
proof -
  have "take_bit 4 f = f" using assms take_bit_small [of f 4] by simp
  then have "bit f n \<Longrightarrow> n < 4" for n by (metis bit_take_bit_iff)
  then show ?thesis
    by (intro bit_word_eqI) (auto simp: and_0xFFF and_0xF bit_simps)
qed

lemma parse_one_gr:
  "Capability_parse_one 64 [ucast (drop_bit 8 w), ucast w] =
     GracefulRestart (w AND 0x0FFF) (ucast (drop_bit 12 w AND 0xF))"
  by (simp add: Capability_parse_one_def from_be_2_cast Let_def)

lemma Capability_parse_one_value:
  assumes "cap_ok cap"
  shows "Capability_parse_one (fst (Capability_value cap)) (snd (Capability_value cap)) = cap"
proof (cases cap)
  case (GracefulRestart t f)
  let ?w = "push_bit 12 ((ucast f :: u16) AND 0xF) OR (t AND 0x0FFF)"
  have "Capability_value cap = (64, [ucast (drop_bit 8 ?w), ucast ?w])"
    by (simp only: GracefulRestart Capability_value.simps Let_def)
  then show ?thesis
    using assms gr_word_time [of t "ucast f"] gr_word_flags [of f t]
    by (simp only: fst_conv snd_conv parse_one_gr GracefulRestart cap_ok.simps)
qed (use assms in \<open>simp_all add: Capability_parse_one_def from_be_2_cast from_be_4_cast [simplified]\<close>)

lemma length_Capability_value: "cap_ok cap \<Longrightarrow> length (snd (Capability_value cap)) < 256"
  by (cases cap) (simp_all add: Let_def)

text \<open>One round of the inner loop on an encoded capability, wherever it lies in the block.\<close>

lemma parse_caps_loop_step:
  assumes "cap_ok cap" and "length pre + length (Capability_to_bytes cap) \<le> e"
  shows "parse_caps_loop (pre @ Capability_to_bytes cap @ post) e (length pre) caps =
         parse_caps_loop (pre @ Capability_to_bytes cap @ post) e
           (length pre + length (Capability_to_bytes cap)) (caps @ [cap])"
proof -
  obtain code v where cv: "Capability_value cap = (code, v)" by fastforce
  with length_Capability_value [OF assms(1)] have v: "length v < 256" by simp
  have bytes: "Capability_to_bytes cap = code # of_nat (length v) # v"
    by (simp add: Capability_to_bytes_def cv)
  have one: "Capability_parse_one code v = cap"
    using Capability_parse_one_value [OF assms(1)] cv by simp
  show ?thesis
    using assms(2) v by (subst parse_caps_loop.simps) (simp add: bytes one nth_append Let_def)
qed

lemma parse_caps_loop_concat:
  assumes "\<forall>cap \<in> set cs. cap_ok cap"
  shows "parse_caps_loop (pre @ concat (map Capability_to_bytes cs) @ post)
           (length pre + length (concat (map Capability_to_bytes cs))) (length pre) caps = caps @ cs"
  using assms
proof (induction cs arbitrary: pre caps)
  case Nil
  then show ?case by (subst parse_caps_loop.simps) simp
next
  case (Cons c cs)
  let ?b = "Capability_to_bytes c" and ?r = "concat (map Capability_to_bytes cs)"
  have "parse_caps_loop (pre @ ?b @ (?r @ post)) (length pre + length (?b @ ?r)) (length pre) caps =
        parse_caps_loop (pre @ ?b @ (?r @ post)) (length pre + length (?b @ ?r))
          (length pre + length ?b) (caps @ [c])"
    by (rule parse_caps_loop_step) (use Cons.prems in simp_all)
  also have "\<dots> = caps @ c # cs"
    using Cons.IH [of "pre @ ?b" "caps @ [c]"] Cons.prems by (simp add: add.assoc)
  finally show ?case by simp
qed

text \<open>A single capability parameter carries all its capabilities through.\<close>

lemma parse_from_open_params_single:
  assumes ok: "\<forall>cap \<in> set cs. cap_ok cap"
    and small: "length (concat (map Capability_to_bytes cs)) < 256"
  shows "parse_from_open_params
           [\<lparr>param_type = 2, param_value = concat (map Capability_to_bytes cs)\<rparr>] = cs"
proof -
  let ?b = "concat (map Capability_to_bytes cs)"
  have loop: "parse_caps_loop (2 # of_nat (length ?b) # ?b) (2 + length ?b) 2 [] = cs"
    using parse_caps_loop_concat [OF ok, of "[2, of_nat (length ?b)]" "[]" "[]"]
    by (simp add: numeral_2_eq_2)
  have stop: "parse_params_loop (2 # of_nat (length ?b) # ?b) (2 + length ?b) cs = cs"
    by (subst parse_params_loop.simps) simp
  show ?thesis
    unfolding parse_from_open_params_def parse_optional_params_def
    using small loop stop by (simp add: parse_params_loop.simps [of _ 0] Let_def numeral_2_eq_2)
qed

section \<open>Properties\<close>

text \<open>A capability that is longer than the parameter it lies in is read out of the bytes of the
  next parameter.  The block below holds two capability parameters of two bytes each; the first
  announces a 4-octet AS number but holds none of its octets, and the second holds the empty capability
  with code \<open>code\<close>.  The AS number is made of the second parameter's four bytes, which are then read
  again as a parameter.\<close>

lemma capability_overrun:
  "parse_optional_params [2, 2, 65, 4, 2, 2, code, 0] =
     [FourOctetAsn (from_be [2, 2, code, 0]), Capability_parse_one code []]"
  by (simp add: parse_optional_params_def parse_params_loop.simps parse_caps_loop.simps
        Capability_parse_one_def)

end
