(* ===== verification/Open_Message.thy ===== *)
theory Open_Message
  imports Capabilities
begin

text \<open>
  The OPEN message, \<^verbatim>\<open>src/message/open.rs\<close>: construction (with and without capabilities), parsing of
  the body with the loop over the optional parameters, and serialization.
\<close>

record OpenMessage =
  version :: u8
  my_as :: u16
  open_hold_time :: u16
  bgp_id :: Ipv4Addr
  optional_params :: "OptionalParam list"

definition OpenMessage_new :: "u16 \<Rightarrow> u16 \<Rightarrow> Ipv4Addr \<Rightarrow> OpenMessage" where
  "OpenMessage_new as ht rid =
     \<lparr>version = 4, my_as = as, open_hold_time = ht, bgp_id = rid, optional_params = []\<rparr>"

definition OpenMessage_new_with_capabilities ::
    "u16 \<Rightarrow> u16 \<Rightarrow> Ipv4Addr \<Rightarrow> Capability list \<Rightarrow> OpenMessage" where
  "OpenMessage_new_with_capabilities as ht rid caps =
     (let msg = OpenMessage_new as ht rid in
      if caps = [] then msg
      else msg\<lparr>optional_params := optional_params msg @
             [\<lparr>param_type = 2, param_value = concat (map Capability_to_bytes caps)\<rparr>]\<rparr>)"

text \<open>
  The \<^verbatim>\<open>while remaining >= 2\<close> loop; \<open>rem\<close> is the local counter \<^verbatim>\<open>remaining\<close> (not the buffer's), which
  falls in every round.
\<close>

fun parse_open_params ::
    "bytes_ops \<Rightarrow> nat \<Rightarrow> OptionalParam list \<Rightarrow> u8 list \<Rightarrow> (MessageError, OptionalParam list) outcome" where
  "parse_open_params B rem params body =
     (if rem < 2 then Ok params
      else and_then (get_u8 B body) (\<lambda>(ptype, body).
        and_then (get_u8 B body) (\<lambda>(plen, body).
          let param_len = unat plen; rem' = rem - 2 in
          if remaining B body < param_len \<or> rem' < param_len
          then Err (Parse ''Truncated optional parameter'')
          else and_then (copy_to_slice B body param_len) (\<lambda>(value, body).
            parse_open_params B (rem' - param_len)
              (params @ [\<lparr>param_type = ptype, param_value = value\<rparr>]) body))))"

declare parse_open_params.simps [simp del]

definition OpenMessage_parse :: "bytes_ops \<Rightarrow> u8 list \<Rightarrow> (MessageError, OpenMessage) outcome" where
  "OpenMessage_parse B body =
     (if remaining B body < 10 then Err (TooShort 10 (remaining B body))
      else and_then (get_u8 B body) (\<lambda>(ver, body).
        and_then (get_u16 B body) (\<lambda>(as, body).
        and_then (get_u16 B body) (\<lambda>(ht, body).
        and_then (get_u32 B body) (\<lambda>(rid, body).
        and_then (get_u8 B body) (\<lambda>(opl, body).
          let opt_param_len = unat opl in
          if remaining B body < opt_param_len then Err (TooShort opt_param_len (remaining B body))
          else and_then (parse_open_params B opt_param_len [] body) (\<lambda>params.
            Ok \<lparr>version = ver, my_as = as, open_hold_time = ht, bgp_id = rid,
                optional_params = params\<rparr>)))))))"

definition OptionalParam_put :: "bytes_ops \<Rightarrow> u8 list \<Rightarrow> OptionalParam \<Rightarrow> u8 list" where
  "OptionalParam_put B buf p =
     put_slice B (put_u8 B (put_u8 B buf (param_type p)) (of_nat (length (param_value p))))
       (param_value p)"

definition OpenMessage_serialize :: "bytes_ops \<Rightarrow> OpenMessage \<Rightarrow> u8 list" where
  "OpenMessage_serialize B msg =
     (let body = put_u8 B [] (version msg);
          body = put_u16 B body (my_as msg);
          body = put_u16 B body (open_hold_time msg);
          body = put_u32 B body (bgp_id msg);
          opt_buf = foldl (OptionalParam_put B) [] (optional_params msg);
          body = put_u8 B body (of_nat (length opt_buf));
          body = put_buf B body opt_buf;
          hdr = Header_new Open (length body);
          out = Header_serialize B hdr []
      in put_buf B out body)"

section \<open>Lemmas\<close>

definition param_bytes :: "OptionalParam \<Rightarrow> u8 list" where
  "param_bytes p = param_type p # of_nat (length (param_value p)) # param_value p"

definition open_body :: "OpenMessage \<Rightarrow> u8 list" where
  "open_body msg =
     (let opt = concat (map param_bytes (optional_params msg)) in
      [version msg] @ to_be 2 (my_as msg) @ to_be 2 (open_hold_time msg) @ to_be 4 (bgp_id msg) @
      [of_nat (length opt)] @ opt)"

text \<open>The OPEN messages that fit their wire format: the optional parameters fill at most 255 bytes.\<close>

definition open_ok :: "OpenMessage \<Rightarrow> bool" where
  "open_ok msg \<longleftrightarrow> length (concat (map param_bytes (optional_params msg))) < 256"

lemma param_value_fits:
  "length (concat (map param_bytes ps)) < 256 \<Longrightarrow> p \<in> set ps \<Longrightarrow> length (param_value p) < 254"
  by (induction ps) (auto simp: param_bytes_def)

context bytes_crate
begin

lemma foldl_OptionalParam_put:
  "foldl (OptionalParam_put B) buf ps = buf @ concat (map param_bytes ps)"
  by (induction ps arbitrary: buf) (simp_all add: OptionalParam_put_def param_bytes_def)

lemma OpenMessage_serialize_eq:
  "OpenMessage_serialize B msg =
     header_bytes (Header_new Open (length (open_body msg))) @ open_body msg"
  by (simp add: OpenMessage_serialize_def open_body_def foldl_OptionalParam_put Let_def)

lemma parse_open_params_concat:
  assumes "length (concat (map param_bytes ps)) < 256"
  shows "parse_open_params B (length (concat (map param_bytes ps))) acc
           (concat (map param_bytes ps) @ rest) = Ok (acc @ ps)"
  using assms
proof (induction ps arbitrary: acc)
  case Nil
  then show ?case by (simp add: parse_open_params.simps)
next
  case (Cons p ps)
  have v: "length (param_value p) < 256"
    using param_value_fits [OF Cons.prems, of p] by simp
  let ?r = "concat (map param_bytes ps)"
  have "parse_open_params B (length (param_bytes p @ ?r)) acc ((param_bytes p @ ?r) @ rest) =
        parse_open_params B (length ?r) (acc @ [p]) (?r @ rest)"
    using v by (cases p, subst parse_open_params.simps) (simp add: param_bytes_def Let_def)
  with Cons show ?case by simp
qed

lemma returns_parse_open_params: "rem \<le> length body \<Longrightarrow> returns (parse_open_params B rem ps body)"
proof (induction rem arbitrary: ps body rule: less_induct)
  case (less rem)
  show ?case
  proof (cases "rem < 2")
    case True
    then show ?thesis by (simp add: parse_open_params.simps)
  next
    case False
    with less.prems obtain t l r where body: "body = t # l # r"
      by (cases body; cases "tl body") auto
    have "returns (parse_open_params B (rem - 2 - unat l) ps' (drop (unat l) r))" for ps'
      using less.prems False by (intro less.IH) (auto simp: body)
    then show ?thesis
      using False by (subst parse_open_params.simps) (simp add: body Let_def)
  qed
qed

lemma OpenMessage_parse_long:
  assumes "10 \<le> length body"
  shows "OpenMessage_parse B body =
    (let n = unat (body ! 9); rest = drop 10 body in
     if length rest < n then Err (TooShort n (length rest))
     else and_then (parse_open_params B n [] rest) (\<lambda>params.
       Ok \<lparr>version = body ! 0, my_as = from_be (take 2 (drop 1 body)),
           open_hold_time = from_be (take 2 (drop 3 body)), bgp_id = from_be (take 4 (drop 5 body)),
           optional_params = params\<rparr>))"
proof -
  from assms obtain v r where body: "body = v # r" and r: "9 \<le> length r"
    by (cases body) auto
  then have d8: "drop 8 r = r ! 8 # drop 9 r"
    using Cons_nth_drop_Suc [of 8 r] by simp
  then show ?thesis
    using r by (simp add: OpenMessage_parse_def body get_u16_enough get_u32_enough d8 Let_def)
qed

lemma returns_OpenMessage_parse: "returns (OpenMessage_parse B body)"
proof (cases "10 \<le> length body")
  case True
  then show ?thesis
    by (simp add: OpenMessage_parse_long Let_def not_less)
       (auto intro!: returns_and_then returns_parse_open_params)
next
  case False
  then show ?thesis by (simp add: OpenMessage_parse_def)
qed

lemma OpenMessage_parse_body: "open_ok msg \<Longrightarrow> OpenMessage_parse B (open_body msg) = Ok msg"
  using parse_open_params_concat [of "optional_params msg" "[]" "[]"]
  by (simp add: OpenMessage_parse_def open_body_def open_ok_def Let_def)

lemma length_open_body: "open_ok msg \<Longrightarrow> length (open_body msg) < 266"
  by (simp add: open_body_def open_ok_def Let_def)

end

sublocale bytes_crate \<subseteq> opn: wire_codec B Open "OpenMessage_serialize B" "OpenMessage_parse B" open_ok
proof
  fix m
  show "OpenMessage_serialize B m =
      header_bytes (Header_new Open (length (OpenMessage_serialize B m) - HEADER_LEN)) @
        drop HEADER_LEN (OpenMessage_serialize B m)"
    by (simp add: OpenMessage_serialize_eq)
  show "open_ok m \<Longrightarrow> length (OpenMessage_serialize B m) \<le> MAX_MESSAGE_LEN"
    using length_open_body [of m]
    by (simp add: OpenMessage_serialize_eq HEADER_LEN_def MAX_MESSAGE_LEN_def)
  show "open_ok m \<Longrightarrow> OpenMessage_parse B (drop HEADER_LEN (OpenMessage_serialize B m)) = Ok m"
    by (simp add: OpenMessage_serialize_eq OpenMessage_parse_body)
qed

context bytes_crate
begin

lemmas open_framed_roundtrip = opn.framed_roundtrip

end

text \<open>An OPEN message with capabilities on the wire.\<close>

lemma open_caps_framed:
  assumes "bytes_crate B" and "caps \<noteq> []" and "\<forall>cap \<in> set caps. cap_ok cap"
    and "length (concat (map Capability_to_bytes caps)) \<le> 253"
  shows "let msg = OpenMessage_new_with_capabilities as ht rid caps in
         \<exists>f. BgpMessage_parse B (OpenMessage_serialize B msg @ rest) = Ok (Some f, rest) \<and>
             msg_type (msg_header f) = Open \<and>
             OpenMessage_parse B (msg_body f) = Ok msg \<and>
             parse_from_open_params (optional_params msg) = caps"
proof -
  define msg where "msg = OpenMessage_new_with_capabilities as ht rid caps"
  have params: "optional_params msg =
      [\<lparr>param_type = 2, param_value = concat (map Capability_to_bytes caps)\<rparr>]"
    using assms(2) by (simp add: msg_def OpenMessage_new_with_capabilities_def OpenMessage_new_def)
  then have "open_ok msg" using assms(4) by (simp add: open_ok_def param_bytes_def)
  from bytes_crate.open_framed_roundtrip [OF assms(1) this] show ?thesis
    using parse_from_open_params_single [OF assms(3)] assms(4) by (simp add: params flip: msg_def)
qed

section \<open>Properties\<close>

text \<open>C18: capability negotiation survives the wire.  The OPEN message built from a non-empty list of
  well-formed capabilities (whose encoding fits the one-byte parameter length) is framed, extracted
  from the byte stream, parsed back to the same message, and its optional parameters decode to the
  same capabilities in the same order.\<close>

theorem open_capabilities_roundtrip:
  assumes "bytes_crate B" and "caps \<noteq> []" and "\<forall>cap \<in> set caps. cap_ok cap"
    and "length (concat (map Capability_to_bytes caps)) \<le> 253"
  shows "let msg = OpenMessage_new_with_capabilities as ht rid caps in
         \<exists>f. BgpMessage_parse B (OpenMessage_serialize B msg @ rest) = Ok (Some f, rest) \<and>
             msg_type (msg_header f) = Open \<and>
             OpenMessage_parse B (msg_body f) = Ok msg \<and>
             parse_from_open_params (optional_params msg) = caps"
  using assms by (rule open_caps_framed)

theorem open_capabilities_roundtrip_witness:
  "let msg = OpenMessage_new_with_capabilities 65001 90 0x0A000001
               [FourOctetAsn 65001, RouteRefreshCap, MultiProtocol 1 1, GracefulRestart 120 0] in
   \<exists>f. BgpMessage_parse documented_bytes (OpenMessage_serialize documented_bytes msg @ [7]) =
         Ok (Some f, [7]) \<and> msg_type (msg_header f) = Open \<and>
       OpenMessage_parse documented_bytes (msg_body f) = Ok msg \<and>
       parse_from_open_params (optional_params msg) =
         [FourOctetAsn 65001, RouteRefreshCap, MultiProtocol 1 1, GracefulRestart 120 0]"
  by (rule open_capabilities_roundtrip [OF documented_bytes_ok])
     (simp_all add: Capability_to_bytes_def)

end
