(* ===== verification/Attr.thy ===== *)
theory Attr
  imports Bytes_Api
begin

text \<open>
  Path attributes, \<^verbatim>\<open>src/attr.rs\<close>: the attribute record, the TLV parser with its loops over
  attributes, AS_PATH segments and lists of 32-bit values, and the serializer.  The loops of the
  parser run as long as the buffer holds data, so they carry fuel; \<open>PathAttributes_parse\<close> starts
  them with more fuel than the buffer has bytes, and \<open>parse_attrs_fuel\<close> and
  \<open>returns_parse_attrs\<close> show that this is always enough.
\<close>

section \<open>Data\<close>

datatype Origin = Igp | Egp | Incomplete

datatype AttrError =
    AttrTooShort
  | InvalidOrigin u8
  | InvalidAsPathSegment u8
  | AttrParse string

text \<open>The \<^verbatim>\<open>Display\<close> texts that \<^verbatim>\<open>#[error(...)]\<close> gives the errors.\<close>

primrec AttrError_to_string :: "AttrError \<Rightarrow> string" where
  "AttrError_to_string AttrTooShort = ''Attribute too short''"
| "AttrError_to_string (InvalidOrigin v) = ''Invalid ORIGIN value: '' @ show_nat (unat v)"
| "AttrError_to_string (InvalidAsPathSegment v) =
     ''Invalid AS_PATH segment type: '' @ show_nat (unat v)"
| "AttrError_to_string (AttrParse s) = ''Parse error: '' @ s"

definition Origin_try_from :: "u8 \<Rightarrow> (AttrError, Origin) outcome" where
  "Origin_try_from v =
     (if v = 0 then Ok Igp else if v = 1 then Ok Egp else if v = 2 then Ok Incomplete
      else Err (InvalidOrigin v))"

primrec Origin_code :: "Origin \<Rightarrow> u8" where
  "Origin_code Igp = 0"
| "Origin_code Egp = 1"
| "Origin_code Incomplete = 2"

primrec Origin_to_string :: "Origin \<Rightarrow> string" where
  "Origin_to_string Igp = ''IGP''"
| "Origin_to_string Egp = ''EGP''"
| "Origin_to_string Incomplete = ''Incomplete''"

datatype AsPathSegment = AsSet "u32 list" | AsSequence "u32 list"

primrec as_numbers :: "AsPathSegment \<Rightarrow> u32 list" where
  "as_numbers (AsSet v) = v"
| "as_numbers (AsSequence v) = v"

definition AsPathSegment_len :: "AsPathSegment \<Rightarrow> usize" where
  "AsPathSegment_len seg = (case seg of AsSet v \<Rightarrow> length v | AsSequence v \<Rightarrow> length v)"

definition AsPathSegment_is_empty :: "AsPathSegment \<Rightarrow> bool" where
  "AsPathSegment_is_empty seg \<longleftrightarrow> AsPathSegment_len seg = 0"

datatype Community = Community (community_bits: u32)

definition NO_EXPORT :: Community where "NO_EXPORT = Community 0xFFFFFF01"

definition NO_ADVERTISE :: Community where "NO_ADVERTISE = Community 0xFFFFFF02"

definition NO_EXPORT_SUBCONFED :: Community where "NO_EXPORT_SUBCONFED = Community 0xFFFFFF03"

definition Community_asn :: "Community \<Rightarrow> u16" where
  "Community_asn c = ucast (drop_bit 16 (community_bits c))"

definition Community_value :: "Community \<Rightarrow> u16" where
  "Community_value c = ucast (community_bits c)"

definition Community_to_string :: "Community \<Rightarrow> string" where
  "Community_to_string c =
     (if c = NO_EXPORT then ''no-export''
      else if c = NO_ADVERTISE then ''no-advertise''
      else if c = NO_EXPORT_SUBCONFED then ''no-export-subconfed''
      else show_nat (unat (Community_asn c)) @ '':'' @ show_nat (unat (Community_value c)))"

record RawAttribute =
  raw_flags :: u8
  type_code :: u8
  raw_value :: "u8 list"

record PathAttributes =
  origin :: "Origin option"
  as_path :: "AsPathSegment list"
  next_hop :: "Ipv4Addr option"
  multi_exit_disc :: "u32 option"
  local_pref :: "u32 option"
  atomic_aggregate :: bool
  aggregator :: "(u16 \<times> Ipv4Addr) option"
  communities :: "Community list"
  originator_id :: "Ipv4Addr option"
  cluster_list :: "Ipv4Addr list"
  unknown :: "RawAttribute list"

definition PathAttributes_default :: PathAttributes where
  "PathAttributes_default =
     \<lparr>origin = None, as_path = [], next_hop = None, multi_exit_disc = None, local_pref = None,
      atomic_aggregate = False, aggregator = None, communities = [], originator_id = None,
      cluster_list = [], unknown = []\<rparr>"

definition FLAG_OPTIONAL :: u8 where "FLAG_OPTIONAL = 0x80"

definition FLAG_TRANSITIVE :: u8 where "FLAG_TRANSITIVE = 0x40"

definition FLAG_EXTENDED_LEN :: u8 where "FLAG_EXTENDED_LEN = 0x10"

section \<open>Operations\<close>

definition PathAttributes_is_empty :: "PathAttributes \<Rightarrow> bool" where
  "PathAttributes_is_empty a \<longleftrightarrow>
     origin a = None \<and> as_path a = [] \<and> next_hop a = None \<and> multi_exit_disc a = None \<and>
     local_pref a = None \<and> \<not> atomic_aggregate a \<and> aggregator a = None \<and> communities a = [] \<and>
     originator_id a = None \<and> cluster_list a = [] \<and> unknown a = []"

text \<open>The \<^verbatim>\<open>for _ in 0..seg_len\<close> loop that reads the AS numbers of a segment.\<close>

fun get_u32s :: "bytes_ops \<Rightarrow> nat \<Rightarrow> u32 list \<Rightarrow> u8 list \<Rightarrow> ('e, u32 list \<times> u8 list) outcome" where
  "get_u32s B 0 asns buf = Ok (asns, buf)"
| "get_u32s B (Suc n) asns buf =
     and_then (get_u32 B buf) (\<lambda>(x, buf). get_u32s B n (asns @ [x]) buf)"

text \<open>The \<^verbatim>\<open>while seg_buf.remaining() >= 2\<close> loop over the AS_PATH segments.\<close>

fun parse_segments ::
    "bytes_ops \<Rightarrow> nat \<Rightarrow> AsPathSegment list \<Rightarrow> u8 list \<Rightarrow> (AttrError, AsPathSegment list) outcome" where
  "parse_segments B 0 path seg_buf = NoFuel"
| "parse_segments B (Suc fuel) path seg_buf =
     (if remaining B seg_buf < 2 then Ok path
      else and_then (get_u8 B seg_buf) (\<lambda>(seg_type, seg_buf).
        and_then (get_u8 B seg_buf) (\<lambda>(n, seg_buf).
          let seg_len = unat n in
          if remaining B seg_buf < seg_len * 4 then Err AttrTooShort
          else and_then (get_u32s B seg_len [] seg_buf) (\<lambda>(asns, seg_buf).
            and_then (if seg_type = 1 then Ok (AsSet asns)
                      else if seg_type = 2 then Ok (AsSequence asns)
                      else Err (InvalidAsPathSegment seg_type)) (\<lambda>seg.
              parse_segments B fuel (path @ [seg]) seg_buf)))))"

text \<open>The \<^verbatim>\<open>while b.remaining() >= 4\<close> loops of COMMUNITIES and CLUSTER_LIST.\<close>

fun parse_u32_list :: "bytes_ops \<Rightarrow> nat \<Rightarrow> u32 list \<Rightarrow> u8 list \<Rightarrow> ('e, u32 list) outcome" where
  "parse_u32_list B 0 xs b = NoFuel"
| "parse_u32_list B (Suc fuel) xs b =
     (if remaining B b < 4 then Ok xs
      else and_then (get_u32 B b) (\<lambda>(x, b). parse_u32_list B fuel (xs @ [x]) b))"

text \<open>The \<^verbatim>\<open>match type_code\<close> of the parser, on the value of one attribute.\<close>

definition parse_attr_value ::
    "bytes_ops \<Rightarrow> u8 \<Rightarrow> u8 \<Rightarrow> u8 list \<Rightarrow> PathAttributes \<Rightarrow> (AttrError, PathAttributes) outcome" where
  "parse_attr_value B flags tc value attrs =
     (if tc = 1 then
        (case value of [] \<Rightarrow> Err AttrTooShort
         | v # _ \<Rightarrow> and_then (Origin_try_from v) (\<lambda>orig. Ok (attrs\<lparr>origin := Some orig\<rparr>)))
      else if tc = 2 then
        and_then (parse_segments B (Suc (length value)) (as_path attrs) value)
          (\<lambda>path. Ok (attrs\<lparr>as_path := path\<rparr>))
      else if tc = 3 then
        (if length value < 4 then Err AttrTooShort
         else and_then (get_u32 B value) (\<lambda>(x, b). Ok (attrs\<lparr>next_hop := Some x\<rparr>)))
      else if tc = 4 then
        (if length value < 4 then Err AttrTooShort
         else and_then (get_u32 B value) (\<lambda>(x, b). Ok (attrs\<lparr>multi_exit_disc := Some x\<rparr>)))
      else if tc = 5 then
        (if length value < 4 then Err AttrTooShort
         else and_then (get_u32 B value) (\<lambda>(x, b). Ok (attrs\<lparr>local_pref := Some x\<rparr>)))
      else if tc = 6 then Ok (attrs\<lparr>atomic_aggregate := True\<rparr>)
      else if tc = 7 then
        (if length value < 6 then Err AttrTooShort
         else and_then (get_u16 B value) (\<lambda>(asn, b).
           and_then (get_u32 B b) (\<lambda>(ip, b). Ok (attrs\<lparr>aggregator := Some (asn, ip)\<rparr>))))
      else if tc = 8 then
        and_then (parse_u32_list B (Suc (length value)) [] value)
          (\<lambda>xs. Ok (attrs\<lparr>communities := communities attrs @ map Community xs\<rparr>))
      else if tc = 9 then
        (if length value < 4 then Err AttrTooShort
         else and_then (get_u32 B value) (\<lambda>(x, b). Ok (attrs\<lparr>originator_id := Some x\<rparr>)))
      else if tc = 10 then
        and_then (parse_u32_list B (Suc (length value)) [] value)
          (\<lambda>xs. Ok (attrs\<lparr>cluster_list := cluster_list attrs @ xs\<rparr>))
      else
        Ok (attrs\<lparr>unknown := unknown attrs @
               [\<lparr>raw_flags = flags, type_code = tc, raw_value = value\<rparr>]\<rparr>))"

text \<open>The length field, of one or two octets by the extended-length flag.\<close>

definition parse_attr_len :: "bytes_ops \<Rightarrow> u8 \<Rightarrow> u8 list \<Rightarrow> (AttrError, usize \<times> u8 list) outcome" where
  "parse_attr_len B flags buf =
     (if flags AND FLAG_EXTENDED_LEN \<noteq> 0 then
        (if remaining B buf < 2 then Err AttrTooShort
         else and_then (get_u16 B buf) (\<lambda>(n, buf). Ok (unat n, buf)))
      else
        (if remaining B buf < 1 then Err AttrTooShort
         else and_then (get_u8 B buf) (\<lambda>(n, buf). Ok (unat n, buf))))"

fun parse_attrs ::
    "bytes_ops \<Rightarrow> nat \<Rightarrow> PathAttributes \<Rightarrow> u8 list \<Rightarrow> (AttrError, PathAttributes) outcome" where
  "parse_attrs B 0 attrs buf = NoFuel"
| "parse_attrs B (Suc fuel) attrs buf =
     (if remaining B buf < 3 then Ok attrs
      else and_then (get_u8 B buf) (\<lambda>(flags, buf).
        and_then (get_u8 B buf) (\<lambda>(tc, buf).
        and_then (parse_attr_len B flags buf) (\<lambda>(len, buf).
          if remaining B buf < len then Err AttrTooShort
          else and_then (copy_to_bytes B buf len) (\<lambda>(value, buf).
            and_then (parse_attr_value B flags tc value attrs) (\<lambda>attrs.
              parse_attrs B fuel attrs buf))))))"

declare parse_attrs.simps(2) [simp del] parse_segments.simps(2) [simp del]
  parse_u32_list.simps(2) [simp del]

definition PathAttributes_parse :: "bytes_ops \<Rightarrow> u8 list \<Rightarrow> (AttrError, PathAttributes) outcome" where
  "PathAttributes_parse B buf = parse_attrs B (Suc (remaining B buf)) PathAttributes_default buf"

definition write_attr :: "bytes_ops \<Rightarrow> u8 list \<Rightarrow> u8 \<Rightarrow> u8 \<Rightarrow> u8 list \<Rightarrow> u8 list" where
  "write_attr B buf flags tc value =
     (let len = length value;
          buf = (if 255 < len
                 then put_u16 B (put_u8 B (put_u8 B buf (flags OR FLAG_EXTENDED_LEN)) tc) (of_nat len)
                 else put_u8 B (put_u8 B (put_u8 B buf flags) tc) (of_nat len))
      in put_slice B buf value)"

definition write_segment :: "bytes_ops \<Rightarrow> u8 list \<Rightarrow> AsPathSegment \<Rightarrow> u8 list" where
  "write_segment B seg_buf seg =
     (let (seg_type, asns) = (case seg of AsSet v \<Rightarrow> (1, v) | AsSequence v \<Rightarrow> (2, v));
          seg_buf = put_u8 B seg_buf seg_type;
          seg_buf = put_u8 B seg_buf (of_nat (length asns))
      in foldl (put_u32 B) seg_buf asns)"

definition PathAttributes_serialize :: "bytes_ops \<Rightarrow> PathAttributes \<Rightarrow> u8 list" where
  "PathAttributes_serialize B a =
     (let buf = [];
          buf = (case origin a of None \<Rightarrow> buf
                 | Some orig \<Rightarrow> write_attr B buf FLAG_TRANSITIVE 1 [Origin_code orig]);
          buf = (if as_path a = [] then buf
                 else write_attr B buf FLAG_TRANSITIVE 2 (foldl (write_segment B) [] (as_path a)));
          buf = (case next_hop a of None \<Rightarrow> buf
                 | Some nh \<Rightarrow> write_attr B buf FLAG_TRANSITIVE 3 (to_be 4 nh));
          buf = (case multi_exit_disc a of None \<Rightarrow> buf
                 | Some med \<Rightarrow> write_attr B buf FLAG_OPTIONAL 4 (to_be 4 med));
          buf = (case local_pref a of None \<Rightarrow> buf
                 | Some lp \<Rightarrow> write_attr B buf FLAG_TRANSITIVE 5 (to_be 4 lp));
          buf = (if atomic_aggregate a then write_attr B buf FLAG_TRANSITIVE 6 [] else buf);
          buf = (case aggregator a of None \<Rightarrow> buf
                 | Some (asn, ip) \<Rightarrow>
                     write_attr B buf (FLAG_OPTIONAL OR FLAG_TRANSITIVE) 7
                       (put_u32 B (put_u16 B [] asn) ip));
          buf = (if communities a = [] then buf
                 else write_attr B buf (FLAG_OPTIONAL OR FLAG_TRANSITIVE) 8
                        (foldl (\<lambda>v c. put_u32 B v (community_bits c)) [] (communities a)));
          buf = (case originator_id a of None \<Rightarrow> buf
                 | Some oid \<Rightarrow> write_attr B buf FLAG_OPTIONAL 9 (to_be 4 oid));
          buf = (if cluster_list a = [] then buf
                 else write_attr B buf FLAG_OPTIONAL 10 (foldl (put_u32 B) [] (cluster_list a)))
      in foldl (\<lambda>buf r. write_attr B buf (raw_flags r) (type_code r) (raw_value r)) buf (unknown a))"

definition as_path_len :: "PathAttributes \<Rightarrow> usize" where
  "as_path_len a =
     sum_list (map (\<lambda>seg. case seg of AsSet _ \<Rightarrow> 1 | AsSequence v \<Rightarrow> length v) (as_path a))"

end
