(* ===== verification/Attr_Wire.thy ===== *)
theory Attr_Wire
  imports Attr
begin

text \<open>
  The wire format of path attributes: the parser of \<^verbatim>\<open>src/attr.rs\<close> always returns, its fuel is
  always enough, and it inverts the serializer on every attribute set that fits the format.
\<close>

section \<open>The encoded attribute\<close>

definition attr_bytes :: "u8 \<Rightarrow> u8 \<Rightarrow> u8 list \<Rightarrow> u8 list" where
  "attr_bytes flags tc v =
     (if 255 < length v then [flags OR FLAG_EXTENDED_LEN, tc] @ to_be 2 (of_nat (length v) :: u16)
      else [flags, tc, of_nat (length v)]) @ v"

definition segment_bytes :: "AsPathSegment \<Rightarrow> u8 list" where
  "segment_bytes seg =
     (case seg of AsSet _ \<Rightarrow> 1 | AsSequence _ \<Rightarrow> 2) # of_nat (length (as_numbers seg)) #
       concat (map (to_be 4) (as_numbers seg))"

lemma length_attr_bytes: "3 \<le> length (attr_bytes flags tc v)"
  by (simp add: attr_bytes_def)

lemma length_concat_to_be: "length (concat (map (to_be n) xs)) = n * length xs"
  by (induction xs) simp_all

lemma ext_flag_set: "(flags OR FLAG_EXTENDED_LEN) AND FLAG_EXTENDED_LEN \<noteq> 0"
  by (simp add: FLAG_EXTENDED_LEN_def word_ao_dist)

lemma Origin_try_from_code [simp]: "Origin_try_from (Origin_code x) = Ok x"
  by (cases x) (simp_all add: Origin_try_from_def)

lemma returns_Origin_try_from [simp]: "returns (Origin_try_from v)"
  by (simp add: Origin_try_from_def)

context bytes_crate
begin

lemma write_attr_eq: "write_attr B buf flags tc v = buf @ attr_bytes flags tc v"
  by (simp add: write_attr_def attr_bytes_def Let_def)

lemma foldl_put_u32: "foldl (put_u32 B) buf xs = buf @ concat (map (to_be 4) xs)"
  by (induction xs arbitrary: buf) simp_all

lemma write_segment_eq: "write_segment B buf seg = buf @ segment_bytes seg"
  by (cases seg) (simp_all add: write_segment_def segment_bytes_def foldl_put_u32)

lemma foldl_write_segment: "foldl (write_segment B) buf segs = buf @ concat (map segment_bytes segs)"
  by (induction segs arbitrary: buf) (simp_all add: write_segment_eq)

lemma foldl_put_community:
  "foldl (\<lambda>v c. put_u32 B v (community_bits c)) buf cs =
     buf @ concat (map (to_be 4) (map community_bits cs))"
  by (induction cs arbitrary: buf) simp_all

section \<open>The loops return\<close>

lemma get_u32s_enough:
  "n * 4 \<le> length buf \<Longrightarrow> \<exists>xs. get_u32s B n acc buf = Ok (xs, drop (n * 4) buf)"
proof (induction n arbitrary: acc buf)
  case 0
  then show ?case by simp
next
  case (Suc n)
  from Suc.prems have "n * 4 \<le> length (drop 4 buf)" by simp
  from Suc.IH [OF this, of "acc @ [from_be (take 4 buf)]"] Suc.prems show ?case
    by (simp add: get_u32_enough add.commute)
qed

lemma returns_parse_segments: "length buf < fuel \<Longrightarrow> returns (parse_segments B fuel path buf)"
proof (induction fuel arbitrary: path buf)
  case 0
  then show ?case by simp
next
  case (Suc fuel)
  show ?case
  proof (cases "length buf < 2")
    case True
    then show ?thesis by (simp add: parse_segments.simps(2))
  next
    case False
    then obtain t n r where buf: "buf = t # n # r"
      by (cases buf; cases "tl buf") auto
    show ?thesis
    proof (cases "length r < unat n * 4")
      case True
      then show ?thesis by (simp add: buf parse_segments.simps(2))
    next
      case False
      then obtain xs where
        xs: "(get_u32s B (unat n) [] r :: (AttrError, _) outcome) = Ok (xs, drop (unat n * 4) r)"
        using get_u32s_enough [of "unat n" r "[]"] by auto
      have "length (drop (unat n * 4) r) < fuel" using Suc.prems by (simp add: buf)
      then have "returns (parse_segments B fuel p (drop (unat n * 4) r))" for p
        by (rule Suc.IH)
      with False show ?thesis by (simp add: buf xs parse_segments.simps(2))
    qed
  qed
qed

lemma parse_u32_list_returns:
  "length buf < fuel \<Longrightarrow> \<exists>ys. parse_u32_list B fuel xs buf = Ok ys"
proof (induction fuel arbitrary: xs buf)
  case 0
  then show ?case by simp
next
  case (Suc fuel)
  then show ?case
    using Suc.IH [of "drop 4 buf" "xs @ [from_be (take 4 buf)]"]
    by (simp add: get_u32_enough parse_u32_list.simps(2))
qed

lemma returns_parse_attr_value: "returns (parse_attr_value B flags tc v attrs)"
proof -
  have "returns (parse_segments B (Suc (length v)) path v)" for path
    by (rule returns_parse_segments) simp
  moreover obtain ys where "(parse_u32_list B (Suc (length v)) [] v :: (AttrError, _) outcome) = Ok ys"
    using parse_u32_list_returns [of v "Suc (length v)" "[]"] by auto
  ultimately show ?thesis
    unfolding parse_attr_value_def
    by (simp add: get_u16_enough get_u32_enough returns_and_then split: list.split)
qed

text \<open>
  One round of the attribute loop: it stops, fails, or goes on with a strictly shorter buffer.
\<close>

lemma parse_attrs_round:
  assumes "3 \<le> length buf"
  obtains e where "\<And>fuel. parse_attrs B (Suc fuel) attrs buf = Err e"
  | attrs' buf' where "length buf' < length buf"
      and "\<And>fuel. parse_attrs B (Suc fuel) attrs buf = parse_attrs B fuel attrs' buf'"
proof -
  from assms obtain flags tc x xs where buf': "buf = flags # tc # x # xs"
    by (auto simp: numeral_3_eq_3 Suc_le_length_iff)
  define r where "r = x # xs"
  with buf' have buf: "buf = flags # tc # r" and r: "r \<noteq> []" by simp_all
  have step: "parse_attrs B (Suc fuel) attrs buf =
      and_then (parse_attr_len B flags r) (\<lambda>(len, buf).
        if remaining B buf < len then Err AttrTooShort
        else and_then (copy_to_bytes B buf len) (\<lambda>(value, buf).
          and_then (parse_attr_value B flags tc value attrs) (\<lambda>attrs.
            parse_attrs B fuel attrs buf)))" for fuel
    using assms r by (simp add: parse_attrs.simps(2) buf)
  have len: "(\<exists>n r'. parse_attr_len B flags r = Ok (n, r') \<and> length r' < length buf) \<or>
      parse_attr_len B flags r = Err AttrTooShort"
    using r by (cases r; cases "tl r") (auto simp: parse_attr_len_def buf)
  show ?thesis
  proof (cases "parse_attr_len B flags r")
    case (Ok p)
    obtain n r' where p: "p = (n, r')" by fastforce
    from len Ok p have r': "length r' < length buf" by simp
    show ?thesis
    proof (cases "n \<le> length r'")
      case False
      then show ?thesis by (intro that(1) [of AttrTooShort]) (simp add: step Ok p)
    next
      case True
      note go = step [unfolded Ok p, simplified, unfolded copy_to_bytes_enough [OF True], simplified]
      show ?thesis
      proof (cases "parse_attr_value B flags tc (take n r') attrs")
        case (Ok attrs')
        show ?thesis
          by (rule that(2) [of "drop n r'" attrs']) (use r' True go Ok in \<open>simp_all add: not_less\<close>)
      next
        case (Err e)
        then show ?thesis by (intro that(1) [of e]) (use True go in simp)
      qed (use returns_parse_attr_value [of flags tc "take n r'" attrs] in simp_all)
    qed
  next
    case (Err e)
    then show ?thesis by (intro that(1) [of e]) (simp add: step)
  qed (use len in simp_all)
qed

lemma returns_parse_attrs: "length buf < fuel \<Longrightarrow> returns (parse_attrs B fuel attrs buf)"
proof (induction fuel arbitrary: attrs buf)
  case 0
  then show ?case by simp
next
  case (Suc fuel)
  show ?case
  proof (cases "length buf < 3")
    case True
    then show ?thesis by (simp add: parse_attrs.simps(2))
  next
    case False
    then have "3 \<le> length buf" by simp
    then show ?thesis
      by (rule parse_attrs_round [of buf attrs]) (use Suc in auto)
  qed
qed

text \<open>More fuel does not change the result.\<close>

lemma parse_attrs_fuel:
  "length buf < n \<Longrightarrow> length buf < m \<Longrightarrow> parse_attrs B n attrs buf = parse_attrs B m attrs buf"
proof (induction n arbitrary: m attrs buf)
  case 0
  then show ?case by simp
next
  case (Suc n)
  from Suc.prems obtain k where m: "m = Suc k" by (cases m) auto
  show ?case
  proof (cases "length buf < 3")
    case True
    then show ?thesis by (simp add: m parse_attrs.simps(2))
  next
    case False
    then have "3 \<le> length buf" by simp
    then show ?thesis
    proof (rule parse_attrs_round [of buf attrs])
      fix attrs' buf'
      assume shorter: "length buf' < length buf"
        and go: "\<And>fuel. parse_attrs B (Suc fuel) attrs buf = parse_attrs B fuel attrs' buf'"
      have "parse_attrs B n attrs' buf' = parse_attrs B k attrs' buf'"
        using shorter Suc.prems by (intro Suc.IH) (simp_all add: m)
      then show ?thesis by (simp add: m go)
    qed (simp add: m)
  qed
qed

section \<open>The parser on an encoded attribute\<close>

lemma parse_attrs_chunk:
  assumes small: "length v < 65536" and flag: "length v \<le> 255 \<Longrightarrow> flags AND FLAG_EXTENDED_LEN = 0"
  shows "parse_attrs B (Suc fuel) attrs (attr_bytes flags tc v @ rest) =
    and_then (parse_attr_value B (if 255 < length v then flags OR FLAG_EXTENDED_LEN else flags) tc v attrs)
      (\<lambda>attrs. parse_attrs B fuel attrs rest)"
proof (cases "255 < length v")
  case True
  have len: "parse_attr_len B (flags OR FLAG_EXTENDED_LEN) (to_be 2 (of_nat (length v) :: u16) @ v @ rest) =
      Ok (length v, v @ rest)"
    using small ext_flag_set by (simp add: parse_attr_len_def)
  with True show ?thesis
    by (simp add: parse_attrs.simps(2) attr_bytes_def)
next
  case False
  then show ?thesis
    using flag by (simp add: parse_attrs.simps(2) attr_bytes_def parse_attr_len_def)
qed

text \<open>The attribute loop run to the end, its fuel hidden.\<close>

lemma parse_attrs_chunk_run:
  assumes "length v < 65536" and "length v \<le> 255 \<Longrightarrow> flags AND FLAG_EXTENDED_LEN = 0"
  shows "parse_attrs B (Suc (length (attr_bytes flags tc v @ rest))) attrs (attr_bytes flags tc v @ rest) =
    and_then (parse_attr_value B (if 255 < length v then flags OR FLAG_EXTENDED_LEN else flags) tc v attrs)
      (\<lambda>attrs. parse_attrs B (Suc (length rest)) attrs rest)"
proof -
  have "parse_attrs B (length (attr_bytes flags tc v @ rest)) a rest =
        parse_attrs B (Suc (length rest)) a rest" for a
    using length_attr_bytes [of flags tc v] by (intro parse_attrs_fuel) auto
  then show ?thesis
    using parse_attrs_chunk [OF assms] by simp
qed

end

text \<open>
  An attribute set as the list of its encoded attributes, in the order the serializer writes them;
  each entry is flags, type code and value.
\<close>

type_synonym chunk = "u8 \<times> u8 \<times> u8 list"

definition attr_chunks :: "PathAttributes \<Rightarrow> chunk list list" where
  "attr_chunks a =
     [case origin a of None \<Rightarrow> [] | Some x \<Rightarrow> [(FLAG_TRANSITIVE, 1, [Origin_code x])],
      if as_path a = [] then [] else [(FLAG_TRANSITIVE, 2, concat (map segment_bytes (as_path a)))],
      case next_hop a of None \<Rightarrow> [] | Some x \<Rightarrow> [(FLAG_TRANSITIVE, 3, to_be 4 x)],
      case multi_exit_disc a of None \<Rightarrow> [] | Some x \<Rightarrow> [(FLAG_OPTIONAL, 4, to_be 4 x)],
      case local_pref a of None \<Rightarrow> [] | Some x \<Rightarrow> [(FLAG_TRANSITIVE, 5, to_be 4 x)],
      if atomic_aggregate a then [(FLAG_TRANSITIVE, 6, [])] else [],
      case aggregator a of None \<Rightarrow> []
        | Some (x, y) \<Rightarrow> [(FLAG_OPTIONAL OR FLAG_TRANSITIVE, 7, to_be 2 x @ to_be 4 y)],
      if communities a = [] then []
        else [(FLAG_OPTIONAL OR FLAG_TRANSITIVE, 8,
               concat (map (to_be 4) (map community_bits (communities a))))],
      case originator_id a of None \<Rightarrow> [] | Some x \<Rightarrow> [(FLAG_OPTIONAL, 9, to_be 4 x)],
      if cluster_list a = [] then []
        else [(FLAG_OPTIONAL, 10, concat (map (to_be 4) (cluster_list a)))],
      map (\<lambda>r. (raw_flags r, type_code r, raw_value r)) (unknown a)]"

definition chunk_bytes :: "chunk \<Rightarrow> u8 list" where
  "chunk_bytes c = (case c of (flags, tc, v) \<Rightarrow> attr_bytes flags tc v)"

text \<open>The value fits a 16-bit length, and the extended-length flag is set only on a long value.\<close>

definition chunk_ok :: "chunk \<Rightarrow> bool" where
  "chunk_ok c = (case c of (flags, tc, v) \<Rightarrow>
     length v < 65536 \<and> (length v \<le> 255 \<longrightarrow> flags AND FLAG_EXTENDED_LEN = 0))"

fun apply_chunks ::
    "bytes_ops \<Rightarrow> chunk list \<Rightarrow> PathAttributes \<Rightarrow> (AttrError, PathAttributes) outcome" where
  "apply_chunks B [] a = Ok a"
| "apply_chunks B ((flags, tc, v) # cs) a =
     and_then (parse_attr_value B (if 255 < length v then flags OR FLAG_EXTENDED_LEN else flags) tc v a)
       (apply_chunks B cs)"

lemma apply_chunks_append:
  "apply_chunks B (xs @ ys) a = and_then (apply_chunks B xs a) (apply_chunks B ys)"
  by (induction xs arbitrary: a) (auto simp: and_then_assoc intro!: and_then_cong)

text \<open>An optional write appends an optional chunk.\<close>

lemma opt_write:
  "(case x of None \<Rightarrow> buf | Some y \<Rightarrow> buf @ chunk_bytes (c y)) =
     buf @ concat (map chunk_bytes (case x of None \<Rightarrow> [] | Some y \<Rightarrow> [c y]))"
  by (cases x) simp_all

lemma if_write:
  "(if p then buf else buf @ chunk_bytes c) = buf @ concat (map chunk_bytes (if p then [] else [c]))"
  "(if p then buf @ chunk_bytes c else buf) = buf @ concat (map chunk_bytes (if p then [c] else []))"
  by simp_all

context bytes_crate
begin

lemma write_attr_chunk: "write_attr B buf flags tc v = buf @ chunk_bytes (flags, tc, v)"
  by (simp add: write_attr_eq chunk_bytes_def)

lemma write_aggregator:
  "(case x of None \<Rightarrow> buf
    | Some (asn, ip) \<Rightarrow> write_attr B buf f 7 (put_u32 B (put_u16 B [] asn) ip)) =
   buf @ concat (map chunk_bytes (case x of None \<Rightarrow> []
    | Some (asn, ip) \<Rightarrow> [(f, 7, to_be 2 asn @ to_be 4 ip)]))"
  by (cases x) (auto simp: write_attr_chunk)

lemma foldl_write_unknown:
  "foldl (\<lambda>buf r. write_attr B buf (raw_flags r) (type_code r) (raw_value r)) buf rs =
     buf @ concat (map chunk_bytes (map (\<lambda>r. (raw_flags r, type_code r, raw_value r)) rs))"
  by (induction rs arbitrary: buf) (simp_all add: write_attr_chunk)

lemma PathAttributes_serialize_eq:
  "PathAttributes_serialize B a = concat (map chunk_bytes (concat (attr_chunks a)))"
  unfolding PathAttributes_serialize_def Let_def write_aggregator foldl_write_unknown
    foldl_put_community foldl_write_segment foldl_put_u32
  unfolding write_attr_chunk opt_write if_write attr_chunks_def
  by (simp only: concat.simps map_append concat_append append_assoc append_Nil append_Nil2)

lemma parse_attrs_chunks:
  "\<forall>c \<in> set cs. chunk_ok c \<Longrightarrow>
   parse_attrs B (Suc (length (concat (map chunk_bytes cs)))) a (concat (map chunk_bytes cs)) =
   apply_chunks B cs a"
proof (induction cs arbitrary: a)
  case Nil
  then show ?case by (simp add: parse_attrs.simps(2))
next
  case (Cons c cs)
  obtain flags tc v where c: "c = (flags, tc, v)" by (cases c)
  from Cons.prems have "length v < 65536" "length v \<le> 255 \<Longrightarrow> flags AND FLAG_EXTENDED_LEN = 0"
    by (simp_all add: c chunk_ok_def)
  from parse_attrs_chunk_run [OF this] Cons show ?case
    by (simp add: c chunk_bytes_def)
qed

section \<open>The parser inverts the serializer\<close>

lemma get_u32s_concat:
  "get_u32s B (length xs) acc (concat (map (to_be 4) xs) @ rest) = Ok (acc @ xs, rest)"
  by (induction xs arbitrary: acc) simp_all

lemma parse_u32_list_concat:
  "length xs < fuel \<Longrightarrow> parse_u32_list B fuel acc (concat (map (to_be 4) xs)) = Ok (acc @ xs)"
proof (induction xs arbitrary: fuel acc)
  case Nil
  then show ?case by (cases fuel) (simp_all add: parse_u32_list.simps(2))
next
  case (Cons x xs)
  then show ?case by (cases fuel) (simp_all add: parse_u32_list.simps(2))
qed

lemma parse_segments_concat:
  "length segs < fuel \<Longrightarrow> \<forall>seg \<in> set segs. length (as_numbers seg) < 256 \<Longrightarrow>
   parse_segments B fuel path (concat (map segment_bytes segs)) = Ok (path @ segs)"
proof (induction segs arbitrary: fuel path)
  case Nil
  then show ?case by (cases fuel) (simp_all add: parse_segments.simps(2))
next
  case (Cons seg segs)
  then obtain n where fuel: "fuel = Suc n" by (cases fuel) auto
  have len: "(length (as_numbers seg)) * 4 \<le> length (concat (map (to_be 4) (as_numbers seg)) @ r)" for r
    by (simp add: length_concat_to_be)
  show ?case
    using Cons len by (cases seg) (simp_all add: fuel parse_segments.simps(2) segment_bytes_def
      get_u32s_concat length_concat_to_be Let_def)
qed

end

lemma length_segments: "length segs \<le> length (concat (map segment_bytes segs))"
  by (induction segs) (simp_all add: segment_bytes_def)

lemma bit_FLAG_EXTENDED_LEN: "bit FLAG_EXTENDED_LEN n \<longleftrightarrow> n = 4"
proof -
  have "FLAG_EXTENDED_LEN = push_bit 4 1" by (simp add: FLAG_EXTENDED_LEN_def)
  then have "bit FLAG_EXTENDED_LEN n \<longleftrightarrow> bit (push_bit 4 (1 :: u8)) n" by simp
  also have "\<dots> \<longleftrightarrow> n = 4" by (subst bit_push_bit_iff) (auto simp: bit_1_iff)
  finally show ?thesis .
qed

lemma ext_flag_idem:
  assumes "flags AND FLAG_EXTENDED_LEN \<noteq> 0"
  shows "flags OR FLAG_EXTENDED_LEN = flags"
proof -
  have "bit flags 4"
  proof (rule ccontr)
    assume "\<not> bit flags 4"
    then have "flags AND FLAG_EXTENDED_LEN = 0"
      by (intro bit_word_eqI) (auto simp: bit_FLAG_EXTENDED_LEN bit_simps)
    with assms show False by simp
  qed
  then show ?thesis by (intro bit_word_eqI) (auto simp: bit_FLAG_EXTENDED_LEN bit_simps)
qed

text \<open>
  The attribute sets the wire format can carry: AS_PATH segments of at most 255 AS numbers, lists
  that fit a 16-bit length, and unknown attributes of an unassigned type whose extended-length flag
  agrees with their length.
\<close>

definition raw_ok :: "RawAttribute \<Rightarrow> bool" where
  "raw_ok r \<longleftrightarrow> (type_code r = 0 \<or> 10 < unat (type_code r)) \<and> length (raw_value r) < 65536 \<and>
     (raw_flags r AND FLAG_EXTENDED_LEN \<noteq> 0 \<longleftrightarrow> 255 < length (raw_value r))"

lemma raw_ok_unassigned: "raw_ok r \<Longrightarrow> type_code r \<notin> {1, 2, 3, 4, 5, 6, 7, 8, 9, 10}"
  by (auto simp: raw_ok_def)

definition attrs_ok :: "PathAttributes \<Rightarrow> bool" where
  "attrs_ok a \<longleftrightarrow>
     (\<forall>seg \<in> set (as_path a). length (as_numbers seg) < 256) \<and>
     length (concat (map segment_bytes (as_path a))) < 65536 \<and>
     length (communities a) < 16384 \<and> length (cluster_list a) < 16384 \<and>
     (\<forall>r \<in> set (unknown a). raw_ok r)"

lemma attr_chunks_ok:
  assumes "attrs_ok a"
  shows "\<forall>c \<in> set (concat (attr_chunks a)). chunk_ok c"
proof -
  have "\<forall>cs \<in> set (attr_chunks a). \<forall>c \<in> set cs. chunk_ok c"
    unfolding attr_chunks_def
    using assms
    by (auto simp: attrs_ok_def raw_ok_def chunk_ok_def length_concat_to_be FLAG_OPTIONAL_def
        FLAG_TRANSITIVE_def FLAG_EXTENDED_LEN_def simp del: map_map split: option.split)
  then show ?thesis by auto
qed

context bytes_crate
begin

lemma parse_value_as_path:
  "attrs_ok a \<Longrightarrow> parse_attr_value B flags 2 (concat (map segment_bytes (as_path a))) b =
     Ok (b\<lparr>as_path := as_path b @ as_path a\<rparr>)"
  using length_segments [of "as_path a"]
  by (simp add: parse_attr_value_def attrs_ok_def parse_segments_concat)

lemma parse_value_u32_list:
  "parse_attr_value B flags 8 (concat (map (to_be 4) xs)) b =
     Ok (b\<lparr>communities := communities b @ map Community xs\<rparr>)"
  "parse_attr_value B flags 10 (concat (map (to_be 4) xs)) b =
     Ok (b\<lparr>cluster_list := cluster_list b @ xs\<rparr>)"
  by (simp_all add: parse_attr_value_def parse_u32_list_concat length_concat_to_be)

lemma parse_value_unknown:
  "raw_ok r \<Longrightarrow> parse_attr_value B
      (if 255 < length (raw_value r) then raw_flags r OR FLAG_EXTENDED_LEN else raw_flags r)
      (type_code r) (raw_value r) b = Ok (b\<lparr>unknown := unknown b @ [r]\<rparr>)"
  using raw_ok_unassigned [of r] by (auto simp: parse_attr_value_def raw_ok_def ext_flag_idem)

lemma apply_unknown:
  "\<forall>r \<in> set rs. raw_ok r \<Longrightarrow>
   apply_chunks B (map (\<lambda>r. (raw_flags r, type_code r, raw_value r)) rs) b =
   Ok (b\<lparr>unknown := unknown b @ rs\<rparr>)"
  by (induction rs arbitrary: b) (simp_all add: parse_value_unknown)

text \<open>Each group of encoded attributes restores its field.\<close>

lemma apply_scalar_chunks:
  "origin b = None \<Longrightarrow> apply_chunks B (case origin a of None \<Rightarrow> []
     | Some x \<Rightarrow> [(f, 1, [Origin_code x])]) b = Ok (b\<lparr>origin := origin a\<rparr>)"
  "next_hop b = None \<Longrightarrow> apply_chunks B (case next_hop a of None \<Rightarrow> []
     | Some x \<Rightarrow> [(f, 3, to_be 4 x)]) b = Ok (b\<lparr>next_hop := next_hop a\<rparr>)"
  "multi_exit_disc b = None \<Longrightarrow> apply_chunks B (case multi_exit_disc a of None \<Rightarrow> []
     | Some x \<Rightarrow> [(f, 4, to_be 4 x)]) b = Ok (b\<lparr>multi_exit_disc := multi_exit_disc a\<rparr>)"
  "local_pref b = None \<Longrightarrow> apply_chunks B (case local_pref a of None \<Rightarrow> []
     | Some x \<Rightarrow> [(f, 5, to_be 4 x)]) b = Ok (b\<lparr>local_pref := local_pref a\<rparr>)"
  "\<not> atomic_aggregate b \<Longrightarrow> apply_chunks B (if atomic_aggregate a then [(f, 6, [])] else []) b =
     Ok (b\<lparr>atomic_aggregate := atomic_aggregate a\<rparr>)"
  "aggregator b = None \<Longrightarrow> apply_chunks B (case aggregator a of None \<Rightarrow> []
     | Some (x, y) \<Rightarrow> [(f, 7, to_be 2 x @ to_be 4 y)]) b = Ok (b\<lparr>aggregator := aggregator a\<rparr>)"
  "originator_id b = None \<Longrightarrow> apply_chunks B (case originator_id a of None \<Rightarrow> []
     | Some x \<Rightarrow> [(f, 9, to_be 4 x)]) b = Ok (b\<lparr>originator_id := originator_id a\<rparr>)"
  by (cases b; simp add: parse_attr_value_def split: option.split)+

lemma apply_list_chunks:
  "attrs_ok a \<Longrightarrow> apply_chunks B (if as_path a = [] then []
     else [(f, 2, concat (map segment_bytes (as_path a)))]) b = Ok (b\<lparr>as_path := as_path b @ as_path a\<rparr>)"
  "apply_chunks B (if communities a = [] then []
     else [(f, 8, concat (map (to_be 4) (map community_bits (communities a))))]) b =
     Ok (b\<lparr>communities := communities b @ communities a\<rparr>)"
  "apply_chunks B (if cluster_list a = [] then []
     else [(f, 10, concat (map (to_be 4) (cluster_list a)))]) b =
     Ok (b\<lparr>cluster_list := cluster_list b @ cluster_list a\<rparr>)"
proof -
  have "map Community (map community_bits (communities a)) = communities a"
    by (simp add: o_def)
  then show "apply_chunks B (if communities a = [] then []
     else [(f, 8, concat (map (to_be 4) (map community_bits (communities a))))]) b =
     Ok (b\<lparr>communities := communities b @ communities a\<rparr>)"
    by (simp add: parse_value_u32_list del: map_map)
qed (simp_all add: parse_value_as_path parse_value_u32_list)

lemma apply_attr_chunks:
  assumes "attrs_ok a"
  shows "apply_chunks B (concat (attr_chunks a)) PathAttributes_default = Ok a"
proof -
  have unk: "apply_chunks B (map (\<lambda>r. (raw_flags r, type_code r, raw_value r)) (unknown a)) b =
      Ok (b\<lparr>unknown := unknown b @ unknown a\<rparr>)" for b
    using assms by (intro apply_unknown) (simp add: attrs_ok_def)
  show ?thesis
    unfolding attr_chunks_def concat.simps append_Nil2 apply_chunks_append PathAttributes_default_def
    by (simp only: apply_scalar_chunks apply_list_chunks(1) [OF assms] apply_list_chunks(2,3) unk
        and_then.simps PathAttributes.select_convs PathAttributes.update_convs append_Nil not_False_eq_True)
       simp
qed

lemma PathAttributes_roundtrip:
  assumes "attrs_ok a"
  shows "PathAttributes_parse B (PathAttributes_serialize B a) = Ok a"
  unfolding PathAttributes_parse_def PathAttributes_serialize_eq remaining_doc
  using parse_attrs_chunks [OF attr_chunks_ok [OF assms]] apply_attr_chunks [OF assms] by simp

lemma unknown_short_extended:
  "PathAttributes_parse B [0xD0, 99, 0, 1, 7] =
     Ok (PathAttributes_default\<lparr>unknown := [\<lparr>raw_flags = 0xD0, type_code = 99, raw_value = [7]\<rparr>]\<rparr>)"
  "PathAttributes_serialize B
     (PathAttributes_default\<lparr>unknown := [\<lparr>raw_flags = 0xD0, type_code = 99, raw_value = [7]\<rparr>]\<rparr>) =
     [0xD0, 99, 1, 7]"
  "PathAttributes_parse B [0xD0, 99, 1, 7] = Err AttrTooShort"
  by (simp_all add: PathAttributes_parse_def parse_attrs.simps(2) parse_attr_len_def
      parse_attr_value_def PathAttributes_serialize_def PathAttributes_default_def write_attr_def
      FLAG_EXTENDED_LEN_def from_be_def)

lemma returns_PathAttributes_parse: "returns (PathAttributes_parse B buf)"
  unfolding PathAttributes_parse_def by (rule returns_parse_attrs) simp

end

section \<open>Properties\<close>

text \<open>C17: serializing and parsing returns every attribute set that fits the wire format unchanged:
  all ten known attributes, AS_PATH segments in order, and unknown attributes in order.\<close>

theorem attrs_roundtrip:
  assumes "bytes_crate B" and "attrs_ok a"
  shows "PathAttributes_parse B (PathAttributes_serialize B a) = Ok a"
  by (rule bytes_crate.PathAttributes_roundtrip [OF assms])

definition sample_attrs :: PathAttributes where
  "sample_attrs = PathAttributes_default
     \<lparr>origin := Some Egp, as_path := [AsSequence [65000, 65001], AsSet [65002, 65003]],
      next_hop := Some 0x0A000001, multi_exit_disc := Some 50, local_pref := Some 100,
      atomic_aggregate := True, communities := [NO_EXPORT],
      unknown := [\<lparr>raw_flags = 0xC0, type_code = 99, raw_value = [1, 2, 3]\<rparr>]\<rparr>"

theorem attrs_roundtrip_witness:
  "PathAttributes_parse documented_bytes (PathAttributes_serialize documented_bytes sample_attrs) =
     Ok sample_attrs"
  by (rule attrs_roundtrip [OF documented_bytes_ok])
     (simp add: sample_attrs_def PathAttributes_default_def attrs_ok_def raw_ok_def segment_bytes_def
        FLAG_EXTENDED_LEN_def)

text \<open>The pass-through of an unknown attribute is not faithful when the sender used the
  extended-length form for a short value, which RFC 4271 allows: the parser keeps the flag, the
  serializer writes the flag back with a one-octet length, and the result no longer parses.\<close>

lemma unknown_passthrough_broken:
  assumes "bytes_crate B"
  shows "\<exists>a. PathAttributes_parse B [0xD0, 99, 0, 1, 7] = Ok a \<and>
             PathAttributes_serialize B a = [0xD0, 99, 1, 7] \<and>
             PathAttributes_parse B (PathAttributes_serialize B a) = Err AttrTooShort"
  using bytes_crate.unknown_short_extended [OF assms] by simp

end
