(* ===== verification/Update.thy ===== *)
theory Update
  imports Message Attr_Wire
begin

text \<open>
  The UPDATE message, \<^verbatim>\<open>src/message/update.rs\<close>: NLRI prefixes and the body of withdrawn routes, path
  attributes and announced routes.  The loops over prefixes carry fuel, like those of the
  attribute parser.
\<close>

section \<open>Prefixes\<close>

record Prefix =
  prefix_len :: u8
  address :: Ipv4Addr

definition Prefix_new :: "Ipv4Addr \<Rightarrow> u8 \<Rightarrow> Prefix" where
  "Prefix_new addr len = \<lparr>prefix_len = len, address = addr\<rparr>"

text \<open>\<^verbatim>\<open>usize::div_ceil(8)\<close>.\<close>

definition div_ceil8 :: "usize \<Rightarrow> usize" where
  "div_ceil8 n = (n + 7) div 8"

definition encoded_len :: "Prefix \<Rightarrow> usize" where
  "encoded_len p = div_ceil8 (unat (prefix_len p))"

text \<open>
  \<^verbatim>\<open>iter_mut().take(byte_len).for_each(|b| *b = buf.get_u8())\<close> over an array of \<open>n\<close> octets: at most
  \<open>n\<close> octets are read, the others keep their initial zero.
\<close>

fun get_octets :: "bytes_ops \<Rightarrow> nat \<Rightarrow> u8 list \<Rightarrow> u8 list \<Rightarrow> ('e, u8 list \<times> u8 list) outcome" where
  "get_octets B 0 xs buf = Ok (xs, buf)"
| "get_octets B (Suc n) xs buf = and_then (get_u8 B buf) (\<lambda>(x, buf). get_octets B n (xs @ [x]) buf)"

definition fill_octets ::
    "bytes_ops \<Rightarrow> nat \<Rightarrow> usize \<Rightarrow> u8 list \<Rightarrow> ('e, u8 list \<times> u8 list) outcome" where
  "fill_octets B n byte_len buf =
     and_then (get_octets B (min byte_len n) [] buf)
       (\<lambda>(xs, buf). Ok (xs @ replicate (n - length xs) 0, buf))"

definition Prefix_parse :: "bytes_ops \<Rightarrow> u8 list \<Rightarrow> (MessageError, Prefix \<times> u8 list) outcome" where
  "Prefix_parse B buf =
     (if remaining B buf < 1 then Err (TooShort 1 0)
      else and_then (get_u8 B buf) (\<lambda>(plen, buf).
        let byte_len = div_ceil8 (unat plen) in
        if remaining B buf < byte_len then Err (TooShort byte_len (remaining B buf))
        else and_then (fill_octets B 4 byte_len buf) (\<lambda>(addr_bytes, buf).
          Ok (\<lparr>prefix_len = plen, address = from_be addr_bytes\<rparr>, buf))))"

text \<open>The slice \<^verbatim>\<open>bytes[..byte_len]\<close> panics when it is longer than the four octets.\<close>

definition slice_to :: "u8 list \<Rightarrow> usize \<Rightarrow> ('e, u8 list) outcome" where
  "slice_to bs n = (if length bs < n then Panic else Ok (take n bs))"

definition Prefix_serialize :: "bytes_ops \<Rightarrow> Prefix \<Rightarrow> u8 list \<Rightarrow> ('e, u8 list) outcome" where
  "Prefix_serialize B p buf =
     (let buf = put_u8 B buf (prefix_len p) in
      and_then (slice_to (to_be 4 (address p)) (encoded_len p)) (\<lambda>bs. Ok (put_slice B buf bs)))"

section \<open>The message\<close>

record UpdateMessage =
  withdrawn_routes :: "Prefix list"
  path_attributes :: PathAttributes
  nlri :: "Prefix list"

definition UpdateMessage_new :: UpdateMessage where
  "UpdateMessage_new = \<lparr>withdrawn_routes = [], path_attributes = PathAttributes_default, nlri = []\<rparr>"

text \<open>The \<^verbatim>\<open>while buf.remaining() > 0\<close> loop over prefixes.\<close>

fun parse_prefixes ::
    "bytes_ops \<Rightarrow> nat \<Rightarrow> Prefix list \<Rightarrow> u8 list \<Rightarrow> (MessageError, Prefix list) outcome" where
  "parse_prefixes B 0 ps buf = NoFuel"
| "parse_prefixes B (Suc fuel) ps buf =
     (if remaining B buf = 0 then Ok ps
      else and_then (Prefix_parse B buf) (\<lambda>(p, buf). parse_prefixes B fuel (ps @ [p]) buf))"

declare parse_prefixes.simps(2) [simp del]

definition UpdateMessage_parse :: "bytes_ops \<Rightarrow> u8 list \<Rightarrow> (MessageError, UpdateMessage) outcome" where
  "UpdateMessage_parse B body =
     (if remaining B body < 4 then Err (TooShort 4 (remaining B body))
      else and_then (get_u16 B body) (\<lambda>(wl, body).
        let withdrawn_len = unat wl in
        if remaining B body < withdrawn_len then Err (TooShort withdrawn_len (remaining B body))
        else and_then (copy_to_bytes B body withdrawn_len) (\<lambda>(withdrawn_buf, body).
        and_then (parse_prefixes B (Suc (remaining B withdrawn_buf)) [] withdrawn_buf) (\<lambda>withdrawn.
        and_then (get_u16 B body) (\<lambda>(al, body).
          let attr_len = unat al in
          if remaining B body < attr_len then Err (TooShort attr_len (remaining B body))
          else and_then (copy_to_bytes B body attr_len) (\<lambda>(attr_buf, body).
          and_then (map_err (\<lambda>e. Parse (AttrError_to_string e)) (PathAttributes_parse B attr_buf)) (\<lambda>attrs.
          and_then (parse_prefixes B (Suc (remaining B body)) [] body) (\<lambda>prefixes.
            Ok \<lparr>withdrawn_routes = withdrawn, path_attributes = attrs, nlri = prefixes\<rparr>))))))))"

text \<open>The \<^verbatim>\<open>for prefix in ...\<close> loops of \<^verbatim>\<open>serialize\<close>.\<close>

fun serialize_prefixes :: "bytes_ops \<Rightarrow> Prefix list \<Rightarrow> u8 list \<Rightarrow> ('e, u8 list) outcome" where
  "serialize_prefixes B [] buf = Ok buf"
| "serialize_prefixes B (p # ps) buf =
     and_then (Prefix_serialize B p buf) (\<lambda>buf. serialize_prefixes B ps buf)"

definition UpdateMessage_serialize :: "bytes_ops \<Rightarrow> UpdateMessage \<Rightarrow> ('e, u8 list) outcome" where
  "UpdateMessage_serialize B msg =
     and_then (serialize_prefixes B (withdrawn_routes msg) []) (\<lambda>withdrawn_buf.
       let attr_buf = PathAttributes_serialize B (path_attributes msg) in
       and_then (serialize_prefixes B (nlri msg) []) (\<lambda>nlri_buf.
         let body_len = 2 + length withdrawn_buf + 2 + length attr_buf + length nlri_buf;
             hdr = Header_new Update body_len;
             out = Header_serialize B hdr [];
             out = put_u16 B out (of_nat (length withdrawn_buf));
             out = put_buf B out withdrawn_buf;
             out = put_u16 B out (of_nat (length attr_buf));
             out = put_buf B out attr_buf
         in Ok (put_buf B out nlri_buf)))"

section \<open>Lemmas\<close>

definition prefix_bytes :: "Prefix \<Rightarrow> u8 list" where
  "prefix_bytes p = prefix_len p # take (encoded_len p) (to_be 4 (address p))"

text \<open>A prefix of at most 32 bits with no address bits in the octets that are not sent.\<close>

definition prefix_ok :: "Prefix \<Rightarrow> bool" where
  "prefix_ok p \<longleftrightarrow> unat (prefix_len p) \<le> 32 \<and> take_bit (8 * (4 - encoded_len p)) (address p) = 0"

lemma encoded_len_le: "unat (prefix_len p) \<le> 32 \<Longrightarrow> encoded_len p \<le> 4"
  by (simp add: encoded_len_def div_ceil8_def)

context bytes_crate
begin

lemma get_octets_enough:
  "n \<le> length buf \<Longrightarrow> get_octets B n xs buf = Ok (xs @ take n buf, drop n buf)"
proof (induction n arbitrary: xs buf)
  case 0
  then show ?case by simp
next
  case (Suc n)
  then show ?case by (cases buf) simp_all
qed

lemma fill_octets_enough:
  "min byte_len n \<le> length buf \<Longrightarrow> fill_octets B n byte_len buf =
     Ok (take (min byte_len n) buf @ replicate (n - min byte_len n) 0, drop (min byte_len n) buf)"
  by (simp add: fill_octets_def get_octets_enough)

lemma Prefix_parse_Cons:
  "Prefix_parse B (plen # r) =
     (let n = div_ceil8 (unat plen); k = min n 4 in
      if length r < n then Err (TooShort n (length r))
      else Ok (\<lparr>prefix_len = plen, address = from_be (take k r @ replicate (4 - k) 0)\<rparr>, drop k r))"
  by (simp add: Prefix_parse_def fill_octets_enough Let_def)

lemma Prefix_parse_cases:
  assumes "buf \<noteq> []"
  obtains e where "Prefix_parse B buf = Err e"
  | p buf' where "Prefix_parse B buf = Ok (p, buf')" and "length buf' < length buf"
proof -
  from assms obtain l r where buf: "buf = l # r" by (cases buf) auto
  show ?thesis
  proof (cases "length r < div_ceil8 (unat l)")
    case True
    then show ?thesis by (intro that(1)) (simp add: buf Prefix_parse_Cons)
  next
    case False
    let ?k = "min (div_ceil8 (unat l)) 4"
    have "Prefix_parse B buf =
        Ok (\<lparr>prefix_len = l, address = from_be (take ?k r @ replicate (4 - ?k) 0)\<rparr>, drop ?k r)"
      using False by (simp add: buf Prefix_parse_Cons Let_def)
    moreover have "length (drop ?k r) < length buf" by (simp add: buf less_Suc_eq_le)
    ultimately show ?thesis by (rule that(2))
  qed
qed

lemma returns_parse_prefixes: "length buf < fuel \<Longrightarrow> returns (parse_prefixes B fuel ps buf)"
proof (induction fuel arbitrary: ps buf)
  case 0
  then show ?case by simp
next
  case (Suc fuel)
  show ?case
  proof (cases "buf = []")
    case True
    then show ?thesis by (simp add: parse_prefixes.simps(2))
  next
    case False
    then show ?thesis
      by (rule Prefix_parse_cases) (use Suc False in \<open>auto simp: parse_prefixes.simps(2)\<close>)
  qed
qed

lemma Prefix_parse_bytes: "prefix_ok p \<Longrightarrow> Prefix_parse B (prefix_bytes p @ rest) = Ok (p, rest)"
proof -
  assume ok: "prefix_ok p"
  then have n: "encoded_len p \<le> 4" by (simp add: prefix_ok_def encoded_len_le)
  moreover have "take (encoded_len p) (to_be 4 (address p)) @ replicate (4 - encoded_len p) 0 =
      to_be 4 (address p)"
    using ok n by (intro take_to_be_pad) (simp_all add: prefix_ok_def)
  ultimately show ?thesis
    by (simp add: prefix_bytes_def Prefix_parse_Cons flip: encoded_len_def)
qed

lemma parse_prefixes_concat:
  "length ps < fuel \<Longrightarrow> \<forall>p \<in> set ps. prefix_ok p \<Longrightarrow>
   parse_prefixes B fuel acc (concat (map prefix_bytes ps)) = Ok (acc @ ps)"
proof (induction ps arbitrary: fuel acc)
  case Nil
  then show ?case by (cases fuel) (simp_all add: parse_prefixes.simps(2))
next
  case (Cons p ps)
  then obtain n where "fuel = Suc n" by (cases fuel) auto
  moreover have "prefix_bytes p \<noteq> []" by (simp add: prefix_bytes_def)
  ultimately show ?case using Cons by (simp add: parse_prefixes.simps(2) Prefix_parse_bytes)
qed

lemma Prefix_serialize_eq:
  "unat (prefix_len p) \<le> 32 \<Longrightarrow> Prefix_serialize B p buf = Ok (buf @ prefix_bytes p)"
  using encoded_len_le [of p] by (simp add: Prefix_serialize_def slice_to_def prefix_bytes_def)

lemma serialize_prefixes_eq:
  "\<forall>p \<in> set ps. unat (prefix_len p) \<le> 32 \<Longrightarrow>
   serialize_prefixes B ps buf = Ok (buf @ concat (map prefix_bytes ps))"
  by (induction ps arbitrary: buf) (simp_all add: Prefix_serialize_eq)

end

lemma length_prefixes: "length ps \<le> length (concat (map prefix_bytes ps))"
  by (induction ps) (simp_all add: prefix_bytes_def)

text \<open>The length field of the withdrawn routes, and the part of the parser behind it.\<close>

definition withdrawn_len :: "u8 list \<Rightarrow> usize" where
  "withdrawn_len body = unat (from_be (take 2 body) :: u16)"

definition update_body :: "UpdateMessage \<Rightarrow> u8 list \<Rightarrow> u8 list" where
  "update_body msg attr_buf =
     (let w = concat (map prefix_bytes (withdrawn_routes msg));
          n = concat (map prefix_bytes (nlri msg))
      in to_be 2 (of_nat (length w) :: u16) @ w @ to_be 2 (of_nat (length attr_buf) :: u16) @ attr_buf @ n)"

context bytes_crate
begin

lemma UpdateMessage_parse_long:
  assumes "4 \<le> length body"
  shows "UpdateMessage_parse B body =
    (let wl = withdrawn_len body; r = drop 2 body in
     if length r < wl then Err (TooShort wl (length r))
     else and_then (parse_prefixes B (Suc wl) [] (take wl r)) (\<lambda>withdrawn.
       and_then (get_u16 B (drop wl r)) (\<lambda>(al, body).
         if length body < unat al then Err (TooShort (unat al) (length body))
         else and_then (map_err (\<lambda>e. Parse (AttrError_to_string e))
                          (PathAttributes_parse B (take (unat al) body))) (\<lambda>attrs.
           and_then (parse_prefixes B (Suc (length (drop (unat al) body))) [] (drop (unat al) body))
             (\<lambda>prefixes. Ok \<lparr>withdrawn_routes = withdrawn, path_attributes = attrs,
                              nlri = prefixes\<rparr>)))))"
  using assms unfolding UpdateMessage_parse_def withdrawn_len_def
  by (simp add: get_u16_enough [of body] Let_def not_less min_def cong: if_cong)

text \<open>The parser returns, except where the attribute length field is cut off.\<close>

lemma UpdateMessage_parse_ends:
  assumes "4 \<le> length body" and "withdrawn_len body + 2 \<le> length body"
    and "parse_prefixes B (Suc (withdrawn_len body)) [] (take (withdrawn_len body) (drop 2 body)) = Ok ws"
  shows "if length body < withdrawn_len body + 4 then UpdateMessage_parse B body = Panic
         else returns (UpdateMessage_parse B body)"
proof (cases "length body < withdrawn_len body + 4")
  case True
  then show ?thesis using assms by (simp add: UpdateMessage_parse_long Let_def not_less)
next
  case False
  then have "2 \<le> length (drop (withdrawn_len body) (drop 2 body))" by simp
  then show ?thesis
    using False assms
    by (simp add: UpdateMessage_parse_long get_u16_enough Let_def not_less)
       (auto intro!: returns_and_then returns_parse_prefixes simp: returns_PathAttributes_parse)
qed

lemma returns_UpdateMessage_parse:
  assumes "\<not> (4 \<le> length body \<and> withdrawn_len body + 2 \<le> length body \<and>
     (\<exists>ws. parse_prefixes B (Suc (withdrawn_len body)) []
            (take (withdrawn_len body) (drop 2 body)) = Ok ws))"
  shows "returns (UpdateMessage_parse B body)"
proof (cases "4 \<le> length body")
  case True
  have "returns (parse_prefixes B (Suc (withdrawn_len body)) [] (take (withdrawn_len body) (drop 2 body)))"
    by (rule returns_parse_prefixes) simp
  with True assms show ?thesis
    by (auto simp: UpdateMessage_parse_long Let_def returns_iff)
next
  case False
  then show ?thesis by (simp add: UpdateMessage_parse_def)
qed

lemma UpdateMessage_parse_outcome:
  shows UpdateMessage_parse_Panic_iff: "UpdateMessage_parse B body = Panic \<longleftrightarrow>
      4 \<le> length body \<and> withdrawn_len body + 2 \<le> length body \<and> length body < withdrawn_len body + 4 \<and>
      (\<exists>ws. parse_prefixes B (Suc (withdrawn_len body)) [] (take (withdrawn_len body) (drop 2 body)) = Ok ws)"
    and UpdateMessage_parse_not_NoFuel: "UpdateMessage_parse B body \<noteq> NoFuel"
proof -
  let ?whole = "4 \<le> length body \<and> withdrawn_len body + 2 \<le> length body \<and>
    (\<exists>ws. parse_prefixes B (Suc (withdrawn_len body)) [] (take (withdrawn_len body) (drop 2 body)) = Ok ws)"
  have ends: "if length body < withdrawn_len body + 4 then UpdateMessage_parse B body = Panic
      else returns (UpdateMessage_parse B body)" if ?whole
    using that UpdateMessage_parse_ends [of body] by blast
  have "returns (UpdateMessage_parse B body)" if "\<not> (?whole \<and> length body < withdrawn_len body + 4)"
  proof (cases ?whole)
    case True
    then show ?thesis using that ends by simp
  next
    case False
    then show ?thesis by (rule returns_UpdateMessage_parse)
  qed
  moreover have "UpdateMessage_parse B body = Panic" if "?whole \<and> length body < withdrawn_len body + 4"
    using that ends by simp
  ultimately have "?whole \<and> length body < withdrawn_len body + 4 \<and> UpdateMessage_parse B body = Panic \<or>
      \<not> (?whole \<and> length body < withdrawn_len body + 4) \<and> returns (UpdateMessage_parse B body)" by blast
  then show "UpdateMessage_parse B body = Panic \<longleftrightarrow>
      4 \<le> length body \<and> withdrawn_len body + 2 \<le> length body \<and> length body < withdrawn_len body + 4 \<and>
      (\<exists>ws. parse_prefixes B (Suc (withdrawn_len body)) [] (take (withdrawn_len body) (drop 2 body)) = Ok ws)"
    and "UpdateMessage_parse B body \<noteq> NoFuel"
    by (cases "UpdateMessage_parse B body"; simp; blast)+
qed

lemma UpdateMessage_serialize_eq:
  assumes "\<forall>p \<in> set (withdrawn_routes msg) \<union> set (nlri msg). unat (prefix_len p) \<le> 32"
  shows "UpdateMessage_serialize B msg =
    (let body = update_body msg (PathAttributes_serialize B (path_attributes msg))
     in Ok (header_bytes (Header_new Update (length body)) @ body))"
proof -
  have "\<forall>p \<in> set (withdrawn_routes msg). unat (prefix_len p) \<le> 32"
    "\<forall>p \<in> set (nlri msg). unat (prefix_len p) \<le> 32"
    using assms by simp_all
  then show ?thesis
    by (simp add: UpdateMessage_serialize_def update_body_def serialize_prefixes_eq Let_def add.assoc)
qed

lemma UpdateMessage_parse_body:
  assumes w: "\<forall>p \<in> set (withdrawn_routes msg). prefix_ok p" and n: "\<forall>p \<in> set (nlri msg). prefix_ok p"
    and a: "attrs_ok (path_attributes msg)"
    and small: "length (concat (map prefix_bytes (withdrawn_routes msg))) < 65536"
      "length (PathAttributes_serialize B (path_attributes msg)) < 65536"
  shows "UpdateMessage_parse B (update_body msg (PathAttributes_serialize B (path_attributes msg))) = Ok msg"
proof -
  let ?W = "concat (map prefix_bytes (withdrawn_routes msg))"
  let ?N = "concat (map prefix_bytes (nlri msg))"
  have "parse_prefixes B (Suc (length ?W)) [] ?W = Ok (withdrawn_routes msg)"
    "parse_prefixes B (Suc (length ?N)) [] ?N = Ok (nlri msg)"
    using parse_prefixes_concat [OF _ w, of _ "[]"] parse_prefixes_concat [OF _ n, of _ "[]"]
    by (simp_all add: length_prefixes less_Suc_eq_le)
  then show ?thesis
    using small PathAttributes_roundtrip [OF a]
    by (simp add: UpdateMessage_parse_def update_body_def Let_def)
qed

end

section \<open>Properties\<close>

text \<open>C7: the exact inputs on which the UPDATE parser panics.  It does so when the withdrawn routes
  parse and leave zero or one byte for the two-byte attribute length, which \<^verbatim>\<open>get_u16\<close> then reads
  unchecked; on every other body it returns, and it never runs forever.  A peer can send such a
  body: the shortest is \<^verbatim>\<open>00 02 00 00\<close>.\<close>

theorem update_parse_panics_iff:
  assumes "bytes_crate B"
  shows "(UpdateMessage_parse B body = Panic \<longleftrightarrow>
            4 \<le> length body \<and> withdrawn_len body + 2 \<le> length body \<and>
            length body < withdrawn_len body + 4 \<and>
            (\<exists>ws. parse_prefixes B (Suc (withdrawn_len body)) []
                    (take (withdrawn_len body) (drop 2 body)) = Ok ws)) \<and>
         UpdateMessage_parse B body \<noteq> NoFuel"
  using bytes_crate.UpdateMessage_parse_outcome [OF assms] by blast

theorem update_parse_panics_iff_witness: "UpdateMessage_parse documented_bytes [0, 2, 0, 0] = Panic"
proof -
  have wl: "withdrawn_len [0, 2, 0, 0] = 2" by (simp add: withdrawn_len_def from_be_def)
  have "parse_prefixes documented_bytes (Suc 2) [] [0, 0] = Ok [Prefix_new 0 0, Prefix_new 0 0]"
    by (simp add: numeral_2_eq_2 parse_prefixes.simps(2) doc.Prefix_parse_Cons div_ceil8_def
        Prefix_new_def)
  then show ?thesis
    using update_parse_panics_iff [OF documented_bytes_ok, of "[0, 2, 0, 0]"] by (simp add: wl)
qed

lemma update_framed_roundtrip:
  assumes "bytes_crate B"
    and "\<forall>p \<in> set (withdrawn_routes msg). prefix_ok p" and "\<forall>p \<in> set (nlri msg). prefix_ok p"
    and "attrs_ok (path_attributes msg)"
    and "length (update_body msg (PathAttributes_serialize B (path_attributes msg))) \<le> 4077"
  shows "\<exists>bs f. (UpdateMessage_serialize B msg :: (MessageError, u8 list) outcome) = Ok bs \<and>
           BgpMessage_parse B (bs @ rest) = Ok (Some f, rest) \<and>
           msg_type (msg_header f) = Update \<and> UpdateMessage_parse B (msg_body f) = Ok msg"
proof -
  let ?body = "update_body msg (PathAttributes_serialize B (path_attributes msg))"
  let ?f = "\<lparr>msg_header = Header_new Update (length ?body), msg_body = ?body\<rparr>"
  have ser: "(UpdateMessage_serialize B msg :: (MessageError, u8 list) outcome) =
      Ok (header_bytes (Header_new Update (length ?body)) @ ?body)"
    using assms(2,3) bytes_crate.UpdateMessage_serialize_eq [OF assms(1), of msg]
    by (auto simp: prefix_ok_def Let_def)
  have "frame_ok ?f" using assms(5) by (simp add: frame_ok_def)
  from bytes_crate.BgpMessage_parse_frame [OF assms(1) this, of rest]
  have "BgpMessage_parse B ((header_bytes (Header_new Update (length ?body)) @ ?body) @ rest) =
      Ok (Some ?f, rest)"
    by (simp add: frame_bytes_def)
  moreover have "UpdateMessage_parse B ?body = Ok msg"
    using assms by (intro bytes_crate.UpdateMessage_parse_body) (auto simp: update_body_def Let_def)
  ultimately show ?thesis using ser by (auto simp: Header_new_def)
qed

text \<open>C14: an UPDATE that fits the wire format (prefixes of at most 32 bits without stray address
  bits, attributes that fit, at most 4096 bytes in all) is serialized without a panic, extracted from
  the byte stream as one message of type UPDATE, and parsed back unchanged.\<close>

theorem update_roundtrip:
  assumes "bytes_crate B"
    and "\<forall>p \<in> set (withdrawn_routes msg). prefix_ok p" and "\<forall>p \<in> set (nlri msg). prefix_ok p"
    and "attrs_ok (path_attributes msg)"
    and "length (update_body msg (PathAttributes_serialize B (path_attributes msg))) \<le> 4077"
  shows "\<exists>bs f. (UpdateMessage_serialize B msg :: (MessageError, u8 list) outcome) = Ok bs \<and>
           BgpMessage_parse B (bs @ rest) = Ok (Some f, rest) \<and>
           msg_type (msg_header f) = Update \<and> UpdateMessage_parse B (msg_body f) = Ok msg"
  using assms by (rule update_framed_roundtrip)

definition sample_update :: UpdateMessage where
  "sample_update =
     \<lparr>withdrawn_routes = [Prefix_new 0x0A000000 8],
      path_attributes = PathAttributes_default\<lparr>origin := Some Igp, local_pref := Some 100\<rparr>,
      nlri = [Prefix_new 0xC0A80100 24]\<rparr>"

theorem update_roundtrip_witness:
  "\<exists>bs f. (UpdateMessage_serialize documented_bytes sample_update :: (MessageError, u8 list) outcome) = Ok bs \<and>
     BgpMessage_parse documented_bytes (bs @ [0xFF]) = Ok (Some f, [0xFF]) \<and>
     msg_type (msg_header f) = Update \<and>
     UpdateMessage_parse documented_bytes (msg_body f) = Ok sample_update"
  by (rule update_roundtrip [OF documented_bytes_ok])
     (simp_all add: sample_update_def Prefix_new_def prefix_ok_def encoded_len_def div_ceil8_def
        attrs_ok_def PathAttributes_default_def update_body_def prefix_bytes_def
        PathAttributes_serialize_def write_attr_def Let_def)

text \<open>A prefix length above 32 is accepted, and then the parser loses its place: it checks for
  five to thirty-two octets but reads only four, so the octets after them are taken for the next
  prefix.\<close>

lemma prefix_len_over_32:
  assumes "bytes_crate B" and "32 < unat plen" and "div_ceil8 (unat plen) \<le> length octets"
  shows "\<exists>p. Prefix_parse B (plen # octets) = Ok (p, drop 4 octets) \<and> prefix_len p = plen \<and>
             drop 4 octets \<noteq> []"
proof -
  have "5 \<le> div_ceil8 (unat plen)" using assms(2) by (simp add: div_ceil8_def)
  then show ?thesis
    using assms(3) by (simp add: bytes_crate.Prefix_parse_Cons [OF assms(1)] Let_def min_def not_less)
qed

end
