(* ===== verification/Text.thy ===== *)
theory Text
  imports Prelude
begin

text \<open>
  The text conversions of the standard library that the configuration, the policies and the management
  interface use: \<^verbatim>\<open>split_once\<close>, \<^verbatim>\<open>split_whitespace\<close>, \<^verbatim>\<open>FromStr\<close> of the unsigned integers and of
  \<^verbatim>\<open>Ipv4Addr\<close>, the \<^verbatim>\<open>Display\<close> of addresses, and the width of a format argument.
\<close>

section \<open>Splitting\<close>

fun split_once :: "char \<Rightarrow> string \<Rightarrow> (string \<times> string) option" where
  "split_once c [] = None"
| "split_once c (x # xs) =
     (if x = c then Some ([], xs)
      else case split_once c xs of None \<Rightarrow> None | Some (a, b) \<Rightarrow> Some (x # a, b))"

fun split_on :: "char \<Rightarrow> string \<Rightarrow> string list" where
  "split_on c [] = [[]]"
| "split_on c (x # xs) =
     (if x = c then [] # split_on c xs
      else case split_on c xs of p # ps \<Rightarrow> (x # p) # ps | [] \<Rightarrow> [[x]])"

section \<open>Numbers\<close>

definition digit_val :: "char \<Rightarrow> nat option" where
  "digit_val c = (let n = of_char c :: nat in if 48 \<le> n \<and> n \<le> 57 then Some (n - 48) else None)"

fun digits_val :: "nat \<Rightarrow> string \<Rightarrow> nat option" where
  "digits_val acc [] = Some acc"
| "digits_val acc (c # cs) =
     (case digit_val c of None \<Rightarrow> None | Some d \<Rightarrow> digits_val (10 * acc + d) cs)"

text \<open>
  \<^verbatim>\<open>str::parse\<close> of an unsigned integer with maximal value \<open>m\<close>: an optional plus sign, at least one
  digit, and no overflow.
\<close>

definition parse_uint :: "nat \<Rightarrow> string \<Rightarrow> nat option" where
  "parse_uint m s =
     (let ds = (case s of c # cs \<Rightarrow> if c = CHR 0x2B then cs else s | [] \<Rightarrow> []) in
      if ds = [] then None
      else case digits_val 0 ds of Some n \<Rightarrow> if n \<le> m then Some n else None | None \<Rightarrow> None)"

definition parse_u8 :: "string \<Rightarrow> u8 option" where
  "parse_u8 s = map_option of_nat (parse_uint 255 s)"

definition parse_u16 :: "string \<Rightarrow> u16 option" where
  "parse_u16 s = map_option of_nat (parse_uint 65535 s)"

definition parse_u32 :: "string \<Rightarrow> u32 option" where
  "parse_u32 s = map_option of_nat (parse_uint 4294967295 s)"

section \<open>IPv4 addresses\<close>

text \<open>An octet has one to three digits, no redundant leading zero and a value of at most 255.\<close>

definition parse_octet :: "string \<Rightarrow> u8 option" where
  "parse_octet s =
     (if s = [] \<or> 3 < length s \<or> (1 < length s \<and> hd s = CHR 0x30) then None
      else case digits_val 0 s of
        Some n \<Rightarrow> if n \<le> 255 then Some (of_nat n) else None | None \<Rightarrow> None)"

definition parse_ipv4 :: "string \<Rightarrow> Ipv4Addr option" where
  "parse_ipv4 s = (case split_on (CHR 0x2E) s of
     [a, b, c, d] \<Rightarrow>
       (case (parse_octet a, parse_octet b, parse_octet c, parse_octet d) of
          (Some a, Some b, Some c, Some d) \<Rightarrow> Some (from_be [a, b, c, d])
        | _ \<Rightarrow> None)
   | _ \<Rightarrow> None)"

definition show_ipv4 :: "Ipv4Addr \<Rightarrow> string" where
  "show_ipv4 a = (case to_be 4 a of
     [w, x, y, z] \<Rightarrow> show_nat (unat w) @ [CHR 0x2E] @ show_nat (unat x) @ [CHR 0x2E] @
                      show_nat (unat y) @ [CHR 0x2E] @ show_nat (unat z)
   | _ \<Rightarrow> [])"

section \<open>IPv6 and socket addresses\<close>

definition hex_char :: "nat \<Rightarrow> char" where
  "hex_char d = char_of (if d < 10 then 48 + d else 87 + d)"

fun show_hex :: "nat \<Rightarrow> string" where
  "show_hex n = (if n < 16 then [hex_char n] else show_hex (n div 16) @ [hex_char (n mod 16)])"

declare show_hex.simps [simp del]

definition segments :: "Ipv6Addr \<Rightarrow> u16 list" where
  "segments a = map (\<lambda>i. ucast (drop_bit (16 * (7 - i)) a)) [0..<8]"

text \<open>
  The first longest run of zero segments, as start and length: \<open>i\<close> is the index of the next segment, and
  the runs are \<^verbatim>\<open>longest\<close> and \<^verbatim>\<open>current\<close> of the standard library's loop.
\<close>

fun zero_run :: "nat \<Rightarrow> nat \<times> nat \<Rightarrow> nat \<times> nat \<Rightarrow> u16 list \<Rightarrow> nat \<times> nat" where
  "zero_run i longest current [] = longest"
| "zero_run i longest current (s # ss) =
     (if s = 0 then
        let current = (if snd current = 0 then i else fst current, Suc (snd current))
        in zero_run (Suc i) (if snd longest < snd current then current else longest) current ss
      else zero_run (Suc i) longest (0, 0) ss)"

text \<open>\<^verbatim>\<open>[String]::join\<close>\<close>

fun join :: "string \<Rightarrow> string list \<Rightarrow> string" where
  "join sep [] = []"
| "join sep [x] = x"
| "join sep (x # y # ys) = x @ sep @ join sep (y # ys)"

definition show_segments :: "u16 list \<Rightarrow> string" where
  "show_segments ss = join [CHR 0x3A] (map (\<lambda>s. show_hex (unat s)) ss)"

definition show_ipv6 :: "Ipv6Addr \<Rightarrow> string" where
  "show_ipv6 a =
     (let ss = segments a in
      if take 6 ss = [0, 0, 0, 0, 0, 0xFFFF] then ''::ffff:'' @ show_ipv4 (ucast a)
      else
        let (start, len) = zero_run 0 (0, 0) (0, 0) ss
        in if 1 < len then show_segments (take start ss) @ ''::'' @ show_segments (drop (start + len) ss)
           else show_segments ss)"

primrec show_ip :: "IpAddr \<Rightarrow> string" where
  "show_ip (V4 a) = show_ipv4 a"
| "show_ip (V6 a) = show_ipv6 a"

text \<open>\<^verbatim>\<open>SocketAddr\<close>; an IPv6 address has no scope here.\<close>

definition show_socket :: "SocketAddr \<Rightarrow> string" where
  "show_socket a =
     (case sock_ip a of V4 ip \<Rightarrow> show_ipv4 ip | V6 ip \<Rightarrow> ''['' @ show_ipv6 ip @ '']'') @ [CHR 0x3A] @
     show_nat (unat (sock_port a))"

section \<open>Lines and columns\<close>

text \<open>\<^verbatim>\<open>char::is_whitespace\<close> on ASCII.\<close>

definition is_whitespace :: "char \<Rightarrow> bool" where
  "is_whitespace c = (let n = of_char c :: nat in (9 \<le> n \<and> n \<le> 13) \<or> n = 32)"

fun split_by :: "(char \<Rightarrow> bool) \<Rightarrow> string \<Rightarrow> string list" where
  "split_by P [] = [[]]"
| "split_by P (x # xs) =
     (if P x then [] # split_by P xs
      else case split_by P xs of p # ps \<Rightarrow> (x # p) # ps | [] \<Rightarrow> [[x]])"

text \<open>\<^verbatim>\<open>split_whitespace\<close>: the non-empty pieces between white space.\<close>

definition split_whitespace :: "string \<Rightarrow> string list" where
  "split_whitespace s = filter (\<lambda>w. w \<noteq> []) (split_by is_whitespace s)"

definition trim :: "string \<Rightarrow> string" where
  "trim s = rev (dropWhile is_whitespace (rev (dropWhile is_whitespace s)))"

text \<open>The format widths \<^verbatim>\<open>{:<n}\<close> and \<^verbatim>\<open>{:>n}\<close>.\<close>

definition left_col :: "nat \<Rightarrow> string \<Rightarrow> string" where
  "left_col n s = s @ replicate (n - length s) (CHR 0x20)"

definition right_col :: "nat \<Rightarrow> string \<Rightarrow> string" where
  "right_col n s = replicate (n - length s) (CHR 0x20) @ s"

section \<open>Lemmas\<close>

lemma digit_val_char: "d < 10 \<Longrightarrow> digit_val (digit_char d) = Some d"
  by (simp add: digit_val_def digit_char_def)

lemma digit_char_ord: "d < 10 \<Longrightarrow> (of_char (digit_char d) :: nat) = 48 + d"
  by (simp add: digit_char_def)

lemma show_nat_digits: "c \<in> set (show_nat n) \<Longrightarrow> \<exists>d<10. c = digit_char d"
proof (induction n rule: show_nat.induct)
  case (1 n)
  then consider "c = digit_char (n mod 10)" | "\<not> n < 10" "c \<in> set (show_nat (n div 10))"
    by (subst (asm) (2) show_nat.simps) (auto split: if_splits)
  then show ?case using 1(1) by cases (auto intro: exI [of _ "n mod 10"])
qed

lemma show_nat_excludes:
  assumes "(of_char c :: nat) < 48"
  shows "c \<notin> set (show_nat n)"
proof
  assume "c \<in> set (show_nat n)"
  then obtain d where "d < 10" "c = digit_char d" using show_nat_digits by blast
  then show False using assms by (simp add: digit_char_ord)
qed

lemma digits_val_append:
  "digits_val acc (xs @ ys) = (case digits_val acc xs of None \<Rightarrow> None | Some n \<Rightarrow> digits_val n ys)"
  by (induction xs arbitrary: acc) (auto split: option.splits)

lemma digits_val_show_nat: "digits_val 0 (show_nat n) = Some n"
proof (induction n rule: show_nat.induct)
  case (1 n)
  then show ?case
    by (subst show_nat.simps) (simp add: digits_val_append digit_val_char)
qed

lemma show_nat_inject: "show_nat a = show_nat b \<Longrightarrow> a = b"
  by (metis digits_val_show_nat option.inject)

lemma show_nat_nonempty [simp]: "show_nat n \<noteq> []"
  by (subst show_nat.simps) simp

lemma split_once_app: "c \<notin> set xs \<Longrightarrow> split_once c (xs @ c # ys) = Some (xs, ys)"
  by (induction xs) auto

lemma split_on_no: "c \<notin> set xs \<Longrightarrow> split_on c xs = [xs]"
  by (induction xs) auto

lemma split_on_app: "c \<notin> set xs \<Longrightarrow> split_on c (xs @ c # ys) = xs # split_on c ys"
  by (induction xs) auto

lemma parse_uint_show_nat: "n \<le> m \<Longrightarrow> parse_uint m (show_nat n) = Some n"
proof -
  assume "n \<le> m"
  moreover have "CHR 0x2B \<notin> set (show_nat n)" by (rule show_nat_excludes) simp
  then have "(case show_nat n of c # cs \<Rightarrow> if c = CHR 0x2B then cs else show_nat n | [] \<Rightarrow> []) = show_nat n"
    by (cases "show_nat n") auto
  ultimately show ?thesis by (simp add: parse_uint_def digits_val_show_nat)
qed

lemma show_nat_small:
  "n < 256 \<Longrightarrow> length (show_nat n) \<le> 3 \<and> (1 < length (show_nat n) \<longrightarrow> hd (show_nat n) \<noteq> CHR 0x30)"
proof -
  assume n: "n < 256"
  have zero: "d = 0" if "d < 10" "digit_char d = CHR 0x30" for d
    using that digit_char_ord [of d] by simp
  consider "n < 10" | "10 \<le> n" "n < 100" | "100 \<le> n" "n < 256" using n by linarith
  then show ?thesis
  proof cases
    case 1
    then show ?thesis by (subst (1 2 3) show_nat.simps) simp
  next
    case 2
    then have "show_nat n = [digit_char (n div 10), digit_char (n mod 10)]"
      by (subst show_nat.simps) (simp add: show_nat.simps [of "n div 10"] less_mult_imp_div_less)
    moreover have "n div 10 < 10" "n div 10 \<noteq> 0"
      using 2 by (simp_all add: less_mult_imp_div_less div_eq_0_iff)
    ultimately show ?thesis using zero [of "n div 10"] by auto
  next
    case 3
    then have "show_nat n = [digit_char (n div 100), digit_char (n div 10 mod 10), digit_char (n mod 10)]"
      by (subst show_nat.simps) (simp add: show_nat.simps [of "n div 10"] show_nat.simps [of "n div 100"]
          div_mult2_eq [symmetric] less_mult_imp_div_less)
    moreover have "n div 100 < 10" "n div 100 \<noteq> 0"
      using 3 by (simp_all add: less_mult_imp_div_less div_eq_0_iff)
    ultimately show ?thesis using zero [of "n div 100"] by auto
  qed
qed

lemma parse_octet_show: "parse_octet (show_nat (unat (w :: u8))) = Some w"
  using show_nat_small [of "unat w"] unat_u8_less [of w]
  by (auto simp: parse_octet_def digits_val_show_nat)

lemma parse_ipv4_show: "parse_ipv4 (show_ipv4 a) = Some a"
proof -
  have dot: "CHR 0x2E \<notin> set (show_nat n)" for n by (rule show_nat_excludes) simp
  obtain w x y z where b: "to_be 4 a = [w, x, y, z]" by (simp add: to_be_4)
  then have "from_be [w, x, y, z] = a" by (metis from_be_to_be_32)
  then show ?thesis
    by (simp add: show_ipv4_def parse_ipv4_def b split_on_app dot split_on_no parse_octet_show)
qed

lemma show_ipv4_no_slash: "CHR 0x2F \<notin> set (show_ipv4 a)"
proof -
  have "CHR 0x2F \<notin> set (show_nat n)" for n by (rule show_nat_excludes) simp
  then show ?thesis by (simp add: show_ipv4_def split: list.splits)
qed

end
