(* ===== verification/Mp.thy ===== *)
theory Mp
  imports Update Text
begin

text \<open>
  Multi-protocol reachability, \<^verbatim>\<open>src/mp.rs\<close>: address families, IPv4 and IPv6 prefixes, and the
  MP_REACH_NLRI and MP_UNREACH_NLRI attribute values.  The \<^verbatim>\<open>while buf.remaining() >= n\<close> loops of
  the file are one combinator with fuel; the locale \<open>item_codec\<close> states what the body of such a
  loop promises, and is interpreted on the prefixes and on the next hops of both families.
\<close>

section \<open>Address families\<close>

datatype Afi = Ipv4 | Ipv6

datatype Safi = Unicast | Multicast | LabeledUnicast

datatype MpError = UnknownAfi u16 | UnknownSafi u8 | MpTooShort | InvalidAddress

definition Afi_try_from :: "u16 \<Rightarrow> (MpError, Afi) outcome" where
  "Afi_try_from v = (if v = 1 then Ok Ipv4 else if v = 2 then Ok Ipv6 else Err (UnknownAfi v))"

primrec Afi_code :: "Afi \<Rightarrow> u16" where
  "Afi_code Ipv4 = 1"
| "Afi_code Ipv6 = 2"

definition Safi_try_from :: "u8 \<Rightarrow> (MpError, Safi) outcome" where
  "Safi_try_from v =
     (if v = 1 then Ok Unicast else if v = 2 then Ok Multicast
      else if v = 4 then Ok LabeledUnicast else Err (UnknownSafi v))"

primrec Safi_code :: "Safi \<Rightarrow> u8" where
  "Safi_code Unicast = 1"
| "Safi_code Multicast = 2"
| "Safi_code LabeledUnicast = 4"

section \<open>Prefixes\<close>

record MpPrefix =
  mp_afi :: Afi
  mp_prefix_len :: u8
  mp_address :: IpAddr

definition MpPrefix_to_string :: "MpPrefix \<Rightarrow> string" where
  "MpPrefix_to_string p = show_ip (mp_address p) @ [CHR 0x2F] @ show_nat (unat (mp_prefix_len p))"

definition MpPrefix_ipv4 :: "Ipv4Addr \<Rightarrow> u8 \<Rightarrow> MpPrefix" where
  "MpPrefix_ipv4 addr len = \<lparr>mp_afi = Ipv4, mp_prefix_len = len, mp_address = V4 addr\<rparr>"

definition MpPrefix_ipv6 :: "Ipv6Addr \<Rightarrow> u8 \<Rightarrow> MpPrefix" where
  "MpPrefix_ipv6 addr len = \<lparr>mp_afi = Ipv6, mp_prefix_len = len, mp_address = V6 addr\<rparr>"

definition mp_encoded_len :: "MpPrefix \<Rightarrow> usize" where
  "mp_encoded_len p = div_ceil8 (unat (mp_prefix_len p))"

definition MpPrefix_parse :: "bytes_ops \<Rightarrow> Afi \<Rightarrow> u8 list \<Rightarrow> (MpError, MpPrefix \<times> u8 list) outcome" where
  "MpPrefix_parse B fam buf =
     (if remaining B buf < 1 then Err MpTooShort
      else and_then (get_u8 B buf) (\<lambda>(plen, buf).
        let byte_len = div_ceil8 (unat plen) in
        if remaining B buf < byte_len then Err MpTooShort
        else and_then
          (case fam of
             Ipv4 \<Rightarrow> and_then (fill_octets B 4 byte_len buf) (\<lambda>(b, buf). Ok (V4 (from_be b), buf))
           | Ipv6 \<Rightarrow> and_then (fill_octets B 16 byte_len buf) (\<lambda>(b, buf). Ok (V6 (from_be b), buf)))
          (\<lambda>(addr, buf). Ok (\<lparr>mp_afi = fam, mp_prefix_len = plen, mp_address = addr\<rparr>, buf))))"

definition octets :: "IpAddr \<Rightarrow> u8 list" where
  "octets addr = (case addr of V4 a \<Rightarrow> to_be 4 a | V6 a \<Rightarrow> to_be 16 a)"

definition MpPrefix_serialize :: "bytes_ops \<Rightarrow> MpPrefix \<Rightarrow> u8 list \<Rightarrow> ('e, u8 list) outcome" where
  "MpPrefix_serialize B p buf =
     (let buf = put_u8 B buf (mp_prefix_len p); byte_len = mp_encoded_len p in
      and_then (slice_to (octets (mp_address p)) byte_len) (\<lambda>bs. Ok (put_slice B buf bs)))"

text \<open>\<^verbatim>\<open>while buf.remaining() >= n { xs.push(item(buf)?) }\<close>.\<close>

fun while_remaining ::
    "bytes_ops \<Rightarrow> nat \<Rightarrow> (u8 list \<Rightarrow> ('e, 'a \<times> u8 list) outcome) \<Rightarrow> nat \<Rightarrow> 'a list \<Rightarrow> u8 list \<Rightarrow>
     ('e, 'a list) outcome" where
  "while_remaining B n item 0 xs buf = NoFuel"
| "while_remaining B n item (Suc fuel) xs buf =
     (if remaining B buf < n then Ok xs
      else and_then (item buf) (\<lambda>(x, buf). while_remaining B n item fuel (xs @ [x]) buf))"

declare while_remaining.simps(2) [simp del]

fun serialize_mp_prefixes :: "bytes_ops \<Rightarrow> MpPrefix list \<Rightarrow> u8 list \<Rightarrow> ('e, u8 list) outcome" where
  "serialize_mp_prefixes B [] buf = Ok buf"
| "serialize_mp_prefixes B (p # ps) buf =
     and_then (MpPrefix_serialize B p buf) (\<lambda>buf. serialize_mp_prefixes B ps buf)"

section \<open>MP_REACH_NLRI\<close>

record MpReachNlri =
  reach_afi :: Afi
  reach_safi :: Safi
  next_hops :: "IpAddr list"
  reach_nlri :: "MpPrefix list"

definition MpReachNlri_new :: "Afi \<Rightarrow> Safi \<Rightarrow> IpAddr \<Rightarrow> MpReachNlri" where
  "MpReachNlri_new fam sub nh =
     \<lparr>reach_afi = fam, reach_safi = sub, next_hops = [nh], reach_nlri = []\<rparr>"

definition next_hop_v4 :: "bytes_ops \<Rightarrow> u8 list \<Rightarrow> (MpError, IpAddr \<times> u8 list) outcome" where
  "next_hop_v4 B buf = and_then (get_u32 B buf) (\<lambda>(w, buf). Ok (V4 w, buf))"

definition next_hop_v6 :: "bytes_ops \<Rightarrow> u8 list \<Rightarrow> (MpError, IpAddr \<times> u8 list) outcome" where
  "next_hop_v6 B buf = and_then (copy_to_slice B buf 16) (\<lambda>(b, buf). Ok (V6 (from_be b), buf))"

definition parse_next_hops :: "bytes_ops \<Rightarrow> Afi \<Rightarrow> u8 list \<Rightarrow> (MpError, IpAddr list) outcome" where
  "parse_next_hops B fam nh_buf =
     (case fam of
        Ipv4 \<Rightarrow> while_remaining B 4 (next_hop_v4 B) (Suc (remaining B nh_buf)) [] nh_buf
      | Ipv6 \<Rightarrow> while_remaining B 16 (next_hop_v6 B) (Suc (remaining B nh_buf)) [] nh_buf)"

definition MpReachNlri_parse :: "bytes_ops \<Rightarrow> u8 list \<Rightarrow> (MpError, MpReachNlri) outcome" where
  "MpReachNlri_parse B buf =
     (if remaining B buf < 4 then Err MpTooShort
      else and_then (get_u16 B buf) (\<lambda>(a, buf).
        and_then (Afi_try_from a) (\<lambda>fam.
        and_then (get_u8 B buf) (\<lambda>(s, buf).
        and_then (Safi_try_from s) (\<lambda>sub.
        and_then (get_u8 B buf) (\<lambda>(l, buf).
          let nh_len = unat l in
          if remaining B buf < nh_len then Err MpTooShort
          else and_then (copy_to_bytes B buf nh_len) (\<lambda>(nh_buf, buf).
            and_then (parse_next_hops B fam nh_buf) (\<lambda>nhs.
            and_then (get_u8 B buf) (\<lambda>(_, buf).
            and_then (while_remaining B 1 (MpPrefix_parse B fam) (Suc (remaining B buf)) [] buf) (\<lambda>ps.
              Ok \<lparr>reach_afi = fam, reach_safi = sub, next_hops = nhs, reach_nlri = ps\<rparr>))))))))))"

definition MpReachNlri_serialize :: "bytes_ops \<Rightarrow> MpReachNlri \<Rightarrow> ('e, u8 list) outcome" where
  "MpReachNlri_serialize B r =
     (let buf = put_u16 B [] (Afi_code (reach_afi r));
          buf = put_u8 B buf (Safi_code (reach_safi r));
          nh_buf = foldl (\<lambda>b nh. put_slice B b (octets nh)) [] (next_hops r);
          buf = put_u8 B buf (of_nat (length nh_buf));
          buf = put_buf B buf nh_buf;
          buf = put_u8 B buf 0
      in serialize_mp_prefixes B (reach_nlri r) buf)"

section \<open>MP_UNREACH_NLRI\<close>

record MpUnreachNlri =
  unreach_afi :: Afi
  unreach_safi :: Safi
  withdrawn :: "MpPrefix list"

definition MpUnreachNlri_new :: "Afi \<Rightarrow> Safi \<Rightarrow> MpUnreachNlri" where
  "MpUnreachNlri_new fam sub = \<lparr>unreach_afi = fam, unreach_safi = sub, withdrawn = []\<rparr>"

definition MpUnreachNlri_parse :: "bytes_ops \<Rightarrow> u8 list \<Rightarrow> (MpError, MpUnreachNlri) outcome" where
  "MpUnreachNlri_parse B buf =
     (if remaining B buf < 3 then Err MpTooShort
      else and_then (get_u16 B buf) (\<lambda>(a, buf).
        and_then (Afi_try_from a) (\<lambda>fam.
        and_then (get_u8 B buf) (\<lambda>(s, buf).
        and_then (Safi_try_from s) (\<lambda>sub.
        and_then (while_remaining B 1 (MpPrefix_parse B fam) (Suc (remaining B buf)) [] buf) (\<lambda>ps.
          Ok \<lparr>unreach_afi = fam, unreach_safi = sub, withdrawn = ps\<rparr>))))))"

definition MpUnreachNlri_serialize :: "bytes_ops \<Rightarrow> MpUnreachNlri \<Rightarrow> ('e, u8 list) outcome" where
  "MpUnreachNlri_serialize B u =
     (let buf = put_u16 B [] (Afi_code (unreach_afi u));
          buf = put_u8 B buf (Safi_code (unreach_safi u))
      in serialize_mp_prefixes B (withdrawn u) buf)"

section \<open>The contract of a loop body\<close>

locale item_codec = bytes_crate B
  for B :: bytes_ops +
  fixes n :: nat
    and item :: "u8 list \<Rightarrow> ('e, 'a \<times> u8 list) outcome"
    and bytes_of :: "'a \<Rightarrow> u8 list"
    and ok :: "'a \<Rightarrow> bool"
  assumes pos: "0 < n"
    and item_bytes: "ok x \<Longrightarrow> item (bytes_of x @ rest) = Ok (x, rest)"
    and bytes_long: "ok x \<Longrightarrow> n \<le> length (bytes_of x)"
    and item_ends: "n \<le> length buf \<Longrightarrow>
      (\<exists>e. item buf = Err e) \<or> (\<exists>x buf'. item buf = Ok (x, buf') \<and> length buf' < length buf)"
begin

lemma loop_returns: "length buf < fuel \<Longrightarrow> returns (while_remaining B n item fuel xs buf)"
proof (induction fuel arbitrary: xs buf)
  case 0
  then show ?case by simp
next
  case (Suc fuel)
  show ?case
  proof (cases "n \<le> length buf")
    case True
    then show ?thesis
      using item_ends [OF True] Suc by (auto simp: while_remaining.simps(2))
  next
    case False
    then show ?thesis by (simp add: while_remaining.simps(2))
  qed
qed

lemma loop_items:
  "length xs < fuel \<Longrightarrow> \<forall>x \<in> set xs. ok x \<Longrightarrow>
   while_remaining B n item fuel acc (concat (map bytes_of xs)) = Ok (acc @ xs)"
proof (induction xs arbitrary: fuel acc)
  case Nil
  then show ?case using pos by (cases fuel) (simp_all add: while_remaining.simps(2))
next
  case (Cons x xs)
  then obtain k where "fuel = Suc k" by (cases fuel) auto
  moreover have "n \<le> length (bytes_of x)" using Cons.prems by (simp add: bytes_long)
  ultimately show ?case using Cons by (simp add: while_remaining.simps(2) item_bytes)
qed

lemma items_long: "\<forall>x \<in> set xs. ok x \<Longrightarrow> length xs \<le> length (concat (map bytes_of xs))"
proof (induction xs)
  case (Cons x xs)
  then show ?case using bytes_long [of x] pos by simp
qed simp

lemma loop_roundtrip:
  assumes "\<forall>x \<in> set xs. ok x"
  shows "while_remaining B n item (Suc (length (concat (map bytes_of xs)))) []
           (concat (map bytes_of xs)) = Ok xs"
  using loop_items [OF _ assms, of _ "[]"] items_long [OF assms] by (simp add: less_Suc_eq_le)

end

section \<open>Lemmas\<close>

definition mp_bytes :: "MpPrefix \<Rightarrow> u8 list" where
  "mp_bytes p = mp_prefix_len p # take (mp_encoded_len p) (octets (mp_address p))"

text \<open>An address of the family, a length within it, and no address bits in the octets not sent.\<close>

definition mp_prefix_ok :: "Afi \<Rightarrow> MpPrefix \<Rightarrow> bool" where
  "mp_prefix_ok fam p \<longleftrightarrow> mp_afi p = fam \<and>
     (case mp_address p of
        V4 a \<Rightarrow> fam = Ipv4 \<and> unat (mp_prefix_len p) \<le> 32 \<and> take_bit (8 * (4 - mp_encoded_len p)) a = 0
      | V6 a \<Rightarrow> fam = Ipv6 \<and> unat (mp_prefix_len p) \<le> 128 \<and> take_bit (8 * (16 - mp_encoded_len p)) a = 0)"

definition next_hop_ok :: "Afi \<Rightarrow> IpAddr \<Rightarrow> bool" where
  "next_hop_ok fam nh = (case nh of V4 _ \<Rightarrow> fam = Ipv4 | V6 _ \<Rightarrow> fam = Ipv6)"

lemma Afi_try_from_code [simp]: "Afi_try_from (Afi_code fam) = Ok fam"
  by (cases fam) (simp_all add: Afi_try_from_def)

lemma Safi_try_from_code [simp]: "Safi_try_from (Safi_code sub) = Ok sub"
  by (cases sub) (simp_all add: Safi_try_from_def)

lemma Afi_try_from_cases: "(\<exists>fam. Afi_try_from a = Ok fam) \<or> (\<exists>e. Afi_try_from a = Err e)"
  by (simp add: Afi_try_from_def)

lemma Safi_try_from_cases: "(\<exists>sub. Safi_try_from s = Ok sub) \<or> (\<exists>e. Safi_try_from s = Err e)"
  by (simp add: Safi_try_from_def)

lemma mp_prefix_ok_octets: "mp_prefix_ok fam p \<Longrightarrow> mp_encoded_len p \<le> length (octets (mp_address p))"
  by (auto simp: mp_prefix_ok_def octets_def mp_encoded_len_def div_ceil8_def split: IpAddr.splits)

context bytes_crate
begin

lemma MpPrefix_parse_Cons:
  "MpPrefix_parse B fam (plen # r) =
     (let n = div_ceil8 (unat plen); w = (case fam of Ipv4 \<Rightarrow> 4 | Ipv6 \<Rightarrow> 16); k = min n w;
          b = take k r @ replicate (w - k) 0 in
      if length r < n then Err MpTooShort
      else Ok (\<lparr>mp_afi = fam, mp_prefix_len = plen,
                mp_address = (case fam of Ipv4 \<Rightarrow> V4 (from_be b) | Ipv6 \<Rightarrow> V6 (from_be b))\<rparr>, drop k r))"
  by (simp add: MpPrefix_parse_def fill_octets_enough Let_def split: Afi.splits)

lemma MpPrefix_parse_bytes:
  assumes "mp_prefix_ok fam p"
  shows "MpPrefix_parse B fam (mp_bytes p @ rest) = Ok (p, rest)"
proof -
  have len: "mp_encoded_len p \<le> length (octets (mp_address p))"
    using assms by (rule mp_prefix_ok_octets)
  show ?thesis
  proof (cases "mp_address p")
    case (V4 a)
    then have "take (mp_encoded_len p) (to_be 4 a) @ replicate (4 - mp_encoded_len p) 0 = to_be 4 a"
      using assms len by (intro take_to_be_pad) (simp_all add: mp_prefix_ok_def octets_def)
    then show ?thesis
      using assms len V4
      by (simp add: mp_bytes_def MpPrefix_parse_Cons mp_prefix_ok_def octets_def
          flip: mp_encoded_len_def)
  next
    case (V6 a)
    then have "take (mp_encoded_len p) (to_be 16 a) @ replicate (16 - mp_encoded_len p) 0 = to_be 16 a"
      using assms len by (intro take_to_be_pad) (simp_all add: mp_prefix_ok_def octets_def)
    then show ?thesis
      using assms len V6
      by (simp add: mp_bytes_def MpPrefix_parse_Cons mp_prefix_ok_def octets_def
          flip: mp_encoded_len_def)
  qed
qed

lemma MpPrefix_parse_ends:
  assumes "1 \<le> length buf"
  shows "(\<exists>e. MpPrefix_parse B fam buf = Err e) \<or>
         (\<exists>p buf'. MpPrefix_parse B fam buf = Ok (p, buf') \<and> length buf' < length buf)"
  using assms by (cases buf) (auto simp: MpPrefix_parse_Cons Let_def)

lemma next_hop_v4_bytes: "next_hop_ok Ipv4 nh \<Longrightarrow> next_hop_v4 B (octets nh @ rest) = Ok (nh, rest)"
  by (cases nh) (simp_all add: next_hop_ok_def next_hop_v4_def octets_def)

lemma next_hop_v6_bytes: "next_hop_ok Ipv6 nh \<Longrightarrow> next_hop_v6 B (octets nh @ rest) = Ok (nh, rest)"
  by (cases nh) (simp_all add: next_hop_ok_def next_hop_v6_def octets_def)

lemma next_hop_v4_ends:
  "4 \<le> length buf \<Longrightarrow> \<exists>x buf'. next_hop_v4 B buf = Ok (x, buf') \<and> length buf' < length buf"
  by (simp add: next_hop_v4_def get_u32_enough)

lemma next_hop_v6_ends:
  "16 \<le> length buf \<Longrightarrow> \<exists>x buf'. next_hop_v6 B buf = Ok (x, buf') \<and> length buf' < length buf"
  by (simp add: next_hop_v6_def)

end

lemma length_next_hop:
  "next_hop_ok Ipv4 nh \<Longrightarrow> length (octets nh) = 4" "next_hop_ok Ipv6 nh \<Longrightarrow> length (octets nh) = 16"
  by (cases nh; simp add: next_hop_ok_def octets_def)+

sublocale bytes_crate \<subseteq> mp_prefix: item_codec B 1 "MpPrefix_parse B fam" mp_bytes "mp_prefix_ok fam"
  for fam
  by unfold_locales
     (simp_all add: MpPrefix_parse_bytes mp_bytes_def [of _, THEN arg_cong [of _ _ length]]
        MpPrefix_parse_ends)

sublocale bytes_crate \<subseteq> hop_v4: item_codec B 4 "next_hop_v4 B" octets "next_hop_ok Ipv4"
  by unfold_locales (simp_all add: next_hop_v4_bytes length_next_hop next_hop_v4_ends)

sublocale bytes_crate \<subseteq> hop_v6: item_codec B 16 "next_hop_v6 B" octets "next_hop_ok Ipv6"
  by unfold_locales (simp_all add: next_hop_v6_bytes length_next_hop next_hop_v6_ends)

definition mp_reach_ok :: "MpReachNlri \<Rightarrow> bool" where
  "mp_reach_ok r \<longleftrightarrow> (\<forall>nh \<in> set (next_hops r). next_hop_ok (reach_afi r) nh) \<and>
     length (concat (map octets (next_hops r))) < 256 \<and>
     (\<forall>p \<in> set (reach_nlri r). mp_prefix_ok (reach_afi r) p)"

lemma foldl_append_concat: "foldl (\<lambda>b x. b @ f x) acc xs = acc @ concat (map f xs)"
  by (induction xs arbitrary: acc) simp_all

context bytes_crate
begin

lemma parse_next_hops_bytes:
  assumes "\<forall>nh \<in> set nhs. next_hop_ok fam nh"
  shows "parse_next_hops B fam (concat (map octets nhs)) = Ok nhs"
  using assms
  by (cases fam) (simp_all add: parse_next_hops_def hop_v4.loop_roundtrip hop_v6.loop_roundtrip)

lemma returns_parse_next_hops: "returns (parse_next_hops B fam nh_buf)"
  by (simp add: parse_next_hops_def hop_v4.loop_returns hop_v6.loop_returns split: Afi.splits)

lemma MpPrefix_serialize_eq:
  "mp_prefix_ok fam p \<Longrightarrow> MpPrefix_serialize B p buf = Ok (buf @ mp_bytes p)"
  using mp_prefix_ok_octets [of fam p]
  by (simp add: MpPrefix_serialize_def slice_to_def mp_bytes_def)

lemma serialize_mp_prefixes_eq:
  "\<forall>p \<in> set ps. mp_prefix_ok fam p \<Longrightarrow>
   serialize_mp_prefixes B ps buf = Ok (buf @ concat (map mp_bytes ps))"
  by (induction ps arbitrary: buf) (simp_all add: MpPrefix_serialize_eq [of fam])

lemma MpReachNlri_parse_long:
  assumes "4 \<le> length buf"
  shows "MpReachNlri_parse B buf =
    and_then (Afi_try_from (from_be (take 2 buf))) (\<lambda>fam.
    and_then (Safi_try_from (buf ! 2)) (\<lambda>sub.
      let nh_len = unat (buf ! 3); r = drop 4 buf in
      if length r < nh_len then Err MpTooShort
      else and_then (parse_next_hops B fam (take nh_len r)) (\<lambda>nhs.
        and_then (get_u8 B (drop nh_len r)) (\<lambda>(_, buf).
        and_then (while_remaining B 1 (MpPrefix_parse B fam) (Suc (length buf)) [] buf) (\<lambda>ps.
          Ok \<lparr>reach_afi = fam, reach_safi = sub, next_hops = nhs, reach_nlri = ps\<rparr>)))))"
proof -
  obtain a b s l r where "buf = a # b # s # l # r"
    using assms by (auto simp: numeral_eq_Suc Suc_le_length_iff)
  then show ?thesis
    by (simp add: MpReachNlri_parse_def Let_def numeral_2_eq_2 numeral_3_eq_3 cong: if_cong)
qed

text \<open>Once the families are known and the next hops are there, only the SNPA octet can be missing.\<close>

lemma MpReachNlri_parse_ends:
  assumes "4 \<le> length buf" and "Afi_try_from (from_be (take 2 buf)) = Ok fam"
    and "Safi_try_from (buf ! 2) = Ok sub" and "unat (buf ! 3) \<le> length (drop 4 buf)"
  shows "MpReachNlri_parse B buf \<noteq> NoFuel \<and>
    (MpReachNlri_parse B buf = Panic \<longleftrightarrow>
       length buf = 4 + unat (buf ! 3) \<and> \<not> (\<exists>e. parse_next_hops B fam (drop 4 buf) = Err e))"
proof (cases "parse_next_hops B fam (take (unat (buf ! 3)) (drop 4 buf))")
  case (Ok nhs)
  show ?thesis
  proof (cases "drop (unat (buf ! 3)) (drop 4 buf)")
    case Nil
    then show ?thesis using Ok assms by (simp add: MpReachNlri_parse_long Let_def)
  next
    case (Cons x r)
    then have "length buf \<noteq> 4 + unat (buf ! 3)" by auto
    moreover have "returns (while_remaining B 1 (MpPrefix_parse B fam) (Suc (length r)) [] r)"
      by (rule mp_prefix.loop_returns) simp
    ultimately show ?thesis
      using Ok Cons assms by (auto simp: MpReachNlri_parse_long Let_def returns_iff)
  qed
next
  case (Err e)
  then show ?thesis using assms by (auto simp: MpReachNlri_parse_long Let_def)
qed (use returns_parse_next_hops [of fam "take (unat (buf ! 3)) (drop 4 buf)"] in simp_all)

end

text \<open>The next-hop loop reads fixed-width addresses and has no error of its own.\<close>

context bytes_crate
begin

lemma while_remaining_no_Err:
  assumes "\<And>buf e. n \<le> length buf \<Longrightarrow> item buf \<noteq> Err e"
  shows "while_remaining B n item fuel xs buf \<noteq> Err e"
proof (induction fuel arbitrary: xs buf)
  case (Suc fuel)
  then show ?case using assms by (auto simp: while_remaining.simps(2) and_then_eq_Err_iff)
qed simp

lemma parse_next_hops_Ok: "\<exists>nhs. parse_next_hops B fam nh_buf = Ok nhs"
proof -
  have "parse_next_hops B fam nh_buf \<noteq> Err e" for e
    unfolding parse_next_hops_def
    by (cases fam; simp; rule while_remaining_no_Err)
       (auto dest!: next_hop_v4_ends next_hop_v6_ends)
  then show ?thesis using returns_parse_next_hops [of fam nh_buf] by (auto simp: returns_iff)
qed

lemma MpReachNlri_roundtrip:
  assumes "mp_reach_ok r"
  shows "and_then (MpReachNlri_serialize B r) (MpReachNlri_parse B) = Ok r"
proof -
  let ?fam = "reach_afi r" let ?H = "concat (map octets (next_hops r))"
  have ps: "\<forall>p \<in> set (reach_nlri r). mp_prefix_ok ?fam p"
    and nh: "parse_next_hops B ?fam ?H = Ok (next_hops r)" and small: "length ?H < 256"
    using assms by (simp_all add: mp_reach_ok_def parse_next_hops_bytes)
  show ?thesis
    using nh small mp_prefix.loop_roundtrip [OF ps]
    by (simp add: MpReachNlri_serialize_def serialize_mp_prefixes_eq [OF ps] Let_def
        foldl_append_concat MpReachNlri_parse_def)
qed

lemma returns_MpUnreachNlri_parse: "returns (MpUnreachNlri_parse B buf)"
proof (cases "length buf < 3")
  case False
  then obtain a b s r where buf: "buf = a # b # s # r"
    by (auto simp: numeral_eq_Suc not_less Suc_le_length_iff)
  have "returns (while_remaining B 1 (MpPrefix_parse B fam) (Suc (length r)) [] r)" for fam
    by (rule mp_prefix.loop_returns) simp
  moreover have "returns (Afi_try_from v)" "returns (Safi_try_from w)" for v w
    by (simp_all add: Afi_try_from_def Safi_try_from_def)
  ultimately show ?thesis
    unfolding buf by (simp add: MpUnreachNlri_parse_def returns_and_then)
qed (simp add: MpUnreachNlri_parse_def)

lemma MpUnreachNlri_roundtrip:
  assumes "\<forall>p \<in> set (withdrawn u). mp_prefix_ok (unreach_afi u) p"
  shows "and_then (MpUnreachNlri_serialize B u) (MpUnreachNlri_parse B) = Ok u"
  using mp_prefix.loop_roundtrip [OF assms]
  by (simp add: MpUnreachNlri_serialize_def serialize_mp_prefixes_eq [OF assms] Let_def
      MpUnreachNlri_parse_def)

end

section \<open>Properties\<close>

text \<open>C35: MP_REACH_NLRI survives serialization and parsing, for both address families, when the
  next hops and prefixes belong to the announced family and the next hops fit their length octet.\<close>

theorem mp_reach_roundtrip:
  assumes "bytes_crate B" and "mp_reach_ok r"
  shows "and_then (MpReachNlri_serialize B r) (MpReachNlri_parse B) = Ok r"
  using assms by (rule bytes_crate.MpReachNlri_roundtrip)

text \<open>An IPv6 announcement with one next hop and two prefixes.\<close>

definition sample_reach :: MpReachNlri where
  "sample_reach = (MpReachNlri_new Ipv6 Unicast (V6 0x20010DB8000000000000000000000001))
     \<lparr>reach_nlri := [MpPrefix_ipv6 0x20010DB8000100000000000000000000 48,
                     MpPrefix_ipv6 0xFD000000000000000000000000000000 8]\<rparr>"

theorem mp_reach_roundtrip_witness:
  "and_then (MpReachNlri_serialize documented_bytes sample_reach)
     (MpReachNlri_parse documented_bytes) = Ok sample_reach"
  by (rule mp_reach_roundtrip [OF documented_bytes_ok])
     (simp add: mp_reach_ok_def sample_reach_def MpReachNlri_new_def next_hop_ok_def octets_def
        MpPrefix_ipv6_def mp_prefix_ok_def mp_encoded_len_def div_ceil8_def)

text \<open>The exact inputs on which the MP_REACH_NLRI parser panics: both families are known and
  the attribute ends with its next hops, so that the SNPA octet, read unchecked, is missing.  It
  never runs forever.\<close>

lemma mp_reach_parse_panics_iff:
  assumes "bytes_crate B"
  shows "(MpReachNlri_parse B buf = Panic \<longleftrightarrow>
            4 \<le> length buf \<and> (\<exists>fam. Afi_try_from (from_be (take 2 buf)) = Ok fam) \<and>
            (\<exists>sub. Safi_try_from (buf ! 2) = Ok sub) \<and> length buf = 4 + unat (buf ! 3)) \<and>
         MpReachNlri_parse B buf \<noteq> NoFuel"
proof (cases "4 \<le> length buf")
  case True
  note long = bytes_crate.MpReachNlri_parse_long [OF assms True]
  consider (err) e where "MpReachNlri_parse B buf = Err e"
      "\<not> ((\<exists>fam. Afi_try_from (from_be (take 2 buf)) = Ok fam) \<and>
          (\<exists>sub. Safi_try_from (buf ! 2) = Ok sub) \<and> unat (buf ! 3) \<le> length (drop 4 buf))"
    | (ok) fam sub where "Afi_try_from (from_be (take 2 buf)) = Ok fam"
      "Safi_try_from (buf ! 2) = Ok sub" "unat (buf ! 3) \<le> length (drop 4 buf)"
    using Afi_try_from_cases [of "from_be (take 2 buf)"] Safi_try_from_cases [of "buf ! 2"]
    by (cases "unat (buf ! 3) \<le> length (drop 4 buf)") (auto simp: long Let_def)
  then show ?thesis
  proof cases
    case err
    then show ?thesis using True by auto
  next
    case ok
    from bytes_crate.MpReachNlri_parse_ends [OF assms True ok]
      bytes_crate.parse_next_hops_Ok [OF assms, of fam "drop 4 buf"] ok True
    show ?thesis by auto
  qed
next
  case False
  then show ?thesis by (simp add: MpReachNlri_parse_def bytes_crate.remaining_doc [OF assms])
qed

end
