(* ===== verification/Std_Lib.thy ===== *)
theory Std_Lib
  imports Prelude "HOL-Library.AList"
begin

text \<open>
  The parts of Rust's standard library that the routing components use: comparators and the stable
  \<^verbatim>\<open>Vec::sort_by\<close>, \<^verbatim>\<open>HashMap\<close>, the monotonic clock \<^verbatim>\<open>Instant\<close> and release-profile shifts.  The
  locale \<open>comparator\<close> is the contract that \<^verbatim>\<open>sort_by\<close> puts on its argument; the locale
  \<open>iteration\<close> is what the documentation promises of a traversal of a hash map.
\<close>

section \<open>Comparators and sorting\<close>

datatype Ordering = Less | Equal | Greater

definition cmp :: "'a::linorder \<Rightarrow> 'a \<Rightarrow> Ordering" where
  "cmp a b = (if a < b then Less else if a = b then Equal else Greater)"

text \<open>\<^verbatim>\<open>Ordering::then\<close>; \<^verbatim>\<open>then_with\<close> differs only in evaluating its argument lazily.\<close>

definition ordering_then :: "Ordering \<Rightarrow> Ordering \<Rightarrow> Ordering" where
  "ordering_then o1 o2 = (case o1 of Equal \<Rightarrow> o2 | _ \<Rightarrow> o1)"

text \<open>
  \<^verbatim>\<open>sort_by\<close> is stable, so for a total preorder its result is determined; insertion from the right
  computes it.
\<close>

primrec insert_by :: "('a \<Rightarrow> 'a \<Rightarrow> Ordering) \<Rightarrow> 'a \<Rightarrow> 'a list \<Rightarrow> 'a list" where
  "insert_by c x [] = [x]"
| "insert_by c x (y # ys) = (if c x y = Greater then y # insert_by c x ys else x # y # ys)"

definition sort_by :: "('a \<Rightarrow> 'a \<Rightarrow> Ordering) \<Rightarrow> 'a list \<Rightarrow> 'a list" where
  "sort_by c xs = foldr (insert_by c) xs []"

lemma sort_by_Nil [simp]: "sort_by c [] = []"
  by (simp add: sort_by_def)

lemma mset_insert_by [simp]: "mset (insert_by c x xs) = add_mset x (mset xs)"
  by (induction xs) simp_all

lemma mset_sort_by [simp]: "mset (sort_by c xs) = mset xs"
  by (induction xs) (simp_all add: sort_by_def)

lemma set_sort_by [simp]: "set (sort_by c xs) = set xs"
  using mset_sort_by [of c xs] by (metis set_mset_mset)

lemma sort_by_eq_Nil [simp]: "sort_by c xs = [] \<longleftrightarrow> xs = []"
  using mset_sort_by [of c xs] by (metis mset_zero_iff)

locale comparator =
  fixes c :: "'a \<Rightarrow> 'a \<Rightarrow> Ordering"
  assumes swap: "c b a = Greater \<longleftrightarrow> c a b = Less"
    and trans: "c x y \<noteq> Greater \<Longrightarrow> c y z \<noteq> Greater \<Longrightarrow> c x z \<noteq> Greater"
begin

lemma total: "c a b \<noteq> Greater \<or> c b a \<noteq> Greater"
  using swap [of a b] by auto

lemma insert_by_sorted:
  "sorted_wrt (\<lambda>a b. c a b \<noteq> Greater) xs \<Longrightarrow> sorted_wrt (\<lambda>a b. c a b \<noteq> Greater) (insert_by c x xs)"
proof (induction xs)
  case (Cons y ys)
  have "set (insert_by c x ys) = insert x (set ys)"
    by (metis mset_insert_by set_mset_add_mset_insert set_mset_mset)
  then show ?case using Cons total [of x y] trans [of x y] by auto
qed simp

lemma sort_by_sorted: "sorted_wrt (\<lambda>a b. c a b \<noteq> Greater) (sort_by c xs)"
  by (induction xs) (simp_all add: sort_by_def insert_by_sorted)

text \<open>The first element of the sorted vector is a least element.\<close>

lemma sort_by_hd:
  assumes "xs \<noteq> []"
  shows "hd (sort_by c xs) \<in> set xs"
    and "x \<in> set xs \<Longrightarrow> c (hd (sort_by c xs)) x \<noteq> Greater"
proof -
  from assms obtain y ys where s: "sort_by c xs = y # ys" by (cases "sort_by c xs") auto
  have set: "set xs = set (y # ys)" using s set_sort_by [of c xs] by simp
  then show "hd (sort_by c xs) \<in> set xs" using s by simp
  show "c (hd (sort_by c xs)) x \<noteq> Greater" if "x \<in> set xs"
    using that set s sort_by_sorted [of xs] total [of y y] by auto
qed

end

text \<open>A comparator that compares keys of a linear order meets the contract.\<close>

lemma comparator_of_key: "(\<And>a b. c a b = cmp (key a) (key b)) \<Longrightarrow> comparator c"
  by unfold_locales (auto simp: cmp_def split: if_splits)

section \<open>Hash maps\<close>

text \<open>
  A \<^verbatim>\<open>HashMap\<close> is an association list with distinct keys.  The order in which Rust traverses the
  map is unspecified: every traversal goes through a function \<open>iter\<close> of which only the law of
  the locale \<open>iteration\<close> is known.
\<close>

type_synonym ('k, 'v) HashMap = "('k \<times> 'v) list"

abbreviation hm_get :: "('k, 'v) HashMap \<Rightarrow> 'k \<Rightarrow> 'v option" where
  "hm_get \<equiv> map_of"

abbreviation hm_insert :: "'k \<Rightarrow> 'v \<Rightarrow> ('k, 'v) HashMap \<Rightarrow> ('k, 'v) HashMap" where
  "hm_insert \<equiv> AList.update"

abbreviation hm_remove :: "'k \<Rightarrow> ('k, 'v) HashMap \<Rightarrow> ('k, 'v) HashMap" where
  "hm_remove \<equiv> AList.delete"

definition hm_ok :: "('k, 'v) HashMap \<Rightarrow> bool" where
  "hm_ok m \<longleftrightarrow> distinct (map fst m)"

text \<open>\<^verbatim>\<open>values_mut\<close> with a function applied to each value, and \<^verbatim>\<open>retain\<close>.\<close>

definition hm_map_values :: "('v \<Rightarrow> 'w) \<Rightarrow> ('k, 'v) HashMap \<Rightarrow> ('k, 'w) HashMap" where
  "hm_map_values f m = map (\<lambda>(k, v). (k, f v)) m"

definition hm_retain :: "('k \<Rightarrow> bool) \<Rightarrow> ('k, 'v) HashMap \<Rightarrow> ('k, 'v) HashMap" where
  "hm_retain P m = filter (\<lambda>(k, v). P k) m"

lemma hm_ok_Nil [simp]: "hm_ok []"
  by (simp add: hm_ok_def)

lemma hm_ok_insert [simp]: "hm_ok m \<Longrightarrow> hm_ok (hm_insert k v m)"
  by (simp add: hm_ok_def distinct_update)

lemma hm_ok_remove [simp]: "hm_ok m \<Longrightarrow> hm_ok (hm_remove k m)"
  by (simp add: hm_ok_def distinct_delete)

lemma hm_get_insert: "hm_get (hm_insert k v m) = (hm_get m)(k \<mapsto> v)"
  by (rule update_conv')

lemma hm_get_remove: "hm_get (hm_remove k m) = (hm_get m)(k := None)"
  by (rule delete_conv')

lemma hm_ok_map_values [simp]: "hm_ok (hm_map_values f m) = hm_ok m"
  by (simp add: hm_ok_def hm_map_values_def comp_def case_prod_beta)

lemma hm_get_map_values: "hm_get (hm_map_values f m) k = map_option f (hm_get m k)"
  by (induction m) (auto simp: hm_map_values_def)

lemma hm_ok_retain [simp]: "hm_ok m \<Longrightarrow> hm_ok (hm_retain P m)"
  by (simp add: hm_ok_def hm_retain_def distinct_map_filter)

lemma hm_get_retain: "hm_get (hm_retain P m) k = (if P k then hm_get m k else None)"
  by (induction m) (auto simp: hm_retain_def)

lemma hm_in_set: "hm_ok m \<Longrightarrow> (k, v) \<in> set m \<longleftrightarrow> hm_get m k = Some v"
  by (simp add: hm_ok_def)

locale iteration =
  fixes iter :: "('k, 'v) HashMap \<Rightarrow> ('k \<times> 'v) list"
  assumes visits: "mset (iter m) = mset m"
begin

lemma set_iter [simp]: "set (iter m) = set m"
  by (metis visits set_mset_mset)

lemma length_iter [simp]: "length (iter m) = length m"
  by (metis visits size_mset)

lemma hm_get_iter:
  assumes "hm_ok m"
  shows "hm_get (iter m) k = hm_get m k"
proof -
  have "mset (map fst (iter m)) = mset (map fst m)"
    by (simp only: mset_map visits)
  then have d: "hm_ok (iter m)"
    using assms unfolding hm_ok_def by (subst mset_eq_imp_distinct_iff)
  have "(\<exists>v. hm_get (iter m) k = Some v \<and> hm_get m k = Some v) \<or>
      (\<forall>v. hm_get (iter m) k \<noteq> Some v \<and> hm_get m k \<noteq> Some v)"
    by (simp only: flip: hm_in_set [OF d] hm_in_set [OF assms]) (simp only: set_iter, blast)
  then show ?thesis by (metis not_None_eq)
qed

end

section \<open>The clock\<close>

text \<open>
  An \<^verbatim>\<open>Instant\<close> counts nanoseconds, a \<^verbatim>\<open>Duration\<close> too.  A clock is the sequence of its future
  readings; \<^verbatim>\<open>Instant::now\<close> takes the first of them.  \<^verbatim>\<open>elapsed\<close> reads the clock and saturates at
  zero.
\<close>

type_synonym Instant = nat
type_synonym Duration = nat
type_synonym clock = "nat \<Rightarrow> Instant"

definition now :: "clock \<Rightarrow> Instant \<times> clock" where
  "now c = (c 0, \<lambda>i. c (Suc i))"

definition elapsed :: "Instant \<Rightarrow> clock \<Rightarrow> Duration \<times> clock" where
  "elapsed t c = (let (n, c) = now c in (n - t, c))"

definition from_secs :: "nat \<Rightarrow> Duration" where
  "from_secs s = s * 1000000000"

section \<open>Shifts in the release profile\<close>

text \<open>
  Without overflow checks a shift amount is reduced modulo the width of the shifted \<^verbatim>\<open>u32\<close>.
\<close>

definition shr32 :: "u32 \<Rightarrow> nat \<Rightarrow> u32" where
  "shr32 w n = drop_bit (n mod 32) w"

definition shl32 :: "u32 \<Rightarrow> nat \<Rightarrow> u32" where
  "shl32 w n = push_bit (n mod 32) w"

text \<open>Two addresses agree on their leading \<open>n\<close> bits: the meaning of an IPv4 prefix.\<close>

definition same_network :: "nat \<Rightarrow> u32 \<Rightarrow> u32 \<Rightarrow> bool" where
  "same_network n a b \<longleftrightarrow> (\<forall>i<32. 32 - n \<le> i \<longrightarrow> bit a i = bit b i)"

lemma same_network_shr:
  assumes "0 < n" and "n \<le> 32"
  shows "shr32 a (32 - n) = shr32 b (32 - n) \<longleftrightarrow> same_network n a b"
proof
  assume eq: "shr32 a (32 - n) = shr32 b (32 - n)"
  show "same_network n a b"
    unfolding same_network_def
  proof (intro allI impI)
    fix i assume "i < 32" "32 - n \<le> i"
    then have "bit a i = bit (shr32 a (32 - n)) (i - (32 - n))"
      and "bit b i = bit (shr32 b (32 - n)) (i - (32 - n))"
      using assms by (simp_all add: shr32_def bit_simps)
    then show "bit a i = bit b i" by (simp add: eq)
  qed
next
  assume same: "same_network n a b"
  have "bit (shr32 a (32 - n)) i = bit (shr32 b (32 - n)) i" for i
  proof (cases "32 - n + i < 32")
    case True
    then show ?thesis using same assms by (simp add: shr32_def same_network_def bit_simps)
  next
    case False
    then show ?thesis
      using assms by (auto simp: shr32_def bit_simps dest: bit_imp_le_length)
  qed
  then show "shr32 a (32 - n) = shr32 b (32 - n)" by (intro bit_word_eqI) simp
qed

lemma shl_shr_eq_iff: "shl32 (shr32 a n) n = shl32 (shr32 b n) n \<longleftrightarrow> shr32 a n = shr32 b n"
proof
  assume eq: "shl32 (shr32 a n) n = shl32 (shr32 b n) n"
  have "shr32 (shl32 (shr32 w n) n) n = shr32 w n" for w
    by (intro bit_word_eqI) (auto simp: shr32_def shl32_def bit_simps dest: bit_imp_le_length)
  then show "shr32 a n = shr32 b n" using eq by metis
qed simp

lemma same_network_zero [simp]: "same_network 0 a b"
  by (simp add: same_network_def)

lemma same_network_refl [simp]: "same_network n a a"
  by (simp add: same_network_def)

section \<open>Transition systems\<close>

text \<open>
  The routing table shared by the sessions, and the system of sessions itself, are state machines:
  an invariant that holds initially and is kept by every step holds in every reachable state.
\<close>

locale state_machine =
  fixes init :: "'s \<Rightarrow> bool" and step :: "'s \<Rightarrow> 's \<Rightarrow> bool" and inv :: "'s \<Rightarrow> bool"
  assumes init_inv: "init s \<Longrightarrow> inv s"
    and step_inv: "inv s \<Longrightarrow> step s s' \<Longrightarrow> inv s'"
begin

lemma steps_inv: "step\<^sup>*\<^sup>* s s' \<Longrightarrow> inv s \<Longrightarrow> inv s'"
  by (induction rule: rtranclp_induct) (auto intro: step_inv)

lemma reachable_inv: "init s \<Longrightarrow> step\<^sup>*\<^sup>* s s' \<Longrightarrow> inv s'"
  using steps_inv init_inv by blast

end

text \<open>
  A refinement: while its invariant holds, every step of the machine is matched, under the abstraction
  \<open>abs\<close>, by steps of an abstract machine.
\<close>

locale simulation = state_machine init step inv
  for init :: "'s \<Rightarrow> bool" and step :: "'s \<Rightarrow> 's \<Rightarrow> bool" and inv :: "'s \<Rightarrow> bool" +
  fixes spec :: "'a \<Rightarrow> 'a \<Rightarrow> bool" and abs :: "'s \<Rightarrow> 'a"
  assumes step_simulated: "inv s \<Longrightarrow> step s s' \<Longrightarrow> spec\<^sup>*\<^sup>* (abs s) (abs s')"
begin

lemma run_simulated: "step\<^sup>*\<^sup>* s s' \<Longrightarrow> init s \<Longrightarrow> spec\<^sup>*\<^sup>* (abs s) (abs s')"
proof (induction rule: rtranclp_induct)
  case (step t u)
  then have "inv t" using reachable_inv by blast
  with step show ?case by (meson rtranclp_trans step_simulated)
qed simp

end

end
