(* ===== verification/Rpki.thy ===== *)
theory Rpki
  imports Std_Lib
begin

text \<open>
  Route origin validation, \<^verbatim>\<open>src/rpki.rs\<close>: the ROA table, the validation state of a route and the
  operating mode.
\<close>

record Roa =
  roa_prefix :: Ipv4Addr
  roa_prefix_len :: u8
  max_length :: u8
  origin_as :: u32

definition Roa_new :: "Ipv4Addr \<Rightarrow> u8 \<Rightarrow> u8 \<Rightarrow> u32 \<Rightarrow> Roa" where
  "Roa_new p l m asn = \<lparr>roa_prefix = p, roa_prefix_len = l, max_length = m, origin_as = asn\<rparr>"

text \<open>\<^verbatim>\<open>32 - self.prefix_len\<close> is computed in \<^verbatim>\<open>u8\<close> and wraps.\<close>

definition covers :: "Roa \<Rightarrow> Ipv4Addr \<Rightarrow> u8 \<Rightarrow> bool" where
  "covers roa addr len =
     (if len < roa_prefix_len roa \<or> max_length roa < len then False
      else
        let bits = unat (32 - roa_prefix_len roa);
            roa_net = shl32 (shr32 (roa_prefix roa) bits) bits;
            addr_net = shl32 (shr32 addr bits) bits
        in roa_net = addr_net)"

datatype RovState = Valid | Invalid | NotFound

definition RovState_to_string :: "RovState \<Rightarrow> string" where
  "RovState_to_string s = (case s of Valid \<Rightarrow> ''valid'' | Invalid \<Rightarrow> ''invalid'' | NotFound \<Rightarrow> ''not-found'')"

datatype RpkiMode = Disabled | Loose | Strict

definition RpkiMode_to_string :: "RpkiMode \<Rightarrow> string" where
  "RpkiMode_to_string m = (case m of Disabled \<Rightarrow> ''disabled'' | Loose \<Rightarrow> ''loose'' | Strict \<Rightarrow> ''strict'')"

record RpkiValidator =
  rpki_mode :: RpkiMode
  roas :: "Roa list"

definition RpkiValidator_new :: "RpkiMode \<Rightarrow> RpkiValidator" where
  "RpkiValidator_new mode = \<lparr>rpki_mode = mode, roas = []\<rparr>"

definition RpkiValidator_default :: RpkiValidator where
  "RpkiValidator_default = RpkiValidator_new Disabled"

definition add_roa :: "Roa \<Rightarrow> RpkiValidator \<Rightarrow> RpkiValidator" where
  "add_roa roa v = v\<lparr>roas := roas v @ [roa]\<rparr>"

definition validate_route :: "RpkiValidator \<Rightarrow> Ipv4Addr \<Rightarrow> u8 \<Rightarrow> u32 \<Rightarrow> RovState" where
  "validate_route v prefix len asn =
     (if rpki_mode v = Disabled then NotFound
      else
        let covering = filter (\<lambda>r. covers r prefix len) (roas v)
        in if covering = [] then NotFound
           else if \<exists>r \<in> set covering. origin_as r = asn then Valid
           else Invalid)"

definition should_reject :: "RpkiValidator \<Rightarrow> RovState \<Rightarrow> bool" where
  "should_reject v state \<longleftrightarrow> rpki_mode v = Strict \<and> state = Invalid"

section \<open>Lemmas\<close>

lemma unat_32_minus: "unat l \<le> 32 \<Longrightarrow> unat (32 - l :: u8) = 32 - unat l"
  by (simp add: unat_sub word_le_nat_alt)

text \<open>
  The decision as the comment at the head of \<^verbatim>\<open>rpki.rs\<close> (and RFC 6811) describes it.  A ROA is \<^emph>\<open>about\<close> a route that
  lies in its network, however long its prefix; the route is valid when such a ROA names its origin and allows
  its length, invalid when there are such ROAs and none of them does, and not found when there is none.
\<close>

definition roa_about :: "Roa \<Rightarrow> Ipv4Addr \<Rightarrow> u8 \<Rightarrow> bool" where
  "roa_about roa addr len \<longleftrightarrow> roa_prefix_len roa \<le> len \<and>
     same_network (unat (roa_prefix_len roa)) (roa_prefix roa) addr"

definition documented_state :: "Roa list \<Rightarrow> Ipv4Addr \<Rightarrow> u8 \<Rightarrow> u32 \<Rightarrow> RovState" where
  "documented_state table addr len asn =
     (if \<exists>r \<in> set table. roa_about r addr len \<and> len \<le> max_length r \<and> origin_as r = asn then Valid
      else if \<exists>r \<in> set table. roa_about r addr len then Invalid
      else NotFound)"

text \<open>The ROAs about the route all have a maximal length that the route exceeds.\<close>

definition beyond_max_length :: "Roa list \<Rightarrow> Ipv4Addr \<Rightarrow> u8 \<Rightarrow> bool" where
  "beyond_max_length table addr len \<longleftrightarrow> (\<exists>r \<in> set table. roa_about r addr len) \<and>
     (\<forall>r \<in> set table. roa_about r addr len \<longrightarrow> max_length r < len)"

lemma covers_iff:
  assumes "0 < unat (roa_prefix_len roa)" and "unat (roa_prefix_len roa) \<le> 32"
  shows "covers roa addr len \<longleftrightarrow> roa_about roa addr len \<and> len \<le> max_length roa"
  using assms
  by (auto simp: covers_def roa_about_def Let_def unat_32_minus shl_shr_eq_iff same_network_shr)

lemma validate_route_iff:
  assumes "\<forall>r \<in> set (roas v). 0 < unat (roa_prefix_len r) \<and> unat (roa_prefix_len r) \<le> 32"
  shows "validate_route v addr len asn =
     (if rpki_mode v = Disabled \<or> beyond_max_length (roas v) addr len then NotFound
      else documented_state (roas v) addr len asn)"
proof -
  have "covers r addr len \<longleftrightarrow> roa_about r addr len \<and> len \<le> max_length r" if "r \<in> set (roas v)" for r
    using assms that by (simp add: covers_iff)
  then show ?thesis
    by (auto simp: validate_route_def documented_state_def beyond_max_length_def Let_def filter_empty_conv not_less)
qed

section \<open>Properties\<close>

text \<open>C29: origin validation decides as documented, over a ROA table whose entries have prefix lengths from 1 to
  32, for a route whose length some ROA about it allows or that no ROA is about.  With validation disabled the
  route is not found; otherwise it is valid when a ROA about it names its origin AS and allows its length,
  invalid when there are ROAs about it but none of that kind, and not found when there is none; and it is
  rejected exactly when it is invalid and the mode is strict.\<close>

theorem rov_decision:
  assumes "\<forall>r \<in> set (roas v). 0 < unat (roa_prefix_len r) \<and> unat (roa_prefix_len r) \<le> 32"
    and "\<not> beyond_max_length (roas v) addr len"
  shows "validate_route v addr len asn =
           (if rpki_mode v = Disabled then NotFound else documented_state (roas v) addr len asn) \<and>
         (should_reject v (validate_route v addr len asn) \<longleftrightarrow>
            rpki_mode v = Strict \<and> documented_state (roas v) addr len asn = Invalid)"
  using assms(2) by (auto simp: validate_route_iff [OF assms(1)] should_reject_def)

definition sample_validator :: RpkiValidator where
  "sample_validator = add_roa (Roa_new 0x0A000000 8 24 65001) (RpkiValidator_new Strict)"

lemma same_network_10: "same_network 8 0x0A000000 0x0A010000"
  by (subst same_network_shr [symmetric]) (simp_all add: shr32_def)

theorem rov_decision_witness:
  "validate_route sample_validator 0x0A010000 16 65001 = Valid \<and>
   should_reject sample_validator (validate_route sample_validator 0x0A010000 16 65002)"
  using rov_decision [of sample_validator "0x0A010000" 16 65001] rov_decision [of sample_validator "0x0A010000" 16 65002]
  by (simp add: sample_validator_def add_roa_def RpkiValidator_new_def Roa_new_def roa_about_def
      beyond_max_length_def documented_state_def should_reject_def same_network_10)

text \<open>C30: the maximal length of a ROA is not enforced.  A route that is longer than every ROA about it allows is
  invalid by the documentation and RFC 6811, and a validator in strict mode should reject it; it is not found,
  whatever its origin AS, and accepted in every mode.  So anybody can announce the more specific prefixes of a
  network that a ROA protects.\<close>

theorem max_length_not_enforced:
  assumes "\<forall>r \<in> set (roas v). 0 < unat (roa_prefix_len r) \<and> unat (roa_prefix_len r) \<le> 32"
    and "beyond_max_length (roas v) addr len"
  shows "documented_state (roas v) addr len asn = Invalid \<and> validate_route v addr len asn = NotFound \<and>
         \<not> should_reject v (validate_route v addr len asn)"
proof -
  have "documented_state (roas v) addr len asn = Invalid"
    using assms(2) by (fastforce simp: documented_state_def beyond_max_length_def)
  then show ?thesis
    using assms(2) by (simp add: validate_route_iff [OF assms(1)] should_reject_def)
qed

theorem max_length_not_enforced_witness:
  "validate_route sample_validator 0x0A010000 25 65002 = NotFound \<and>
   \<not> should_reject sample_validator (validate_route sample_validator 0x0A010000 25 65002)"
  using max_length_not_enforced [of sample_validator "0x0A010000" 25 65002]
  by (simp add: sample_validator_def add_roa_def RpkiValidator_new_def Roa_new_def roa_about_def
      beyond_max_length_def should_reject_def same_network_10)

text \<open>A ROA for the default route covers only routes whose network address is its own, not every
  route: the shift by 32 bits that should clear both addresses leaves them unchanged.\<close>

lemma roa_default_route:
  assumes "roa_prefix_len roa = 0"
  shows "covers roa addr len \<longleftrightarrow> len \<le> max_length roa \<and> addr = roa_prefix roa"
  using assms by (auto simp: covers_def Let_def shr32_def shl32_def not_less)

end
