(* ===== verification/Dampening.thy ===== *)
theory Dampening
  imports Std_Lib Complex_Main
begin

text \<open>
  Route flap dampening, \<^verbatim>\<open>src/dampening.rs\<close>.  The penalties are \<^verbatim>\<open>f64\<close> values.  Rust leaves the
  precision of \<^verbatim>\<open>powf\<close> unspecified, so the floating-point operations are the fields of a record
  \<open>F\<close>, over a type of values of its own; the locale \<open>f64_laws\<close> states the few
  IEEE-754 facts that the properties rest on, and \<open>real_f64\<close> is an instance on the reals.  The clock
  is threaded through the operations, one reading for each \<^verbatim>\<open>Instant::now\<close> and \<^verbatim>\<open>elapsed\<close>.
\<close>

section \<open>Floating point\<close>

record 'f f64_ops =
  f_lit :: "nat \<Rightarrow> 'f"
  f_half :: 'f
  f_add :: "'f \<Rightarrow> 'f \<Rightarrow> 'f"
  f_mul :: "'f \<Rightarrow> 'f \<Rightarrow> 'f"
  f_div :: "'f \<Rightarrow> 'f \<Rightarrow> 'f"
  f_powf :: "'f \<Rightarrow> 'f \<Rightarrow> 'f"
  f_lt :: "'f \<Rightarrow> 'f \<Rightarrow> bool"
  f_le :: "'f \<Rightarrow> 'f \<Rightarrow> bool"
  f_is_finite :: "'f \<Rightarrow> bool"
  as_secs_f64 :: "Duration \<Rightarrow> 'f"

section \<open>State\<close>

record PrefixKey =
  key_address :: Ipv4Addr
  key_prefix_len :: u8

record 'f PrefixDampening =
  penalty :: 'f
  suppressed :: bool
  suppressed_at :: "Instant option"
  last_decay :: Instant
  suppress_count :: u32

record 'f DampeningConfig =
  penalty_per_flap :: 'f
  suppress_limit :: 'f
  reuse_limit :: 'f
  half_life_secs :: 'f
  max_suppress_time :: Duration

record 'f DampeningTable =
  damp_state :: "(SocketAddr \<times> PrefixKey, 'f PrefixDampening) HashMap"
  damp_config :: "'f DampeningConfig"

definition PrefixDampening_new :: "'f f64_ops \<Rightarrow> clock \<Rightarrow> 'f PrefixDampening \<times> clock" where
  "PrefixDampening_new F c =
     (let (t, c) = now c in
      (\<lparr>penalty = f_lit F 0, suppressed = False, suppressed_at = None, last_decay = t,
        suppress_count = 0\<rparr>, c))"

definition decay ::
    "'f f64_ops \<Rightarrow> 'f \<Rightarrow> 'f PrefixDampening \<Rightarrow> clock \<Rightarrow> 'f PrefixDampening \<times> clock" where
  "decay F half_life e c =
     (let (d, c) = elapsed (last_decay e) c; el = as_secs_f64 F d in
      if f_lt F (f_lit F 0) el then
        let decay_factor = f_powf F (f_half F) (f_div F el half_life);
            (t, c) = now c
        in (e\<lparr>penalty := f_mul F (penalty e) decay_factor, last_decay := t\<rparr>, c)
      else (e, c))"

definition DampeningConfig_default :: "'f f64_ops \<Rightarrow> 'f DampeningConfig" where
  "DampeningConfig_default F =
     \<lparr>penalty_per_flap = f_lit F 1000, suppress_limit = f_lit F 2000, reuse_limit = f_lit F 750,
      half_life_secs = f_lit F 900, max_suppress_time = from_secs 3600\<rparr>"

definition DampeningTable_new :: "'f DampeningConfig \<Rightarrow> 'f DampeningTable" where
  "DampeningTable_new config = \<lparr>damp_state = [], damp_config = config\<rparr>"

section \<open>Operations\<close>

text \<open>\<^verbatim>\<open>entry(key).or_insert_with(PrefixDampening::new)\<close>.\<close>

definition entry_or_new ::
    "'f f64_ops \<Rightarrow> SocketAddr \<times> PrefixKey \<Rightarrow> 'f DampeningTable \<Rightarrow> clock \<Rightarrow>
     'f PrefixDampening \<times> clock" where
  "entry_or_new F k t c =
     (case hm_get (damp_state t) k of Some e \<Rightarrow> (e, c) | None \<Rightarrow> PrefixDampening_new F c)"

definition put_entry ::
    "SocketAddr \<times> PrefixKey \<Rightarrow> 'f PrefixDampening \<Rightarrow> 'f DampeningTable \<Rightarrow> 'f DampeningTable" where
  "put_entry k e t = t\<lparr>damp_state := hm_insert k e (damp_state t)\<rparr>"

definition record_withdrawal ::
    "'f f64_ops \<Rightarrow> SocketAddr \<Rightarrow> PrefixKey \<Rightarrow> 'f DampeningTable \<Rightarrow> clock \<Rightarrow>
     bool \<times> 'f DampeningTable \<times> clock" where
  "record_withdrawal F peer prefix t c =
     (let cfg = damp_config t;
          (e, c) = entry_or_new F (peer, prefix) t c;
          (e, c) = decay F (half_life_secs cfg) e c;
          e = e\<lparr>penalty := f_add F (penalty e) (penalty_per_flap cfg)\<rparr>
      in if \<not> suppressed e \<and> f_le F (suppress_limit cfg) (penalty e) then
           let (n, c) = now c;
               e = e\<lparr>suppressed := True, suppressed_at := Some n,
                     suppress_count := suppress_count e + 1\<rparr>
           in (True, put_entry (peer, prefix) e t, c)
         else (suppressed e, put_entry (peer, prefix) e t, c))"

definition check_advertisement ::
    "'f f64_ops \<Rightarrow> SocketAddr \<Rightarrow> PrefixKey \<Rightarrow> 'f DampeningTable \<Rightarrow> clock \<Rightarrow>
     bool \<times> 'f DampeningTable \<times> clock" where
  "check_advertisement F peer prefix t c =
     (let cfg = damp_config t in
      case hm_get (damp_state t) (peer, prefix) of
        None \<Rightarrow> (False, t, c)
      | Some e \<Rightarrow>
          let (e, c) = decay F (half_life_secs cfg) e c;
              (over, c) = (case suppressed_at e of
                  None \<Rightarrow> (False, c)
                | Some since \<Rightarrow> let (d, c) = elapsed since c in (max_suppress_time cfg \<le> d, c))
          in if over then
               (False, put_entry (peer, prefix) (e\<lparr>suppressed := False, suppressed_at := None\<rparr>) t, c)
             else
               let e = (if suppressed e \<and> f_lt F (penalty e) (reuse_limit cfg)
                        then e\<lparr>suppressed := False, suppressed_at := None\<rparr> else e)
               in (suppressed e, put_entry (peer, prefix) e t, c))"

definition current_penalty ::
    "'f f64_ops \<Rightarrow> SocketAddr \<Rightarrow> PrefixKey \<Rightarrow> 'f DampeningTable \<Rightarrow> clock \<Rightarrow>
     'f \<times> 'f DampeningTable \<times> clock" where
  "current_penalty F peer prefix t c =
     (let half_life = half_life_secs (damp_config t);
          (e, c) = entry_or_new F (peer, prefix) t c;
          (e, c) = decay F half_life e c
      in (penalty e, put_entry (peer, prefix) e t, c))"

definition is_suppressed :: "SocketAddr \<Rightarrow> PrefixKey \<Rightarrow> 'f DampeningTable \<Rightarrow> bool" where
  "is_suppressed peer prefix t =
     (case hm_get (damp_state t) (peer, prefix) of Some e \<Rightarrow> suppressed e | None \<Rightarrow> False)"

definition suppressed_count :: "'f DampeningTable \<Rightarrow> usize" where
  "suppressed_count t = length (filter (\<lambda>(k, e). suppressed e) (damp_state t))"

definition damp_remove_peer :: "SocketAddr \<Rightarrow> 'f DampeningTable \<Rightarrow> 'f DampeningTable" where
  "damp_remove_peer peer t =
     t\<lparr>damp_state := hm_retain (\<lambda>(p, _). p \<noteq> peer) (damp_state t)\<rparr>"

section \<open>Laws of floating point\<close>

text \<open>
  Facts of IEEE-754 double precision: integers up to \<open>2 ^ 53\<close> are exact, one half to a non-negative
  power lies between zero and one, and scaling a finite non-negative number by such a factor neither
  raises it nor makes it negative.
\<close>

locale f64_laws =
  fixes F :: "'f f64_ops"
  assumes lit_le: "a \<le> 2 ^ 53 \<Longrightarrow> b \<le> 2 ^ 53 \<Longrightarrow> f_le F (f_lit F a) (f_lit F b) \<longleftrightarrow> a \<le> b"
    and lit_lt: "a \<le> 2 ^ 53 \<Longrightarrow> b \<le> 2 ^ 53 \<Longrightarrow> f_lt F (f_lit F a) (f_lit F b) \<longleftrightarrow> a < b"
    and lit_add: "a + b \<le> 2 ^ 53 \<Longrightarrow> f_add F (f_lit F a) (f_lit F b) = f_lit F (a + b)"
    and secs_zero: "as_secs_f64 F 0 = f_lit F 0"
    and div_secs: "f_lt F (f_lit F 0) y \<Longrightarrow> f_le F (f_lit F 0) (f_div F (as_secs_f64 F d) y)"
    and powf_half: "f_le F (f_lit F 0) x \<Longrightarrow>
      f_le F (f_lit F 0) (f_powf F (f_half F) x) \<and> f_le F (f_powf F (f_half F) x) (f_lit F 1)"
    and mul_unit: "f_is_finite F p \<Longrightarrow> f_le F (f_lit F 0) p \<Longrightarrow> f_le F (f_lit F 0) x \<Longrightarrow>
      f_le F x (f_lit F 1) \<Longrightarrow> f_le F (f_lit F 0) (f_mul F p x) \<and> f_le F (f_mul F p x) p"
    and le_refl: "f_is_finite F p \<Longrightarrow> f_le F p p"

definition real_f64 :: "real f64_ops" where
  "real_f64 = \<lparr>f_lit = real, f_half = 1 / 2, f_add = (+), f_mul = (*), f_div = (/), f_powf = (powr),
     f_lt = (<), f_le = (\<le>), f_is_finite = (\<lambda>_. True), as_secs_f64 = (\<lambda>d. real d / 1000000000)\<rparr>"

interpretation real: f64_laws real_f64
  by unfold_locales
     (auto simp: real_f64_def powr_le1 mult_left_le)

section \<open>The entry invariant and the engine's contract\<close>

text \<open>An entry remembers when it was suppressed exactly while it is suppressed.\<close>

definition entry_ok :: "'f PrefixDampening \<Rightarrow> bool" where
  "entry_ok e \<longleftrightarrow> (suppressed e \<longleftrightarrow> suppressed_at e \<noteq> None)"

definition damp_ok :: "'f DampeningTable \<Rightarrow> bool" where
  "damp_ok t \<longleftrightarrow> hm_ok (damp_state t) \<and> (\<forall>(k, e) \<in> set (damp_state t). entry_ok e)"

lemma damp_ok_get: "damp_ok t \<Longrightarrow> hm_get (damp_state t) k = Some e \<Longrightarrow> entry_ok e"
  by (auto simp: damp_ok_def dest: map_of_SomeD)

lemma damp_ok_new [simp]: "damp_ok (DampeningTable_new config)"
  by (simp add: damp_ok_def DampeningTable_new_def)

lemma damp_ok_put: "damp_ok t \<Longrightarrow> entry_ok e \<Longrightarrow> damp_ok (put_entry k e t)"
proof -
  assume t: "damp_ok t" and e: "entry_ok e"
  have "(k', e') \<in> set (hm_insert k e (damp_state t)) \<Longrightarrow> entry_ok e'" for k' e'
    using t e
    by (auto simp: damp_ok_def hm_in_set hm_get_insert split: if_splits)
  with t show ?thesis by (auto simp: damp_ok_def put_entry_def)
qed

lemma get_put_entry [simp]:
  "hm_get (damp_state (put_entry k e t)) k' = (if k' = k then Some e else hm_get (damp_state t) k')"
  by (simp add: put_entry_def hm_get_insert)

lemma config_put_entry [simp]: "damp_config (put_entry k e t) = damp_config t"
  by (simp add: put_entry_def)

lemma decay_keeps [simp]:
  "suppressed (fst (decay F h e c)) = suppressed e"
  "suppressed_at (fst (decay F h e c)) = suppressed_at e"
  by (simp_all add: decay_def Let_def split: prod.splits)

lemma decay_pair:
  "decay F h e c = (e', c') \<Longrightarrow> suppressed e' = suppressed e \<and> suppressed_at e' = suppressed_at e"
  using decay_keeps [of F h e c] by simp

lemma entry_or_new_keeps:
  "damp_ok t \<Longrightarrow> entry_ok (fst (entry_or_new F k t c))"
  "suppressed (fst (entry_or_new F (peer, prefix) t c)) = is_suppressed peer prefix t"
  by (auto simp: entry_or_new_def is_suppressed_def PrefixDampening_new_def entry_ok_def
      dest: damp_ok_get split: option.splits prod.splits)

text \<open>The entry that a withdrawal sees: decayed, with the penalty of one more flap.\<close>

definition flapped ::
    "'f f64_ops \<Rightarrow> SocketAddr \<Rightarrow> PrefixKey \<Rightarrow> 'f DampeningTable \<Rightarrow> clock \<Rightarrow> 'f PrefixDampening" where
  "flapped F peer prefix t c =
     (let (e, c) = entry_or_new F (peer, prefix) t c;
          (e, c) = decay F (half_life_secs (damp_config t)) e c
      in e\<lparr>penalty := f_add F (penalty e) (penalty_per_flap (damp_config t))\<rparr>)"

lemma flapped_suppressed:
  "suppressed (flapped F peer prefix t c) = is_suppressed peer prefix t"
  "damp_ok t \<Longrightarrow> entry_ok (flapped F peer prefix t c)"
  using entry_or_new_keeps(1) [of t F "(peer, prefix)" c] entry_or_new_keeps(2) [of F peer prefix t c]
  by (auto simp: flapped_def Let_def entry_ok_def split: prod.splits dest!: decay_pair)

text \<open>A withdrawal stores that entry, suppressed when it was so before or when the limit is reached.\<close>

lemma record_withdrawal_cases:
  assumes "record_withdrawal F peer prefix t c = (b, t', c')"
  shows "b \<longleftrightarrow> is_suppressed peer prefix t \<or>
           f_le F (suppress_limit (damp_config t)) (penalty (flapped F peer prefix t c))"
    and "\<exists>e n. t' = put_entry (peer, prefix) e t \<and> penalty e = penalty (flapped F peer prefix t c) \<and>
           suppressed e = b \<and>
           (e = flapped F peer prefix t c \<or>
            e = (flapped F peer prefix t c)\<lparr>suppressed := True, suppressed_at := Some n,
                  suppress_count := suppress_count (flapped F peer prefix t c) + 1\<rparr>)"
  using assms flapped_suppressed(1) [of F peer prefix t c]
  by (auto simp: record_withdrawal_def flapped_def Let_def split: prod.splits if_splits)

locale dampening_engine =
  fixes inv :: "'t \<Rightarrow> bool"
    and withdraw :: "SocketAddr \<Rightarrow> PrefixKey \<Rightarrow> 't \<Rightarrow> clock \<Rightarrow> bool \<times> 't \<times> clock"
    and advertise :: "SocketAddr \<Rightarrow> PrefixKey \<Rightarrow> 't \<Rightarrow> clock \<Rightarrow> bool \<times> 't \<times> clock"
    and forget :: "SocketAddr \<Rightarrow> 't \<Rightarrow> 't"
    and held :: "SocketAddr \<Rightarrow> PrefixKey \<Rightarrow> 't \<Rightarrow> bool"
  assumes withdraw_inv: "inv t \<Longrightarrow> withdraw p k t c = (b, t', c') \<Longrightarrow> inv t'"
    and advertise_inv: "inv t \<Longrightarrow> advertise p k t c = (b, t', c') \<Longrightarrow> inv t'"
    and forget_inv: "inv t \<Longrightarrow> inv (forget p t)"
    and advertise_held: "inv t \<Longrightarrow> advertise p k t c = (b, t', c') \<Longrightarrow>
      (held p k t' \<longleftrightarrow> b) \<and> (b \<longrightarrow> held p k t)"
    and forget_held: "\<not> held p k (forget p t)"
begin

lemma advertise_fresh:
  "inv t \<Longrightarrow> \<not> held p k t \<Longrightarrow> \<not> fst (advertise p k t c)"
  using advertise_held [of t p k c] by (cases "advertise p k t c") auto

lemma forget_then_advertise: "inv t \<Longrightarrow> \<not> fst (advertise p k (forget p t) c)"
  by (rule advertise_fresh) (simp_all add: forget_inv forget_held)

end

text \<open>The advertisement check stores the decayed entry, released or not.\<close>

lemma check_advertisement_cases:
  assumes "check_advertisement F peer prefix t c = (b, t', c')"
  shows "(hm_get (damp_state t) (peer, prefix) = None \<and> \<not> b \<and> t' = t) \<or>
     (\<exists>e0 e. hm_get (damp_state t) (peer, prefix) = Some e0 \<and> t' = put_entry (peer, prefix) e t \<and>
        suppressed e = b \<and> (b \<longrightarrow> suppressed e0) \<and>
        (e = fst (decay F (half_life_secs (damp_config t)) e0 c) \<or>
         e = (fst (decay F (half_life_secs (damp_config t)) e0 c))
               \<lparr>suppressed := False, suppressed_at := None\<rparr>))"
proof (cases "hm_get (damp_state t) (peer, prefix)")
  case None
  then show ?thesis using assms by (simp add: check_advertisement_def)
next
  case (Some e0)
  obtain e1 c1 where d: "decay F (half_life_secs (damp_config t)) e0 c = (e1, c1)" by force
  show ?thesis
    using assms Some d decay_pair [OF d]
    by (auto simp: check_advertisement_def Let_def split: option.splits prod.splits if_splits)
qed

lemma record_withdrawal_ok:
  assumes "damp_ok t" and "record_withdrawal F peer prefix t c = (b, t', c')"
  shows "damp_ok t'"
  using record_withdrawal_cases(2) [OF assms(2)] flapped_suppressed(2) [OF assms(1), of F peer prefix c]
    assms(1)
  by (auto intro!: damp_ok_put simp: entry_ok_def)

lemma check_advertisement_ok:
  assumes "damp_ok t" and "check_advertisement F peer prefix t c = (b, t', c')"
  shows "damp_ok t'"
  using check_advertisement_cases [OF assms(2)] assms(1)
  by (auto intro!: damp_ok_put simp: entry_ok_def dest: damp_ok_get)

lemma damp_remove_peer_ok: "damp_ok t \<Longrightarrow> damp_ok (damp_remove_peer peer t)"
  by (auto simp: damp_ok_def damp_remove_peer_def hm_retain_def hm_ok_def distinct_map_filter)

lemma current_penalty_ok:
  assumes "damp_ok t" and "current_penalty F peer prefix t c = (x, t', c')"
  shows "damp_ok t'"
proof -
  obtain e c1 where e: "entry_or_new F (peer, prefix) t c = (e, c1)" by force
  then have "entry_ok e" using entry_or_new_keeps(1) [OF assms(1), of F "(peer, prefix)" c] by simp
  then have "entry_ok (fst (decay F h e c1))" for h by (simp add: entry_ok_def)
  with e assms show ?thesis
    by (auto simp: current_penalty_def Let_def intro!: damp_ok_put split: prod.splits)
       (metis fst_conv)
qed

interpretation damp: dampening_engine damp_ok "record_withdrawal F" "check_advertisement F"
    damp_remove_peer is_suppressed
  for F :: "'f f64_ops"
proof
  fix t t' :: "'f DampeningTable" and p k c b c'
  show "damp_ok t \<Longrightarrow> record_withdrawal F p k t c = (b, t', c') \<Longrightarrow> damp_ok t'"
    by (rule record_withdrawal_ok)
  show "damp_ok t \<Longrightarrow> check_advertisement F p k t c = (b, t', c') \<Longrightarrow> damp_ok t'"
    by (rule check_advertisement_ok)
  show "damp_ok t \<Longrightarrow> damp_ok (damp_remove_peer p t)" by (rule damp_remove_peer_ok)
  show "check_advertisement F p k t c = (b, t', c') \<Longrightarrow>
      (is_suppressed p k t' \<longleftrightarrow> b) \<and> (b \<longrightarrow> is_suppressed p k t)"
    by (drule check_advertisement_cases) (auto simp: is_suppressed_def)
  show "\<not> is_suppressed p k (damp_remove_peer p t)"
    by (simp add: is_suppressed_def damp_remove_peer_def hm_get_retain)
qed

section \<open>Properties\<close>

text \<open>A withdrawal suppresses the prefix exactly when it was suppressed already or its decayed
  penalty with one more flap reaches the suppress limit; the answer is the state that is stored, and
  no other peer or prefix is affected.\<close>

lemma withdrawal_decision:
  assumes "record_withdrawal F peer prefix t c = (b, t', c')"
  shows "(b \<longleftrightarrow> is_suppressed peer prefix t \<or>
            f_le F (suppress_limit (damp_config t)) (penalty (flapped F peer prefix t c))) \<and>
         is_suppressed peer prefix t' = b \<and>
         (\<forall>peer' prefix'. (peer', prefix') \<noteq> (peer, prefix) \<longrightarrow>
            is_suppressed peer' prefix' t' = is_suppressed peer' prefix' t)"
  using record_withdrawal_cases [OF assms] by (auto simp: is_suppressed_def)

definition a_peer :: SocketAddr where
  "a_peer = \<lparr>sock_ip = V4 0x0A000001, sock_port = 179\<rparr>"

definition a_key :: PrefixKey where
  "a_key = \<lparr>key_address = 0x0A000000, key_prefix_len = 8\<rparr>"

lemma first_flap:
  "record_withdrawal real_f64 a_peer a_key (DampeningTable_new (DampeningConfig_default real_f64)) (\<lambda>_. 5) =
     (False, put_entry (a_peer, a_key)
        \<lparr>penalty = 1000, suppressed = False, suppressed_at = None, last_decay = 5, suppress_count = 0\<rparr>
        (DampeningTable_new (DampeningConfig_default real_f64)), \<lambda>_. 5)"
  by (simp add: record_withdrawal_def entry_or_new_def PrefixDampening_new_def decay_def elapsed_def
      now_def DampeningTable_new_def DampeningConfig_default_def real_f64_def Let_def)

text \<open>C28: suppression is bounded in time.  When every reading of the clock is at least the maximal
  suppression time after the instant at which a prefix was suppressed, its next advertisement is
  accepted and the prefix is no longer suppressed, whatever its penalty.\<close>

theorem suppression_bounded:
  assumes "hm_get (damp_state t) (peer, prefix) = Some e" and "suppressed_at e = Some since"
    and "\<forall>i. since + max_suppress_time (damp_config t) \<le> c i"
  shows "\<exists>t' c'. check_advertisement F peer prefix t c = (False, t', c') \<and>
                 \<not> is_suppressed peer prefix t'"
proof -
  obtain e1 c1 where d: "decay F (half_life_secs (damp_config t)) e c = (e1, c1)" by force
  then have "\<exists>k. c1 = (\<lambda>i. c (i + k))"
    by (auto simp: decay_def elapsed_def now_def Let_def intro: exI [of _ 1] exI [of _ 2] split: if_splits)
  then have "since + max_suppress_time (damp_config t) \<le> c1 0" using assms(3) by auto
  then have "max_suppress_time (damp_config t) \<le> c1 0 - since" by simp
  then show ?thesis
    using assms(1,2) d decay_pair [OF d]
    by (simp add: check_advertisement_def elapsed_def now_def Let_def is_suppressed_def)
qed

definition held_entry :: "real PrefixDampening" where
  "held_entry =
     \<lparr>penalty = 9000, suppressed = True, suppressed_at = Some 7, last_decay = 7, suppress_count = 1\<rparr>"

definition held_table :: "real DampeningTable" where
  "held_table = put_entry (a_peer, a_key) held_entry
     (DampeningTable_new (DampeningConfig_default real_f64))"

theorem suppression_bounded_witness:
  "\<exists>t' c'. check_advertisement real_f64 a_peer a_key held_table (\<lambda>i. 3600000000007 + i) = (False, t', c') \<and>
           \<not> is_suppressed a_peer a_key t'"
  by (rule suppression_bounded [where since = 7 and e = held_entry])
     (simp_all add: held_table_def held_entry_def DampeningTable_new_def DampeningConfig_default_def from_secs_def)

text \<open>With the default configuration two withdrawals in immediate succession suppress a prefix:
  the first does not, the second brings the penalty to exactly the limit of 2000, and the advertisement
  that follows is refused.\<close>

lemma two_flaps_suppress:
  assumes "f64_laws F" and "\<forall>i. c i = n"
  shows "\<exists>t1 t2 t3. record_withdrawal F peer prefix
             (DampeningTable_new (DampeningConfig_default F)) c = (False, t1, c) \<and>
           record_withdrawal F peer prefix t1 c = (True, t2, c) \<and>
           check_advertisement F peer prefix t2 c = (True, t3, c)"
proof -
  have c: "c = (\<lambda>_. n)" using assms(2) by auto
  note fp = f64_laws.lit_le [OF assms(1)] f64_laws.lit_lt [OF assms(1)]
    f64_laws.lit_add [OF assms(1)] f64_laws.secs_zero [OF assms(1)]
  show ?thesis
    by (simp add: c record_withdrawal_def check_advertisement_def entry_or_new_def
        PrefixDampening_new_def decay_def elapsed_def now_def DampeningTable_new_def
        DampeningConfig_default_def put_entry_def from_secs_def fp Let_def)
qed

text \<open>Decay never raises a penalty and never makes it negative, for any positive half-life and any
  behaviour of the clock.\<close>

lemma decay_bounds:
  assumes "f64_laws F" and "f_lt F (f_lit F 0) half_life"
    and "f_is_finite F (penalty e)" and "f_le F (f_lit F 0) (penalty e)"
  shows "f_le F (f_lit F 0) (penalty (fst (decay F half_life e c))) \<and>
         f_le F (penalty (fst (decay F half_life e c))) (penalty e)"
  using f64_laws.mul_unit [OF assms(1,3,4)] f64_laws.powf_half [OF assms(1)]
    f64_laws.div_secs [OF assms(1,2)] f64_laws.le_refl [OF assms(1,3)] assms(4)
  by (simp add: decay_def Let_def split: prod.splits)

end
