(* ===== verification/Rib.thy ===== *)
theory Rib
  imports Update Dampening Rpki
begin

text \<open>
  The routing information base, \<^verbatim>\<open>src/rib.rs\<close>: the Adj-RIB-In of every peer, the Loc-RIB, the decision
  process, dampening and origin validation on the way in, stale routes of graceful restart, and the
  longest prefix match.  The RIB is polymorphic in the floating-point type of the dampening engine.
  Traversals of its hash maps go through a \<open>hash_order\<close>.
\<close>

section \<open>State\<close>

record Route =
  route_prefix :: Prefix
  attrs :: PathAttributes
  peer_addr :: SocketAddr
  peer_as :: u32
  received_at :: Instant
  stale :: bool
  rov_state :: RovState

definition Route_new :: "Prefix \<Rightarrow> PathAttributes \<Rightarrow> SocketAddr \<Rightarrow> u32 \<Rightarrow> clock \<Rightarrow> Route \<times> clock" where
  "Route_new p a peer asn c =
     (let (t, c) = now c in
      (\<lparr>route_prefix = p, attrs = a, peer_addr = peer, peer_as = asn, received_at = t, stale = False,
        rov_state = NotFound\<rparr>, c))"

definition PrefixKey_from :: "Prefix \<Rightarrow> PrefixKey" where
  "PrefixKey_from p = \<lparr>key_address = address p, key_prefix_len = prefix_len p\<rparr>"

type_synonym AdjRibIn = "(PrefixKey, Route) HashMap"
type_synonym LocRib = "(PrefixKey, Route) HashMap"
type_synonym AdjRibOut = "(PrefixKey, Route) HashMap"

record 'f Rib =
  adj_rib_in :: "(SocketAddr, AdjRibIn) HashMap"
  loc_rib :: LocRib
  adj_rib_out :: "(SocketAddr, AdjRibOut) HashMap"
  dampening :: "'f DampeningTable"
  rpki :: RpkiValidator

definition Rib_default :: "'f f64_ops \<Rightarrow> 'f Rib" where
  "Rib_default F =
     \<lparr>adj_rib_in = [], loc_rib = [], adj_rib_out = [],
      dampening = DampeningTable_new (DampeningConfig_default F), rpki = RpkiValidator_default\<rparr>"

definition Rib_new :: "'f f64_ops \<Rightarrow> 'f Rib" where
  "Rib_new F = Rib_default F"

text \<open>The traversal orders of the two kinds of hash map.\<close>

record hash_order =
  peers_order :: "(SocketAddr, AdjRibIn) HashMap \<Rightarrow> (SocketAddr \<times> AdjRibIn) list"
  routes_order :: "(PrefixKey, Route) HashMap \<Rightarrow> (PrefixKey \<times> Route) list"

section \<open>The decision process\<close>

definition local_pref_of :: "Route \<Rightarrow> u32" where
  "local_pref_of r = (case local_pref (attrs r) of Some v \<Rightarrow> v | None \<Rightarrow> 100)"

definition origin_of :: "Route \<Rightarrow> u8" where
  "origin_of r = (case origin (attrs r) of Some v \<Rightarrow> Origin_code v | None \<Rightarrow> 2)"

definition med_of :: "Route \<Rightarrow> u32" where
  "med_of r = (case multi_exit_disc (attrs r) of Some v \<Rightarrow> v | None \<Rightarrow> 0)"

text \<open>The closure given to \<^verbatim>\<open>sort_by\<close>.\<close>

definition route_cmp :: "Route \<Rightarrow> Route \<Rightarrow> Ordering" where
  "route_cmp a b =
     ordering_then (ordering_then (ordering_then (ordering_then
       (cmp (local_pref_of b) (local_pref_of a))
       (cmp (as_path_len (attrs a)) (as_path_len (attrs b))))
       (cmp (origin_of a) (origin_of b)))
       (cmp (med_of a) (med_of b)))
       (cmp (received_at a) (received_at b))"

definition candidates :: "hash_order \<Rightarrow> 'f Rib \<Rightarrow> PrefixKey \<Rightarrow> Route list" where
  "candidates H rib key = List.map_filter (\<lambda>(p, m). hm_get m key) (peers_order H (adj_rib_in rib))"

definition run_decision_process :: "hash_order \<Rightarrow> PrefixKey \<Rightarrow> 'f Rib \<Rightarrow> 'f Rib" where
  "run_decision_process H key rib =
     (case sort_by route_cmp (candidates H rib key) of
        [] \<Rightarrow> rib\<lparr>loc_rib := hm_remove key (loc_rib rib)\<rparr>
      | best # _ \<Rightarrow> rib\<lparr>loc_rib := hm_insert key best (loc_rib rib)\<rparr>)"

text \<open>\<^verbatim>\<open>for key in affected { self.run_decision_process(&key); }\<close>\<close>

definition run_decisions :: "hash_order \<Rightarrow> PrefixKey list \<Rightarrow> 'f Rib \<Rightarrow> 'f Rib" where
  "run_decisions H keys rib = fold (run_decision_process H) keys rib"

section \<open>Updates\<close>

fun record_withdrawals ::
    "'f f64_ops \<Rightarrow> SocketAddr \<Rightarrow> Prefix list \<Rightarrow> 'f DampeningTable \<Rightarrow> clock \<Rightarrow>
     'f DampeningTable \<times> clock" where
  "record_withdrawals F peer [] t c = (t, c)"
| "record_withdrawals F peer (p # ps) t c =
     (let (_, t, c) = record_withdrawal F peer (PrefixKey_from p) t c
      in record_withdrawals F peer ps t c)"

text \<open>The loop over the announced prefixes; \<open>affected\<close> is \<^verbatim>\<open>affected_nlri\<close>.\<close>

fun install_routes ::
    "'f f64_ops \<Rightarrow> SocketAddr \<Rightarrow> u32 \<Rightarrow> PathAttributes \<Rightarrow> RpkiValidator \<Rightarrow> Prefix list \<Rightarrow>
     AdjRibIn \<Rightarrow> PrefixKey list \<Rightarrow> 'f DampeningTable \<Rightarrow> clock \<Rightarrow>
     AdjRibIn \<times> PrefixKey list \<times> 'f DampeningTable \<times> clock" where
  "install_routes F peer asn a v [] adj affected t c = (adj, affected, t, c)"
| "install_routes F peer asn a v (p # ps) adj affected t c =
     (let key = PrefixKey_from p;
          (held, t, c) = check_advertisement F peer key t c;
          rov = validate_route v (address p) (prefix_len p) asn
      in if held \<or> should_reject v rov then install_routes F peer asn a v ps adj affected t c
         else
           let (route, c) = Route_new p a peer asn c;
               route = route\<lparr>rov_state := rov\<rparr>
           in install_routes F peer asn a v ps (hm_insert key route adj) (affected @ [key]) t c)"

definition process_update ::
    "'f f64_ops \<Rightarrow> hash_order \<Rightarrow> SocketAddr \<Rightarrow> u32 \<Rightarrow> Prefix list \<Rightarrow> PathAttributes \<Rightarrow> Prefix list \<Rightarrow>
     'f Rib \<Rightarrow> clock \<Rightarrow> 'f Rib \<times> clock" where
  "process_update F H peer asn announced a ws rib c =
     (let (t, c) = record_withdrawals F peer ws (dampening rib) c;
          adj_in = (case hm_get (adj_rib_in rib) peer of Some m \<Rightarrow> m | None \<Rightarrow> []);
          (adj_in, affected_nlri, t, c) =
            install_routes F peer asn a (rpki rib) announced adj_in [] t c;
          adj_in = fold (\<lambda>p. hm_remove (PrefixKey_from p)) ws adj_in;
          rib = rib\<lparr>dampening := t, adj_rib_in := hm_insert peer adj_in (adj_rib_in rib)\<rparr>;
          affected = affected_nlri @ map PrefixKey_from ws
      in (run_decisions H affected rib, c))"

definition remove_peer :: "hash_order \<Rightarrow> SocketAddr \<Rightarrow> 'f Rib \<Rightarrow> PrefixKey list \<times> 'f Rib" where
  "remove_peer H peer rib =
     (let removed_keys = (case hm_get (adj_rib_in rib) peer of
              Some m \<Rightarrow> map fst (routes_order H m) | None \<Rightarrow> []);
          rib = rib\<lparr>adj_rib_in := hm_remove peer (adj_rib_in rib)\<rparr>;
          rib = run_decisions H removed_keys rib
      in (removed_keys, rib\<lparr>dampening := damp_remove_peer peer (dampening rib)\<rparr>))"

definition mark_peer_stale :: "SocketAddr \<Rightarrow> 'f Rib \<Rightarrow> 'f Rib" where
  "mark_peer_stale peer rib =
     (case hm_get (adj_rib_in rib) peer of
        Some m \<Rightarrow>
          rib\<lparr>adj_rib_in := hm_insert peer (hm_map_values (\<lambda>r. r\<lparr>stale := True\<rparr>) m) (adj_rib_in rib)\<rparr>
      | None \<Rightarrow> rib)"

definition remove_stale_for_peer :: "hash_order \<Rightarrow> SocketAddr \<Rightarrow> 'f Rib \<Rightarrow> PrefixKey list \<times> 'f Rib" where
  "remove_stale_for_peer H peer rib =
     (let stale_keys = (case hm_get (adj_rib_in rib) peer of
              Some m \<Rightarrow> map fst (filter (\<lambda>(k, r). stale r) (routes_order H m)) | None \<Rightarrow> []);
          rib = (case hm_get (adj_rib_in rib) peer of
              Some m \<Rightarrow>
                let m = fold hm_remove stale_keys m;
                    rib = rib\<lparr>adj_rib_in := hm_insert peer m (adj_rib_in rib)\<rparr>
                in if m = [] then rib\<lparr>adj_rib_in := hm_remove peer (adj_rib_in rib)\<rparr> else rib
            | None \<Rightarrow> rib)
      in (stale_keys, run_decisions H stale_keys rib))"

section \<open>Queries\<close>

definition stale_route_count :: "'f Rib \<Rightarrow> usize" where
  "stale_route_count rib =
     length (filter stale (concat (map (\<lambda>(p, m). map snd m) (adj_rib_in rib))))"

definition get_adj_rib_in :: "SocketAddr \<Rightarrow> 'f Rib \<Rightarrow> AdjRibIn option" where
  "get_adj_rib_in peer rib = hm_get (adj_rib_in rib) peer"

definition prefix_count :: "'f Rib \<Rightarrow> usize" where
  "prefix_count rib = length (loc_rib rib)"

text \<open>
  The filter of \<^verbatim>\<open>longest_match\<close>: \<^verbatim>\<open>32 - key.prefix_len as u32\<close> is computed in \<^verbatim>\<open>u32\<close> and wraps.
\<close>

definition key_matches :: "Ipv4Addr \<Rightarrow> PrefixKey \<Rightarrow> bool" where
  "key_matches addr key =
     (if key_prefix_len key = 0 then True
      else
        let shift = unat (32 - ucast (key_prefix_len key) :: u32)
        in shr32 addr shift = shr32 (key_address key) shift)"

text \<open>\<^verbatim>\<open>Iterator::max_by_key\<close> keeps the last of several maximal elements.\<close>

definition max_by_key :: "('a \<Rightarrow> 'b::linorder) \<Rightarrow> 'a list \<Rightarrow> 'a option" where
  "max_by_key f xs =
     fold (\<lambda>x best. case best of None \<Rightarrow> Some x | Some y \<Rightarrow> if f x < f y then Some y else Some x) xs None"

definition longest_match :: "hash_order \<Rightarrow> Ipv4Addr \<Rightarrow> 'f Rib \<Rightarrow> (PrefixKey \<times> Route) option" where
  "longest_match H addr rib =
     max_by_key (\<lambda>(key, r). key_prefix_len key)
       (filter (\<lambda>(key, r). key_matches addr key) (routes_order H (loc_rib rib)))"

definition rib_summary :: "'f Rib \<Rightarrow> usize \<times> usize \<times> usize" where
  "rib_summary rib =
     (length (adj_rib_in rib), sum_list (map (\<lambda>(p, m). length m) (adj_rib_in rib)), length (loc_rib rib))"

end
