(* ===== verification/Rib_Correct.thy ===== *)
theory Rib_Correct
  imports Rib "HOL-Library.Product_Lexorder"
begin

text \<open>
  Correctness of the routing information base.  \<open>adj\<close> reads the Adj-RIBs-In as one table;
  \<open>rib_ok\<close> is the invariant: the Loc-RIB holds, for every prefix with at least one candidate, a
  most preferred candidate, and nothing for any other prefix.  The operations are the steps
  of the machine \<open>rib\<close>, an interpretation of \<open>state_machine\<close>, so that the invariant holds in every
  state that any sequence of them reaches.
\<close>

section \<open>Traversal\<close>

locale hash_orders =
  peers: iteration "peers_order H" + routes: iteration "routes_order H"
  for H :: hash_order

definition insertion_order :: hash_order where
  "insertion_order = \<lparr>peers_order = (\<lambda>m. m), routes_order = (\<lambda>m. m)\<rparr>"

definition reverse_order :: hash_order where
  "reverse_order = \<lparr>peers_order = rev, routes_order = rev\<rparr>"

interpretation insertion: hash_orders insertion_order
  by unfold_locales (simp_all add: insertion_order_def)

interpretation reverse: hash_orders reverse_order
  by unfold_locales (simp_all add: reverse_order_def)

section \<open>Preference\<close>

text \<open>
  The tie-breaking rules of RFC 4271, 9.1 as the program states them, written as a relation:
  \<open>a\<close> is strictly preferred to \<open>b\<close>.
\<close>

definition preferred :: "Route \<Rightarrow> Route \<Rightarrow> bool" where
  "preferred a b \<longleftrightarrow>
     local_pref_of b < local_pref_of a \<or> local_pref_of a = local_pref_of b \<and>
     (as_path_len (attrs a) < as_path_len (attrs b) \<or> as_path_len (attrs a) = as_path_len (attrs b) \<and>
     (origin_of a < origin_of b \<or> origin_of a = origin_of b \<and>
     (med_of a < med_of b \<or> med_of a = med_of b \<and> received_at a < received_at b)))"

text \<open>The same order as a lexicographic key; the local preference counts downwards.\<close>

definition route_key :: "Route \<Rightarrow> int \<times> nat \<times> u8 \<times> u32 \<times> Instant" where
  "route_key r =
     (- uint (local_pref_of r), as_path_len (attrs r), origin_of r, med_of r, received_at r)"

lemma cmp_pair: "cmp (a, b) (c, d) = ordering_then (cmp a c) (cmp b d)"
  by (auto simp: cmp_def ordering_then_def)

lemma cmp_uminus_uint: "cmp (- uint a) (- uint b) = cmp b a"
  by (simp add: cmp_def word_less_def) (metis word_uint_eq_iff)

lemma ordering_then_assoc:
  "ordering_then (ordering_then o1 o2) o3 = ordering_then o1 (ordering_then o2 o3)"
  by (cases o1) (simp_all add: ordering_then_def)

lemma route_cmp_key: "route_cmp a b = cmp (route_key a) (route_key b)"
  by (simp add: route_cmp_def route_key_def cmp_pair cmp_uminus_uint ordering_then_assoc)

interpretation route: comparator route_cmp
  by (rule comparator_of_key) (rule route_cmp_key)

lemma route_cmp_preferred: "route_cmp a b = Less \<longleftrightarrow> preferred a b"
  by (auto simp: route_cmp_def preferred_def cmp_def ordering_then_def split: if_splits)

lemma route_cmp_not_preferred: "route_cmp a b \<noteq> Greater \<longleftrightarrow> \<not> preferred b a"
  using route.swap [of a b] route_cmp_preferred [of b a] by auto

lemma preferred_stale [simp]:
  "preferred (a\<lparr>stale := s\<rparr>) b = preferred a b" "preferred a (b\<lparr>stale := s\<rparr>) = preferred a b"
  by (simp_all add: preferred_def local_pref_of_def origin_of_def med_of_def)

section \<open>The invariant\<close>

text \<open>The Adj-RIBs-In as one table, and the candidates for a prefix.\<close>

definition adj :: "'f Rib \<Rightarrow> SocketAddr \<Rightarrow> PrefixKey \<Rightarrow> Route option" where
  "adj rib p k = (case hm_get (adj_rib_in rib) p of Some m \<Rightarrow> hm_get m k | None \<Rightarrow> None)"

definition cands :: "'f Rib \<Rightarrow> PrefixKey \<Rightarrow> Route set" where
  "cands rib k = {r. \<exists>p. adj rib p k = Some r}"

definition maps_ok :: "'f Rib \<Rightarrow> bool" where
  "maps_ok rib \<longleftrightarrow> hm_ok (adj_rib_in rib) \<and> hm_ok (loc_rib rib) \<and>
     (\<forall>p m. hm_get (adj_rib_in rib) p = Some m \<longrightarrow> hm_ok m)"

text \<open>A route is filed under the peer and the prefix it names, and passed origin validation.\<close>

definition route_filed :: "RpkiValidator \<Rightarrow> SocketAddr \<Rightarrow> PrefixKey \<Rightarrow> Route \<Rightarrow> bool" where
  "route_filed v p k r \<longleftrightarrow> peer_addr r = p \<and> PrefixKey_from (route_prefix r) = k \<and>
     rov_state r = validate_route v (key_address k) (key_prefix_len k) (peer_as r) \<and>
     \<not> should_reject v (rov_state r)"

definition filed_ok :: "'f Rib \<Rightarrow> bool" where
  "filed_ok rib \<longleftrightarrow> (\<forall>p k r. adj rib p k = Some r \<longrightarrow> route_filed (rpki rib) p k r)"

lemma route_filed_stale [simp]: "route_filed v p k (r\<lparr>stale := s\<rparr>) = route_filed v p k r"
  by (simp add: route_filed_def)

text \<open>
  \<open>best_of C r\<close>: the Loc-RIB entry \<open>r\<close> (if any) is right for the candidates \<open>C\<close>.  The stale
  mark is not compared: marking a peer's routes does not touch the copies in the Loc-RIB.
\<close>

definition best_of :: "Route set \<Rightarrow> Route option \<Rightarrow> bool" where
  "best_of C entry = (case entry of
     None \<Rightarrow> C = {}
   | Some r \<Rightarrow> (\<exists>c \<in> C. r\<lparr>stale := False\<rparr> = c\<lparr>stale := False\<rparr>) \<and> (\<forall>c \<in> C. \<not> preferred c r))"

definition rib_ok :: "'f Rib \<Rightarrow> bool" where
  "rib_ok rib \<longleftrightarrow> maps_ok rib \<and> filed_ok rib \<and> damp_ok (dampening rib) \<and>
     (\<forall>k. best_of (cands rib k) (hm_get (loc_rib rib) k))"

lemma rib_ok_new [simp]: "rib_ok (Rib_new F)"
  by (simp add: rib_ok_def maps_ok_def filed_ok_def best_of_def cands_def adj_def Rib_new_def
      Rib_default_def)

lemma maps_ok_insert:
  "maps_ok rib \<Longrightarrow> hm_ok m \<Longrightarrow> maps_ok (rib\<lparr>adj_rib_in := hm_insert p m (adj_rib_in rib)\<rparr>)"
  by (auto simp: maps_ok_def hm_get_insert)

lemma maps_ok_remove:
  "maps_ok rib \<Longrightarrow> maps_ok (rib\<lparr>adj_rib_in := hm_remove p (adj_rib_in rib)\<rparr>)"
  by (auto simp: maps_ok_def hm_get_remove)

lemma adj_insert:
  "adj (rib\<lparr>adj_rib_in := hm_insert p m (adj_rib_in rib)\<rparr>) p' k =
     (if p' = p then hm_get m k else adj rib p' k)"
  by (simp add: adj_def hm_get_insert)

lemma adj_remove:
  "adj (rib\<lparr>adj_rib_in := hm_remove p (adj_rib_in rib)\<rparr>) p' k =
     (if p' = p then None else adj rib p' k)"
  by (simp add: adj_def hm_get_remove)

lemma adj_cong: "adj_rib_in rib = adj_rib_in rib' \<Longrightarrow> adj rib = adj rib'"
  by (simp add: adj_def fun_eq_iff)

lemma adj_update [simp]:
  "adj (rib\<lparr>loc_rib := l\<rparr>) = adj rib" "adj (rib\<lparr>dampening := t\<rparr>) = adj rib"
  by (simp_all add: adj_def fun_eq_iff)

lemma set_map_filter_eq: "set (List.map_filter f xs) = {y. \<exists>x \<in> set xs. f x = Some y}"
  by (induction xs) (auto simp: List.map_filter_def split: option.splits)

section \<open>The decision process\<close>

context hash_orders
begin

lemma routes_set: "set (routes_order H m) = set m"
  by simp

lemma set_candidates:
  assumes "maps_ok rib"
  shows "set (candidates H rib k) = cands rib k"
proof -
  have "hm_ok (adj_rib_in rib)" using assms by (simp add: maps_ok_def)
  then show ?thesis
    by (simp add: candidates_def set_map_filter_eq cands_def adj_def Bex_def case_prod_beta
          hm_in_set [symmetric])
       (fastforce simp: hm_in_set split: option.splits)
qed

lemma decision_loc:
  "hm_get (loc_rib (run_decision_process H key rib)) k =
    (if k = key then (case sort_by route_cmp (candidates H rib key) of [] \<Rightarrow> None | b # _ \<Rightarrow> Some b)
     else hm_get (loc_rib rib) k)"
  by (simp add: run_decision_process_def hm_get_insert hm_get_remove split: list.splits)

lemma decision_keeps [simp]:
  "adj_rib_in (run_decision_process H key rib) = adj_rib_in rib"
  "dampening (run_decision_process H key rib) = dampening rib"
  "rpki (run_decision_process H key rib) = rpki rib"
  by (simp_all add: run_decision_process_def split: list.splits)

lemma decision_maps_ok: "maps_ok rib \<Longrightarrow> maps_ok (run_decision_process H key rib)"
  by (simp add: run_decision_process_def maps_ok_def split: list.splits)

text \<open>The entry that the decision process writes is itself a candidate.\<close>

lemma decision_best:
  assumes "maps_ok rib"
  shows "case hm_get (loc_rib (run_decision_process H key rib)) key of
           None \<Rightarrow> cands rib key = {}
         | Some r \<Rightarrow> r \<in> cands rib key \<and> (\<forall>c \<in> cands rib key. \<not> preferred c r)"
proof (cases "sort_by route_cmp (candidates H rib key)")
  case Nil
  then show ?thesis using set_candidates [OF assms, of key] by (simp add: decision_loc)
next
  case (Cons b bs)
  then have ne: "candidates H rib key \<noteq> []" by auto
  have "b = hd (sort_by route_cmp (candidates H rib key))" using Cons by simp
  then show ?thesis
    using Cons route.sort_by_hd [OF ne] set_candidates [OF assms, of key]
    by (simp add: decision_loc route_cmp_not_preferred)
qed

lemma decisions_keeps [simp]:
  "adj_rib_in (run_decisions H keys rib) = adj_rib_in rib"
  "dampening (run_decisions H keys rib) = dampening rib"
  "rpki (run_decisions H keys rib) = rpki rib"
  unfolding run_decisions_def by (induction keys arbitrary: rib) simp_all

lemma decisions_maps_ok: "maps_ok rib \<Longrightarrow> maps_ok (run_decisions H keys rib)"
  unfolding run_decisions_def by (induction keys arbitrary: rib) (simp_all add: decision_maps_ok)

lemma decisions_loc:
  assumes "maps_ok rib"
  shows "hm_get (loc_rib (run_decisions H keys rib)) k =
    (if k \<in> set keys then hm_get (loc_rib (run_decision_process H k rib)) k
     else hm_get (loc_rib rib) k)"
  using assms
proof (induction keys arbitrary: rib)
  case (Cons key keys)
  have "candidates H (run_decision_process H key rib) k = candidates H rib k" for k
    by (simp add: candidates_def)
  then show ?case
    using Cons.IH [OF decision_maps_ok [OF Cons.prems]] Cons.prems
    by (simp add: run_decisions_def decision_loc decision_maps_ok)
qed (simp add: run_decisions_def)

lemma adj_decisions [simp]: "adj (run_decisions H keys rib) = adj rib"
  by (rule adj_cong) simp

text \<open>
  Re-running the decision process for a list of prefixes restores the invariant, if the candidates
  of every other prefix are as before.
\<close>

lemma decisions_restore:
  assumes ok: "maps_ok rib" and rest: "\<And>k. k \<notin> set keys \<Longrightarrow> best_of (cands rib k) (hm_get (loc_rib rib) k)"
  shows "best_of (cands (run_decisions H keys rib) k) (hm_get (loc_rib (run_decisions H keys rib)) k)"
proof -
  have c: "cands (run_decisions H keys rib) k = cands rib k" by (simp add: cands_def)
  show ?thesis
  proof (cases "k \<in> set keys")
    case True
    then show ?thesis
      using decision_best [OF ok, of k]
      by (auto simp: c decisions_loc [OF ok] best_of_def split: option.splits)
  next
    case False
    then show ?thesis using rest by (simp add: c decisions_loc [OF ok])
  qed
qed

end

section \<open>The loops of an update\<close>

lemma record_withdrawals_ok:
  "damp_ok t \<Longrightarrow> record_withdrawals F peer ps t c = (t', c') \<Longrightarrow> damp_ok t'"
proof (induction F peer ps t c rule: record_withdrawals.induct)
  case (2 F peer p ps t c)
  obtain b t1 c1 where w: "record_withdrawal F peer (PrefixKey_from p) t c = (b, t1, c1)"
    by (metis prod_cases3)
  then show ?case using 2 record_withdrawal_ok [OF 2(2) w] by simp
qed simp

lemma record_withdrawals_other:
  "record_withdrawals F peer ps t c = (t', c') \<Longrightarrow> k \<notin> PrefixKey_from ` set ps \<Longrightarrow>
   is_suppressed peer k t' = is_suppressed peer k t"
proof (induction F peer ps t c rule: record_withdrawals.induct)
  case (2 F peer p ps t c)
  obtain b t1 c1 where w: "record_withdrawal F peer (PrefixKey_from p) t c = (b, t1, c1)"
    by (metis prod_cases3)
  have "is_suppressed peer k t1 = is_suppressed peer k t"
    using record_withdrawal_cases(2) [OF w] 2(3) by (auto simp: is_suppressed_def)
  then show ?case using 2 w by simp
qed simp

lemma check_advertisement_mono:
  "check_advertisement F peer prefix t c = (b, t', c') \<Longrightarrow> is_suppressed peer k t' \<Longrightarrow>
   is_suppressed peer k t"
  by (drule check_advertisement_cases) (auto simp: is_suppressed_def split: if_splits)

text \<open>A route as \<open>install_routes\<close> files it.\<close>

definition fresh_route ::
    "SocketAddr \<Rightarrow> u32 \<Rightarrow> PathAttributes \<Rightarrow> RpkiValidator \<Rightarrow> PrefixKey \<Rightarrow> Route \<Rightarrow> bool" where
  "fresh_route peer asn a v k r \<longleftrightarrow> PrefixKey_from (route_prefix r) = k \<and> attrs r = a \<and>
     peer_addr r = peer \<and> peer_as r = asn \<and> \<not> stale r \<and>
     rov_state r = validate_route v (key_address k) (key_prefix_len k) asn \<and>
     \<not> should_reject v (rov_state r)"

lemma fresh_route_filed: "fresh_route peer asn a v k r \<Longrightarrow> route_filed v peer k r"
  by (auto simp: fresh_route_def route_filed_def)

text \<open>One announced prefix is skipped, or filed as a fresh route.\<close>

lemma install_routes_step:
  assumes "check_advertisement F peer (PrefixKey_from p) t c = (held, t1, c1)"
  obtains (skip) "held \<or> should_reject v (validate_route v (address p) (prefix_len p) asn)" and
      "install_routes F peer asn a v (p # ps) m ks t c = install_routes F peer asn a v ps m ks t1 c1"
    | (filed) r c2 where "fresh_route peer asn a v (PrefixKey_from p) r"
      "install_routes F peer asn a v (p # ps) m ks t c =
         install_routes F peer asn a v ps (hm_insert (PrefixKey_from p) r m) (ks @ [PrefixKey_from p]) t1 c2"
proof (cases "held \<or> should_reject v (validate_route v (address p) (prefix_len p) asn)")
  case True
  then show ?thesis using assms by (intro skip) simp_all
next
  case False
  define r where "r = (fst (Route_new p a peer asn c1))
    \<lparr>rov_state := validate_route v (address p) (prefix_len p) asn\<rparr>"
  have "fresh_route peer asn a v (PrefixKey_from p) r"
    using False by (simp add: r_def fresh_route_def Route_new_def now_def PrefixKey_from_def)
  then show ?thesis
    by (rule filed [of r "snd (Route_new p a peer asn c1)"])
       (use assms False in \<open>simp add: r_def Route_new_def now_def Let_def\<close>)
qed

declare install_routes.simps(2) [simp del]

text \<open>What the loop does to the peer's table, the list of affected prefixes and the dampening state.\<close>

definition grows ::
    "(PrefixKey \<Rightarrow> Route \<Rightarrow> bool) \<Rightarrow> AdjRibIn \<times> PrefixKey list \<times> 'f DampeningTable \<Rightarrow>
     AdjRibIn \<times> PrefixKey list \<times> 'f DampeningTable \<Rightarrow> bool" where
  "grows fresh = (\<lambda>(m, ks, t) (m', ks', t').
     (hm_ok m \<longrightarrow> hm_ok m') \<and> (damp_ok t \<longrightarrow> damp_ok t') \<and> set ks \<subseteq> set ks' \<and>
     (\<forall>k. hm_get m' k = hm_get m k \<or> (\<exists>r. hm_get m' k = Some r \<and> fresh k r)) \<and>
     (\<forall>k. k \<notin> set ks' \<longrightarrow> hm_get m' k = hm_get m k))"

lemma grows_refl: "(damp_ok t \<Longrightarrow> damp_ok t') \<Longrightarrow> grows fresh (m, ks, t) (m, ks, t')"
  by (simp add: grows_def)

lemma grows_insert:
  "fresh k r \<Longrightarrow> (damp_ok t \<Longrightarrow> damp_ok t') \<Longrightarrow>
   grows fresh (m, ks, t) (hm_insert k r m, ks @ [k], t')"
  by (auto simp: grows_def hm_get_insert)

lemma grows_trans:
  assumes "grows fresh s1 s2" and "grows fresh s2 s3"
  shows "grows fresh s1 s3"
proof -
  obtain m1 k1 t1 m2 k2 t2 m3 k3 t3 where s: "s1 = (m1, k1, t1)" "s2 = (m2, k2, t2)" "s3 = (m3, k3, t3)"
    by (metis prod_cases3)
  have "hm_get m2 k = hm_get m1 k \<or> (\<exists>r. hm_get m2 k = Some r \<and> fresh k r)"
    "hm_get m3 k = hm_get m2 k \<or> (\<exists>r. hm_get m3 k = Some r \<and> fresh k r)" for k
    using assms unfolding s grows_def by simp_all
  then have "hm_get m3 k = hm_get m1 k \<or> (\<exists>r. hm_get m3 k = Some r \<and> fresh k r)" for k
    by metis
  moreover have k12: "set k1 \<subseteq> set k2" and k23: "set k2 \<subseteq> set k3"
    using assms unfolding s grows_def by simp_all
  moreover have "k \<notin> set k2 \<Longrightarrow> hm_get m2 k = hm_get m1 k"
    "k \<notin> set k3 \<Longrightarrow> hm_get m3 k = hm_get m2 k" for k
    using assms unfolding s grows_def by simp_all
  then have "k \<notin> set k3 \<Longrightarrow> hm_get m3 k = hm_get m1 k" for k
    using k23 by (metis subsetD)
  ultimately show ?thesis using assms unfolding s grows_def by (simp add: subset_trans [OF k12 k23])
qed

lemma install_routes_grows:
  "install_routes F peer asn a v ps m ks t c = (m', ks', t', c') \<Longrightarrow>
   grows (fresh_route peer asn a v) (m, ks, t) (m', ks', t')"
proof (induction ps arbitrary: m ks t c)
  case Nil
  then show ?case by (simp add: grows_refl)
next
  case (Cons p ps)
  obtain held t1 c1 where chk: "check_advertisement F peer (PrefixKey_from p) t c = (held, t1, c1)"
    by (metis prod_cases3)
  then have t1: "damp_ok t \<Longrightarrow> damp_ok t1" by (rule check_advertisement_ok [rotated])
  from chk show ?case
  proof (cases rule: install_routes_step [of F peer p t c held t1 c1 v asn a ps m ks])
    case skip
    then have "grows (fresh_route peer asn a v) (m, ks, t1) (m', ks', t')"
      using Cons by simp
    with grows_refl [OF t1] show ?thesis by (rule grows_trans)
  next
    case (filed r c2)
    then have "grows (fresh_route peer asn a v)
        (hm_insert (PrefixKey_from p) r m, ks @ [PrefixKey_from p], t1) (m', ks', t')"
      using Cons by simp
    with grows_insert [of "fresh_route peer asn a v", OF filed(1) t1] show ?thesis by (rule grows_trans)
  qed
qed

text \<open>An announced prefix that is neither suppressed nor rejected is filed.\<close>

lemma install_routes_installs:
  assumes "install_routes F peer asn a v ps m ks t c = (m', ks', t', c')"
    and "p \<in> set ps" and "\<not> is_suppressed peer (PrefixKey_from p) t" and "damp_ok t"
    and "\<not> should_reject v (validate_route v (address p) (prefix_len p) asn)"
  shows "\<exists>r. hm_get m' (PrefixKey_from p) = Some r \<and> fresh_route peer asn a v (PrefixKey_from p) r \<and>
             PrefixKey_from p \<in> set ks'"
  using assms
proof (induction ps arbitrary: m ks t c)
  case (Cons q ps)
  obtain held t1 c1 where chk: "check_advertisement F peer (PrefixKey_from q) t c = (held, t1, c1)"
    by (metis prod_cases3)
  have t1: "damp_ok t1" "\<not> is_suppressed peer (PrefixKey_from p) t1"
    using chk Cons.prems check_advertisement_ok check_advertisement_mono by blast+
  have held: "q = p \<Longrightarrow> \<not> held"
    using damp.advertise_held [OF Cons.prems(4) chk] Cons.prems(3) by auto
  from chk show ?case
  proof (cases rule: install_routes_step [of F peer q t c held t1 c1 v asn a ps m ks])
    case skip
    then show ?thesis using Cons.IH [of m ks t1 c1] Cons.prems t1 held by auto
  next
    case (filed r c2)
    let ?k = "PrefixKey_from q"
    show ?thesis
    proof (cases "p \<in> set ps")
      case True
      then show ?thesis
        using Cons.IH [of "hm_insert ?k r m" "ks @ [?k]" t1 c2] Cons.prems t1 filed by simp
    next
      case False
      then have q: "q = p" using Cons.prems(2) by simp
      have g: "grows (fresh_route peer asn a v) (hm_insert ?k r m, ks @ [?k], t1) (m', ks', t')"
        using Cons.prems(1) filed(2) by (simp add: install_routes_grows)
      then have "hm_get m' ?k = Some r \<or> (\<exists>r. hm_get m' ?k = Some r \<and> fresh_route peer asn a v ?k r)"
        by (simp add: grows_def hm_get_insert) (metis map_upd_Some_unfold)
      with g filed(1) q show ?thesis by (auto simp: grows_def)
    qed
  qed
qed simp

lemma hm_get_fold_remove:
  "hm_get (fold (\<lambda>p. hm_remove (f p)) ps m) k = (if k \<in> f ` set ps then None else hm_get m k)"
  by (induction ps arbitrary: m) (auto simp: hm_get_remove)

lemma hm_ok_fold_remove: "hm_ok m \<Longrightarrow> hm_ok (fold (\<lambda>p. hm_remove (f p)) ps m)"
  by (induction ps arbitrary: m) simp_all

section \<open>The operations keep the invariant\<close>

text \<open>The RIB just before the decision process: the peer's table \<open>m\<close> after the announcements.\<close>

definition staged :: "SocketAddr \<Rightarrow> Prefix list \<Rightarrow> AdjRibIn \<Rightarrow> 'f DampeningTable \<Rightarrow> 'f Rib \<Rightarrow> 'f Rib" where
  "staged peer ws m t rib = rib\<lparr>dampening := t,
     adj_rib_in := hm_insert peer (fold (\<lambda>p. hm_remove (PrefixKey_from p)) ws m) (adj_rib_in rib)\<rparr>"

lemma adj_staged:
  "adj (staged peer ws m t rib) p k =
     (if p = peer then if k \<in> PrefixKey_from ` set ws then None else hm_get m k else adj rib p k)"
  by (simp add: staged_def adj_def hm_get_insert hm_get_fold_remove)

lemma staged_keeps [simp]:
  "loc_rib (staged peer ws m t rib) = loc_rib rib" "dampening (staged peer ws m t rib) = t"
  "rpki (staged peer ws m t rib) = rpki rib"
  by (simp_all add: staged_def)

lemma maps_ok_staged: "maps_ok rib \<Longrightarrow> hm_ok m \<Longrightarrow> maps_ok (staged peer ws m t rib)"
  by (auto simp: staged_def maps_ok_def hm_get_insert hm_ok_fold_remove)

lemma process_update_stages:
  assumes "process_update F H peer asn ps a ws rib c = (rib', c')"
  obtains t1 c1 m ks t2 where
    "record_withdrawals F peer ws (dampening rib) c = (t1, c1)"
    "install_routes F peer asn a (rpki rib) ps
       (case hm_get (adj_rib_in rib) peer of Some m \<Rightarrow> m | None \<Rightarrow> []) [] t1 c1 = (m, ks, t2, c')"
    "rib' = run_decisions H (ks @ map PrefixKey_from ws) (staged peer ws m t2 rib)"
  using assms by (auto simp: process_update_def staged_def Let_def split: prod.splits)

lemma adj_peer:
  "hm_get (case hm_get (adj_rib_in rib) peer of Some m \<Rightarrow> m | None \<Rightarrow> []) k = adj rib peer k"
  by (simp add: adj_def split: option.splits)

lemma process_update_staged:
  assumes "process_update F H peer asn ps a ws rib c = (rib', c')"
  obtains m ks t where
    "rib' = run_decisions H (ks @ map PrefixKey_from ws) (staged peer ws m t rib)"
    "maps_ok rib \<Longrightarrow> hm_ok m" "damp_ok (dampening rib) \<Longrightarrow> damp_ok t"
    "\<And>k. hm_get m k = adj rib peer k \<or> (\<exists>r. hm_get m k = Some r \<and> fresh_route peer asn a (rpki rib) k r)"
    "\<And>k. k \<notin> set ks \<Longrightarrow> hm_get m k = adj rib peer k"
proof -
  from assms obtain t1 c1 m ks t where st: "record_withdrawals F peer ws (dampening rib) c = (t1, c1)"
    "install_routes F peer asn a (rpki rib) ps
       (case hm_get (adj_rib_in rib) peer of Some m \<Rightarrow> m | None \<Rightarrow> []) [] t1 c1 = (m, ks, t, c')"
    "rib' = run_decisions H (ks @ map PrefixKey_from ws) (staged peer ws m t rib)"
    by (rule process_update_stages)
  have g: "(hm_ok (case hm_get (adj_rib_in rib) peer of Some m \<Rightarrow> m | None \<Rightarrow> []) \<longrightarrow> hm_ok m) \<and>
      (damp_ok t1 \<longrightarrow> damp_ok t) \<and>
      (\<forall>k. hm_get m k = adj rib peer k \<or>
        (\<exists>r. hm_get m k = Some r \<and> fresh_route peer asn a (rpki rib) k r)) \<and>
      (\<forall>k. k \<notin> set ks \<longrightarrow> hm_get m k = adj rib peer k)"
    using install_routes_grows [OF st(2)] by (simp add: grows_def adj_peer)
  show ?thesis
  proof (rule that [OF st(3)])
    show "hm_ok m" if "maps_ok rib"
      using g that by (auto simp: maps_ok_def split: option.splits)
    show "damp_ok t" if "damp_ok (dampening rib)"
      using g record_withdrawals_ok [OF that st(1)] by simp
  qed (use g in auto)
qed

lemma best_of_stale:
  assumes "\<And>c. c \<in> C \<Longrightarrow> \<exists>c' \<in> C'. c'\<lparr>stale := False\<rparr> = c\<lparr>stale := False\<rparr>"
    and "\<And>c'. c' \<in> C' \<Longrightarrow> \<exists>c \<in> C. c'\<lparr>stale := False\<rparr> = c\<lparr>stale := False\<rparr>"
    and "best_of C entry"
  shows "best_of C' entry"
proof (cases entry)
  case None
  then show ?thesis using assms by (auto simp: best_of_def)
next
  case (Some r)
  have "\<not> preferred c' r" if c': "c' \<in> C'" for c'
  proof -
    obtain c where "c \<in> C" "c'\<lparr>stale := False\<rparr> = c\<lparr>stale := False\<rparr>"
      using assms(2) [OF c'] by blast
    then show ?thesis
      using assms(3) Some preferred_stale(1) [of False c' r] preferred_stale(1) [of False c r]
      by (auto simp: best_of_def)
  qed
  moreover have "\<exists>c' \<in> C'. r\<lparr>stale := False\<rparr> = c'\<lparr>stale := False\<rparr>"
  proof -
    obtain c where "c \<in> C" "r\<lparr>stale := False\<rparr> = c\<lparr>stale := False\<rparr>"
      using assms(3) Some by (auto simp: best_of_def)
    then show ?thesis using assms(1) [of c] by metis
  qed
  ultimately show ?thesis using Some by (simp add: best_of_def)
qed

context hash_orders
begin

lemma process_update_adj:
  assumes "process_update F H peer asn ps a ws rib c = (rib', c')"
  shows "p' \<noteq> peer \<Longrightarrow> adj rib' p' k = adj rib p' k"
    and "k \<in> PrefixKey_from ` set ws \<Longrightarrow> adj rib' peer k = None"
    and "k \<notin> PrefixKey_from ` set ws \<Longrightarrow> adj rib' peer k = adj rib peer k \<or>
           (\<exists>r. adj rib' peer k = Some r \<and> fresh_route peer asn a (rpki rib) k r)"
    and "rpki rib' = rpki rib"
  by (rule process_update_staged [OF assms], simp add: adj_staged)+

lemma process_update_filed:
  assumes "filed_ok rib" and "process_update F H peer asn ps a ws rib c = (rib', c')"
  shows "filed_ok rib'"
  unfolding filed_ok_def process_update_adj(4) [OF assms(2)]
proof (intro allI impI)
  fix p k r assume r: "adj rib' p k = Some r"
  consider "adj rib p k = Some r" | "p = peer" "fresh_route peer asn a (rpki rib) k r"
    using process_update_adj(1) [OF assms(2), of p k] process_update_adj(2,3) [OF assms(2), of k] r
    by (cases "p = peer"; cases "k \<in> PrefixKey_from ` set ws") auto
  then show "route_filed (rpki rib) p k r"
    by cases (use assms(1) in \<open>simp_all add: filed_ok_def fresh_route_filed\<close>)
qed

lemma process_update_ok:
  assumes ok: "rib_ok rib" and eq: "process_update F H peer asn ps a ws rib c = (rib', c')"
  shows "rib_ok rib'"
  using eq
proof (rule process_update_staged)
  fix m ks t
  let ?rib = "staged peer ws m t rib"
  assume rib': "rib' = run_decisions H (ks @ map PrefixKey_from ws) ?rib"
    and m: "maps_ok rib \<Longrightarrow> hm_ok m" and t: "damp_ok (dampening rib) \<Longrightarrow> damp_ok t"
    and old: "\<And>k. k \<notin> set ks \<Longrightarrow> hm_get m k = adj rib peer k"
  have maps: "maps_ok ?rib" using ok m by (simp add: rib_ok_def maps_ok_staged)
  have "best_of (cands ?rib k) (hm_get (loc_rib ?rib) k)" if "k \<notin> set (ks @ map PrefixKey_from ws)" for k
  proof -
    have "cands ?rib k = cands rib k" using that old [of k] by (auto simp: cands_def adj_staged)
    then show ?thesis using ok by (simp add: rib_ok_def)
  qed
  then have "best_of (cands rib' k) (hm_get (loc_rib rib') k)" for k
    unfolding rib' by (rule decisions_restore [OF maps])
  moreover have "maps_ok rib'" "damp_ok (dampening rib')" "filed_ok rib'"
    using maps t ok process_update_filed [OF _ eq]
    by (simp_all add: rib' rib_ok_def decisions_maps_ok)
  ultimately show ?thesis by (simp add: rib_ok_def)
qed

lemma remove_peer_adj:
  assumes "remove_peer H peer rib = (ks, rib')"
  shows "adj rib' p k = (if p = peer then None else adj rib p k)"
    and "set ks = {k. adj rib peer k \<noteq> None}"
proof -
  have "adj_rib_in rib' = hm_remove peer (adj_rib_in rib)"
    using assms by (auto simp: remove_peer_def Let_def)
  then show "adj rib' p k = (if p = peer then None else adj rib p k)"
    by (simp add: adj_def hm_get_remove)
  show "set ks = {k. adj rib peer k \<noteq> None}"
  proof (cases "hm_get (adj_rib_in rib) peer")
    case None
    then show ?thesis using assms by (auto simp: remove_peer_def Let_def adj_def)
  next
    case (Some m)
    then have "ks = map fst (routes_order H m)" using assms by (simp add: remove_peer_def Let_def)
    then have "set ks = fst ` set m" by simp
    then show ?thesis by (simp add: adj_def Some map_of_eq_None_iff del: not_None_eq)
  qed
qed

lemma remove_peer_ok:
  assumes ok: "rib_ok rib" and eq: "remove_peer H peer rib = (ks, rib')"
  shows "rib_ok rib'"
proof -
  let ?rib = "rib\<lparr>adj_rib_in := hm_remove peer (adj_rib_in rib)\<rparr>"
  have rib': "rib' = (run_decisions H ks ?rib)\<lparr>dampening := damp_remove_peer peer (dampening rib)\<rparr>"
    using eq by (auto simp: remove_peer_def Let_def)
  have maps: "maps_ok ?rib" using ok by (simp add: rib_ok_def maps_ok_remove)
  have "best_of (cands ?rib k) (hm_get (loc_rib ?rib) k)" if "k \<notin> set ks" for k
  proof -
    have "adj rib peer k = None"
      using that remove_peer_adj(2) [OF eq] by auto
    then have "adj ?rib p k = adj rib p k" for p by (simp add: adj_remove)
    then have "cands ?rib k = cands rib k" by (simp add: cands_def)
    then show ?thesis using ok by (simp add: rib_ok_def)
  qed
  then have "best_of (cands (run_decisions H ks ?rib) k) (hm_get (loc_rib (run_decisions H ks ?rib)) k)" for k
    by (rule decisions_restore [OF maps])
  moreover have "filed_ok rib'"
    using ok remove_peer_adj(1) [OF eq] by (simp add: rib_ok_def filed_ok_def rib')
  ultimately show ?thesis
    using maps ok decisions_maps_ok [OF maps, of ks]
    by (simp add: rib_ok_def rib' cands_def damp_remove_peer_ok maps_ok_def)
qed

lemma mark_peer_stale_adj:
  "adj (mark_peer_stale peer rib) p k =
     (if p = peer then map_option (\<lambda>r. r\<lparr>stale := True\<rparr>) (adj rib p k) else adj rib p k)"
  by (auto simp: mark_peer_stale_def adj_def hm_get_insert hm_get_map_values split: option.splits)

lemma mark_peer_stale_ok:
  assumes ok: "rib_ok rib"
  shows "rib_ok (mark_peer_stale peer rib)"
proof -
  let ?rib = "mark_peer_stale peer rib"
  have keeps: "loc_rib ?rib = loc_rib rib" "dampening ?rib = dampening rib" "rpki ?rib = rpki rib"
    by (simp_all add: mark_peer_stale_def split: option.splits)
  have "best_of (cands ?rib k) (hm_get (loc_rib rib) k)" for k
  proof (rule best_of_stale)
    show "best_of (cands rib k) (hm_get (loc_rib rib) k)" using ok by (simp add: rib_ok_def)
    fix c assume "c \<in> cands rib k"
    then obtain p where p: "adj rib p k = Some c" by (auto simp: cands_def)
    have "(if p = peer then c\<lparr>stale := True\<rparr> else c) \<in> cands ?rib k"
      using p by (auto simp: cands_def mark_peer_stale_adj intro!: exI [of _ p])
    then show "\<exists>c' \<in> cands ?rib k. c'\<lparr>stale := False\<rparr> = c\<lparr>stale := False\<rparr>"
      by (rule bexI [rotated]) simp
  next
    fix c' assume "c' \<in> cands ?rib k"
    then obtain p c where "adj rib p k = Some c" "c' = c \<or> c' = c\<lparr>stale := True\<rparr>"
      by (auto simp: cands_def mark_peer_stale_adj split: if_splits)
    then show "\<exists>c \<in> cands rib k. c'\<lparr>stale := False\<rparr> = c\<lparr>stale := False\<rparr>"
      by (intro bexI [of _ c]) (auto simp: cands_def)
  qed
  moreover have "maps_ok ?rib"
    using ok by (auto simp: rib_ok_def maps_ok_def mark_peer_stale_def hm_get_insert split: option.splits)
  moreover have "filed_ok ?rib"
    using ok by (auto simp: rib_ok_def filed_ok_def mark_peer_stale_adj keeps)
  ultimately show ?thesis using ok by (simp add: rib_ok_def keeps)
qed

lemma remove_stale_keys:
  assumes "maps_ok rib" and "remove_stale_for_peer H peer rib = (ks, rib')"
  shows "set ks = {k. \<exists>r. adj rib peer k = Some r \<and> stale r}"
proof (cases "hm_get (adj_rib_in rib) peer")
  case None
  then show ?thesis using assms by (simp add: remove_stale_for_peer_def Let_def adj_def)
next
  case (Some m)
  then have "ks = map fst (filter (\<lambda>(k, r). stale r) (routes_order H m))"
    using assms(2) by (simp add: remove_stale_for_peer_def Let_def)
  moreover have "hm_ok m" using assms(1) Some by (simp add: maps_ok_def)
  ultimately show ?thesis using Some by (force simp: adj_def hm_in_set)
qed

text \<open>The RIB between the purge of the peer's table and the decision process.\<close>

lemma remove_stale_purged:
  assumes "remove_stale_for_peer H peer rib = (ks, rib')"
  obtains purged where "rib' = run_decisions H ks purged"
    "loc_rib purged = loc_rib rib" "dampening purged = dampening rib" "rpki purged = rpki rib"
    "maps_ok rib \<Longrightarrow> maps_ok purged"
    "\<And>p k. adj purged p k = (if p = peer \<and> k \<in> set ks then None else adj rib p k)"
proof (cases "hm_get (adj_rib_in rib) peer")
  case None
  then show ?thesis
    by (intro that [of rib]) (use assms in \<open>simp_all add: remove_stale_for_peer_def run_decisions_def\<close>)
next
  case (Some m)
  let ?m = "fold hm_remove ks m"
  let ?rib = "rib\<lparr>adj_rib_in := hm_insert peer ?m (adj_rib_in rib)\<rparr>"
  have m: "hm_get ?m k = (if k \<in> set ks then None else hm_get m k)" for k
    using hm_get_fold_remove [of "\<lambda>k. k" ks m k] by simp
  have ok: "maps_ok rib \<Longrightarrow> hm_ok ?m"
    using Some hm_ok_fold_remove [of m "\<lambda>k. k" ks] by (simp add: maps_ok_def)
  have rib': "rib' = run_decisions H ks
      (if ?m = [] then rib\<lparr>adj_rib_in := hm_remove peer (adj_rib_in rib)\<rparr> else ?rib)"
    using assms Some by (auto simp: remove_stale_for_peer_def Let_def delete_update_same)
  show ?thesis
  proof (cases "?m = []")
    case True
    have "adj (rib\<lparr>adj_rib_in := hm_remove peer (adj_rib_in rib)\<rparr>) p k =
        (if p = peer \<and> k \<in> set ks then None else adj rib p k)" for p k
      using True m [of k] Some by (simp add: adj_remove) (simp add: adj_def split: if_splits)
    then show ?thesis
      using True
      by (intro that [of "rib\<lparr>adj_rib_in := hm_remove peer (adj_rib_in rib)\<rparr>"])
         (simp_all add: rib' maps_ok_remove)
  next
    case False
    have "adj ?rib p k = (if p = peer \<and> k \<in> set ks then None else adj rib p k)" for p k
      using m [of k] Some by (simp add: adj_insert) (simp add: adj_def)
    then show ?thesis
      using False ok by (intro that [of ?rib]) (simp_all add: rib' maps_ok_insert)
  qed
qed

lemma remove_stale_ok:
  assumes ok: "rib_ok rib" and eq: "remove_stale_for_peer H peer rib = (ks, rib')"
  shows "rib_ok rib'"
  using eq
proof (rule remove_stale_purged)
  fix purged
  assume rib': "rib' = run_decisions H ks purged"
    and keeps: "loc_rib purged = loc_rib rib" "dampening purged = dampening rib" "rpki purged = rpki rib"
    and maps: "maps_ok rib \<Longrightarrow> maps_ok purged"
    and adj: "\<And>p k. adj purged p k = (if p = peer \<and> k \<in> set ks then None else adj rib p k)"
  have mp: "maps_ok purged" using ok maps by (simp add: rib_ok_def)
  have "best_of (cands purged k) (hm_get (loc_rib purged) k)" if "k \<notin> set ks" for k
    using that ok by (simp add: cands_def adj keeps rib_ok_def)
  then have "best_of (cands rib' k) (hm_get (loc_rib rib') k)" for k
    unfolding rib' by (rule decisions_restore [OF mp])
  moreover have "filed_ok rib'" using ok by (simp add: rib_ok_def filed_ok_def rib' adj keeps)
  ultimately show ?thesis using ok mp by (simp add: rib_ok_def rib' keeps decisions_maps_ok)
qed

end

section \<open>The RIB as a state machine\<close>

text \<open>
  The sessions and the restart timers call the operations in any order.  Each call may see the hash
  maps in a different order and the clock at any readings.
\<close>

inductive rib_step :: "'f f64_ops \<Rightarrow> 'f Rib \<Rightarrow> 'f Rib \<Rightarrow> bool" for F where
  update: "hash_orders H \<Longrightarrow> process_update F H peer asn ps a ws rib c = (rib', c') \<Longrightarrow>
    rib_step F rib rib'"
| peer_down: "hash_orders H \<Longrightarrow> remove_peer H peer rib = (ks, rib') \<Longrightarrow> rib_step F rib rib'"
| restart: "rib_step F rib (mark_peer_stale peer rib)"
| expire: "hash_orders H \<Longrightarrow> remove_stale_for_peer H peer rib = (ks, rib') \<Longrightarrow> rib_step F rib rib'"

inductive_cases rib_stepE: "rib_step F rib rib'"

lemma rib_step_ok: "rib_step F rib rib' \<Longrightarrow> rib_ok rib \<Longrightarrow> rib_ok rib'"
  by (erule rib_stepE)
     (auto intro: hash_orders.process_update_ok hash_orders.remove_peer_ok
        hash_orders.remove_stale_ok insertion.mark_peer_stale_ok)

text \<open>A new RIB whose operator has configured the validator \<open>v\<close>.\<close>

definition configured :: "'f f64_ops \<Rightarrow> RpkiValidator \<Rightarrow> 'f Rib" where
  "configured F v = (Rib_new F)\<lparr>rpki := v\<rparr>"

lemma rib_step_rpki: "rib_step F rib rib' \<Longrightarrow> rpki rib' = rpki rib"
proof (erule rib_stepE)
  fix H peer asn ps a ws c c'
  assume "hash_orders H" "process_update F H peer asn ps a ws rib c = (rib', c')"
  then show ?thesis by (rule hash_orders.process_update_adj(4))
next
  fix H peer ks
  assume h: "hash_orders H" and "remove_stale_for_peer H peer rib = (ks, rib')"
  then show ?thesis
    by (rule hash_orders.remove_stale_purged) (simp add: hash_orders.decisions_keeps [OF h])
qed (auto simp: remove_peer_def mark_peer_stale_def Let_def hash_orders.decisions_keeps
       split: option.splits)

interpretation rib: state_machine "\<lambda>rib. rib = configured F v" "rib_step F"
    "\<lambda>rib. rib_ok rib \<and> rpki rib = v"
  for F :: "'f f64_ops" and v
proof
  show "rib = configured F v \<Longrightarrow> rib_ok rib \<and> rpki rib = v" for rib
    by (simp add: configured_def rib_ok_def maps_ok_def filed_ok_def best_of_def cands_def adj_def
        Rib_new_def Rib_default_def)
  show "rib_ok rib \<and> rpki rib = v \<Longrightarrow> rib_step F rib rib' \<Longrightarrow> rib_ok rib' \<and> rpki rib' = v" for rib rib'
    using rib_step_ok rib_step_rpki by metis
qed

end
