(* ===== verification/Rib_Props.thy ===== *)
theory Rib_Props
  imports Rib_Correct
begin

text \<open>
  The properties of the routing information base: the contents of the Loc-RIB in every reachable
  state, what announcements, withdrawals, peer loss and graceful restart do to it, and longest prefix
  matching.
\<close>

section \<open>Maximal elements\<close>

lemma max_by_key_fold:
  "fold (\<lambda>x best. case best of None \<Rightarrow> Some x | Some y \<Rightarrow> if f x < f y then Some y else Some x) xs (Some z)
     = Some w \<Longrightarrow> w \<in> insert z (set xs) \<and> (\<forall>x \<in> insert z (set xs). f x \<le> (f w :: 'b::linorder))"
proof (induction xs arbitrary: z)
  case (Cons x xs)
  show ?case
  proof (cases "f x < f z")
    case True
    then show ?thesis using Cons.IH [of z] Cons.prems by auto
  next
    case False
    then show ?thesis using Cons.IH [of x] Cons.prems by auto
  qed
qed simp

lemma max_by_key_fold_Some:
  "\<exists>w. fold (\<lambda>x best. case best of None \<Rightarrow> Some x | Some y \<Rightarrow> if f x < f y then Some y else Some x) xs (Some z)
     = Some w"
  by (induction xs arbitrary: z) auto

lemma max_by_key_cases:
  fixes f :: "'a \<Rightarrow> 'b::linorder"
  obtains "xs = []" and "max_by_key f xs = None"
  | w where "max_by_key f xs = Some w" and "w \<in> set xs" and "\<forall>x \<in> set xs. f x \<le> f w"
proof (cases xs)
  case Nil
  then show ?thesis using that(1) by (simp add: max_by_key_def)
next
  case (Cons x ys)
  obtain w where w: "max_by_key f xs = Some w"
    using max_by_key_fold_Some [of f ys x] Cons by (auto simp: max_by_key_def)
  then show ?thesis
    using max_by_key_fold [of f ys x w] Cons by (intro that(2) [OF w]) (auto simp: max_by_key_def)
qed

section \<open>Longest prefix match\<close>

lemma shift_small:
  "unat l \<le> 32 \<Longrightarrow> unat (32 - ucast (l :: u8) :: u32) = 32 - unat l"
proof -
  assume l: "unat l \<le> 32"
  then have "(ucast l :: u32) \<le> 32" by (simp add: word_le_nat_alt)
  then show ?thesis by (simp add: unat_sub)
qed

lemma key_matches_iff:
  assumes "unat (key_prefix_len k) \<le> 32"
  shows "key_matches addr k \<longleftrightarrow> same_network (unat (key_prefix_len k)) addr (key_address k)"
proof (cases "key_prefix_len k = 0")
  case False
  then have "0 < unat (key_prefix_len k)" by (simp add: unat_gt_0)
  then show ?thesis
    using assms False by (simp add: key_matches_def shift_small same_network_shr)
qed (simp add: key_matches_def)

text \<open>For a length from 33 to 63 the wrapped shift compares only the leading \<open>length - 32\<close> bits.\<close>

lemma key_matches_over:
  assumes "32 < unat (key_prefix_len k)" and "unat (key_prefix_len k) < 64"
  shows "key_matches addr k \<longleftrightarrow> same_network (unat (key_prefix_len k) - 32) addr (key_address k)"
proof -
  let ?l = "unat (key_prefix_len k)"
  have "unat (32 - ucast (key_prefix_len k) :: u32) = (64 - ?l) + 32 * 134217727"
    using assms by (simp add: unat_sub_if')
  then have "unat (32 - ucast (key_prefix_len k) :: u32) mod 32 = (64 - ?l) mod 32"
    by (simp only: mod_mult_self2)
  then have "shr32 a (unat (32 - ucast (key_prefix_len k) :: u32)) = shr32 a (32 - (?l - 32))" for a
    using assms by (simp add: shr32_def)
  moreover have "key_prefix_len k \<noteq> 0" using assms(1) by auto
  ultimately show ?thesis
    using assms same_network_shr [of "?l - 32" addr "key_address k"] by (simp add: key_matches_def)
qed

section \<open>Entries of the Loc-RIB\<close>

lemma rib_ok_loc:
  assumes "rib_ok rib" and "hm_get (loc_rib rib) k = Some r"
  shows "\<exists>c. adj rib (peer_addr r) k = Some c \<and> r\<lparr>stale := False\<rparr> = c\<lparr>stale := False\<rparr>"
proof -
  obtain p c where c: "adj rib p k = Some c" "r\<lparr>stale := False\<rparr> = c\<lparr>stale := False\<rparr>"
    using assms by (auto simp: rib_ok_def best_of_def cands_def split: option.splits) fastforce
  have "peer_addr r = peer_addr c"
    using c(2) by (metis Route.select_convs(3) Route.surjective Route.update_convs(6))
  moreover have "peer_addr c = p"
    using assms(1) c(1) by (auto simp: rib_ok_def filed_ok_def route_filed_def)
  ultimately show ?thesis using c by auto
qed

lemma best_of_cands:
  assumes "best_of (cands rib k) entry"
  shows "entry = None \<longleftrightarrow> (\<forall>p. adj rib p k = None)"
    and "entry = Some r \<Longrightarrow> adj rib p k = Some c \<Longrightarrow> \<not> preferred c r"
  using assms by (auto simp: best_of_def cands_def split: option.splits) (metis not_None_eq)

section \<open>Properties\<close>

text \<open>C8: in every state the RIB can reach, through any interleaving of updates, peer losses and
  restart events, with any traversal order of the hash maps and any clock, the Loc-RIB is right.  It
  has an entry for a prefix exactly when some peer offers a route for it; the entry is a copy of such a
  route (up to the stale mark), and no route on offer is preferred to it under the rules of the decision
  process.\<close>

theorem loc_rib_best:
  assumes "(rib_step F)\<^sup>*\<^sup>* (configured F v) rib"
  shows "(hm_get (loc_rib rib) k = None \<longleftrightarrow> (\<forall>p. adj rib p k = None)) \<and>
         (\<forall>r. hm_get (loc_rib rib) k = Some r \<longrightarrow>
            (\<exists>c. adj rib (peer_addr r) k = Some c \<and> r\<lparr>stale := False\<rparr> = c\<lparr>stale := False\<rparr>) \<and>
            (\<forall>p c. adj rib p k = Some c \<longrightarrow> \<not> preferred c r))"
proof -
  have ok: "rib_ok rib" using rib.reachable_inv [OF refl assms] by simp
  then have "best_of (cands rib k) (hm_get (loc_rib rib) k)" by (simp add: rib_ok_def)
  from best_of_cands [OF this] rib_ok_loc [OF ok] show ?thesis by blast
qed

text \<open>One update from one peer, announcing one prefix.\<close>

definition one_update :: "real Rib" where
  "one_update = fst (process_update real_f64 insertion_order a_peer 65001 [Prefix_new 0x0A000000 8]
     PathAttributes_default [] (configured real_f64 RpkiValidator_default) (\<lambda>_. 5))"

lemma one_update_eq:
  "\<exists>c'. process_update real_f64 insertion_order a_peer 65001 [Prefix_new 0x0A000000 8]
     PathAttributes_default [] (configured real_f64 RpkiValidator_default) (\<lambda>_. 5) = (one_update, c')"
  by (simp add: one_update_def prod_eq_iff)

lemma one_update_step: "rib_step real_f64 (configured real_f64 RpkiValidator_default) one_update"
  using one_update_eq rib_step.update [OF insertion.hash_orders_axioms] by blast

lemma one_update_ok: "rib_ok one_update"
  using rib.reachable_inv [OF refl r_into_rtranclp [of "rib_step real_f64", OF one_update_step]] by simp

lemma configured_ok: "rib_ok (configured F v)"
  using rib.reachable_inv [OF refl rtranclp.rtrancl_refl] by blast

lemma one_update_adj:
  "adj one_update a_peer a_key = Some \<lparr>route_prefix = Prefix_new 0x0A000000 8,
     attrs = PathAttributes_default, peer_addr = a_peer, peer_as = 65001, received_at = 5, stale = False,
     rov_state = NotFound\<rparr>"
  unfolding one_update_def process_update_def
  by (simp add: configured_def Rib_new_def Rib_default_def Let_def install_routes.simps(2)
      check_advertisement_def DampeningTable_new_def validate_route_def RpkiValidator_default_def
      RpkiValidator_new_def should_reject_def Route_new_def now_def adj_def PrefixKey_from_def
      Prefix_new_def a_key_def insertion.decisions_keeps)

lemma one_update_only: "adj one_update p k \<noteq> None \<Longrightarrow> p = a_peer"
  by (auto simp: one_update_def process_update_def configured_def Rib_new_def Rib_default_def Let_def
      adj_def insertion.decisions_keeps split: prod.splits option.splits if_splits)

theorem loc_rib_best_witness:
  "hm_get (loc_rib one_update) a_key \<noteq> None"
  using loc_rib_best [OF r_into_rtranclp [of "rib_step real_f64", OF one_update_step], of a_key] one_update_adj by auto

lemma announced_installed:
  assumes "hash_orders H" and "rib_ok rib"
    and "process_update F H peer asn ps a ws rib c = (rib', c')"
    and "p \<in> set ps" and "PrefixKey_from p \<notin> PrefixKey_from ` set ws"
    and "\<not> is_suppressed peer (PrefixKey_from p) (dampening rib)"
    and "\<not> should_reject (rpki rib) (validate_route (rpki rib) (address p) (prefix_len p) asn)"
  shows "\<exists>r b. adj rib' peer (PrefixKey_from p) = Some r \<and>
           fresh_route peer asn a (rpki rib) (PrefixKey_from p) r \<and>
           hm_get (loc_rib rib') (PrefixKey_from p) = Some b \<and> \<not> preferred r b"
proof -
  let ?k = "PrefixKey_from p"
  from assms(3) obtain t1 c1 m ks t where st: "record_withdrawals F peer ws (dampening rib) c = (t1, c1)"
    "install_routes F peer asn a (rpki rib) ps
       (case hm_get (adj_rib_in rib) peer of Some m \<Rightarrow> m | None \<Rightarrow> []) [] t1 c1 = (m, ks, t, c')"
    "rib' = run_decisions H (ks @ map PrefixKey_from ws) (staged peer ws m t rib)"
    by (rule process_update_stages)
  have "damp_ok t1" "\<not> is_suppressed peer ?k t1"
    using assms(2,5,6) record_withdrawals_ok [OF _ st(1)] record_withdrawals_other [OF st(1), of ?k]
    by (simp_all add: rib_ok_def)
  then obtain r where r: "hm_get m ?k = Some r" "fresh_route peer asn a (rpki rib) ?k r"
    using install_routes_installs [OF st(2) assms(4)] assms(7) by blast
  have a: "adj rib' peer ?k = Some r"
    using r(1) assms(5) by (simp add: st(3) hash_orders.adj_decisions [OF assms(1)] adj_staged)
  have "rib_ok rib'" by (rule hash_orders.process_update_ok [OF assms(1-3)])
  then have "best_of (cands rib' ?k) (hm_get (loc_rib rib') ?k)" by (simp add: rib_ok_def)
  with a obtain b where "hm_get (loc_rib rib') ?k = Some b" "\<not> preferred r b"
    by (auto simp: best_of_def cands_def split: option.splits)
  with a r(2) show ?thesis by blast
qed

text \<open>C15: a withdrawal takes effect.  After an update the peer offers no route for any withdrawn
  prefix, even one that the same update announces, and the Loc-RIB entry for it, if there is one, comes
  from another peer; tables of other peers are untouched.\<close>

theorem withdraw_removes:
  assumes "hash_orders H" and "rib_ok rib"
    and "process_update F H peer asn ps a ws rib c = (rib', c')"
  shows "(\<forall>p \<in> set ws. adj rib' peer (PrefixKey_from p) = None \<and>
            (\<forall>r. hm_get (loc_rib rib') (PrefixKey_from p) = Some r \<longrightarrow> peer_addr r \<noteq> peer)) \<and>
         (\<forall>p' k. p' \<noteq> peer \<longrightarrow> adj rib' p' k = adj rib p' k)"
proof -
  note upd = hash_orders.process_update_adj [OF assms(1,3)]
  have ok: "rib_ok rib'" by (rule hash_orders.process_update_ok [OF assms])
  have "peer_addr r \<noteq> peer"
    if w: "p \<in> set ws" and r: "hm_get (loc_rib rib') (PrefixKey_from p) = Some r" for p r
    using rib_ok_loc [OF ok r] upd(2) [of "PrefixKey_from p"] w by auto
  then show ?thesis using upd(1,2) by simp
qed

theorem withdraw_removes_witness:
  "\<exists>rib' c'. process_update real_f64 reverse_order a_peer 65001 [] PathAttributes_default
       [Prefix_new 0x0A000000 8] one_update (\<lambda>_. 5) = (rib', c') \<and> adj rib' a_peer a_key = None"
proof -
  obtain rib' c' where eq: "process_update real_f64 reverse_order a_peer 65001 [] PathAttributes_default
       [Prefix_new 0x0A000000 8] one_update (\<lambda>_. 5) = (rib', c')" by force
  from withdraw_removes [OF reverse.hash_orders_axioms one_update_ok eq] eq show ?thesis
    by (simp add: PrefixKey_from_def Prefix_new_def a_key_def)
qed

text \<open>C24: losing a peer removes it.  \<^verbatim>\<open>remove_peer\<close> returns exactly the prefixes the peer offered,
  leaves no route of the peer in its table or in the Loc-RIB, keeps the tables of the other peers and the
  invariant, and leaves no dampening entry of the peer, penalty included, while the entries of the other peers
  stay; so the next advertisement of the peer is not suppressed.\<close>

theorem remove_peer_complete:
  assumes "hash_orders H" and "rib_ok rib" and "remove_peer H peer rib = (ks, rib')"
  shows "set ks = {k. adj rib peer k \<noteq> None} \<and> (\<forall>k. adj rib' peer k = None) \<and>
         (\<forall>k r. hm_get (loc_rib rib') k = Some r \<longrightarrow> peer_addr r \<noteq> peer) \<and>
         (\<forall>p k. p \<noteq> peer \<longrightarrow> adj rib' p k = adj rib p k) \<and> rib_ok rib' \<and>
         (\<forall>p k. hm_get (damp_state (dampening rib')) (p, k) =
            (if p = peer then None else hm_get (damp_state (dampening rib)) (p, k))) \<and>
         (\<forall>k c. \<not> fst (check_advertisement F peer k (dampening rib') c))"
proof -
  note adj = hash_orders.remove_peer_adj [OF assms(1,3)]
  have ok: "rib_ok rib'" by (rule hash_orders.remove_peer_ok [OF assms])
  have damp: "dampening rib' = damp_remove_peer peer (dampening rib)"
    using assms(3) by (auto simp: remove_peer_def Let_def hash_orders.decisions_keeps [OF assms(1)])
  then have "\<not> fst (check_advertisement F peer k (dampening rib') c)" for k c
    using assms(2) by (simp add: rib_ok_def damp.forget_then_advertise)
  moreover have "hm_get (damp_state (dampening rib')) (p, k) =
      (if p = peer then None else hm_get (damp_state (dampening rib)) (p, k))" for p k
    by (simp add: damp damp_remove_peer_def hm_get_retain)
  moreover have "peer_addr r \<noteq> peer" if "hm_get (loc_rib rib') k = Some r" for k r
    using rib_ok_loc [OF ok that] adj(1) [of "peer_addr r" k] by (auto split: if_splits)
  ultimately show ?thesis using adj ok by simp
qed

theorem remove_peer_complete_witness:
  "hm_get (loc_rib (snd (remove_peer insertion_order a_peer one_update))) a_key = None"
proof -
  obtain ks rib' where eq: "remove_peer insertion_order a_peer one_update = (ks, rib')" by force
  note gone = remove_peer_complete [OF insertion.hash_orders_axioms one_update_ok eq, of real_f64]
  have "peer_addr r = a_peer" if "hm_get (loc_rib rib') a_key = Some r" for r
  proof -
    have "adj rib' (peer_addr r) a_key \<noteq> None"
      using gone rib_ok_loc [of rib' a_key r] that by auto
    then have "adj one_update (peer_addr r) a_key \<noteq> None" using gone by metis
    then show ?thesis by (rule one_update_only)
  qed
  then show ?thesis using gone eq by (cases "hm_get (loc_rib rib') a_key") auto
qed

text \<open>C25: graceful restart.  When a peer's routes are marked stale, the peer comes back and sends an
  update, and then its restart time expires, the peer offers exactly the routes of that update: every
  route that remains is a fresh one, every route that was not announced again is reported as removed, and
  the other peers' routes are as they were.\<close>

theorem graceful_restart:
  assumes "hash_orders H" and "rib_ok rib"
    and "process_update F H peer asn ps a ws (mark_peer_stale peer rib) c = (rib2, c')"
    and "hash_orders H'" and "remove_stale_for_peer H' peer rib2 = (ks, rib3)"
  shows "(\<forall>k r. adj rib3 peer k = Some r \<longleftrightarrow>
            adj rib2 peer k = Some r \<and> fresh_route peer asn a (rpki rib) k r) \<and>
         set ks = {k. \<exists>r. adj rib2 peer k = Some r \<and> stale r} \<and>
         (\<forall>p k. p \<noteq> peer \<longrightarrow> adj rib3 p k = adj rib p k) \<and> rib_ok rib3"
proof -
  let ?rib1 = "mark_peer_stale peer rib"
  have ok1: "rib_ok ?rib1" by (rule hash_orders.mark_peer_stale_ok [OF assms(1,2)])
  have ok2: "rib_ok rib2" by (rule hash_orders.process_update_ok [OF assms(1) ok1 assms(3)])
  have rpki1: "rpki ?rib1 = rpki rib" by (simp add: mark_peer_stale_def split: option.splits)
  note stale1 = hash_orders.mark_peer_stale_adj [OF assms(1), of peer rib]
  note upd = hash_orders.process_update_adj [OF assms(1,3), unfolded rpki1]
  have ks: "set ks = {k. \<exists>r. adj rib2 peer k = Some r \<and> stale r}"
    using ok2 hash_orders.remove_stale_keys [OF assms(4) _ assms(5)] by (simp add: rib_ok_def)
  have adj3: "adj rib3 p k = (if p = peer \<and> k \<in> set ks then None else adj rib2 p k)" for p k
    by (rule hash_orders.remove_stale_purged [OF assms(4,5)])
       (simp add: hash_orders.adj_decisions [OF assms(4)])
  have fresh: "stale r \<longleftrightarrow> \<not> fresh_route peer asn a (rpki rib) k r" if "adj rib2 peer k = Some r" for k r
    using upd(2,3) [of k] that stale1 [of peer k]
    by (cases "k \<in> PrefixKey_from ` set ws"; cases "adj rib peer k") (auto simp: fresh_route_def)
  have "adj rib3 peer k = Some r \<longleftrightarrow>
      adj rib2 peer k = Some r \<and> fresh_route peer asn a (rpki rib) k r" for k r
    using fresh [of k] by (auto simp: adj3 ks)
  moreover have "adj rib3 p k = adj rib p k" if "p \<noteq> peer" for p k
    using that upd(1) [of p k] stale1 [of p k] by (simp add: adj3)
  moreover have "rib_ok rib3" by (rule hash_orders.remove_stale_ok [OF assms(4) ok2 assms(5)])
  ultimately show ?thesis using ks by simp
qed

theorem graceful_restart_witness:
  "\<exists>rib2 c' ks rib3. process_update real_f64 insertion_order a_peer 65001 [] PathAttributes_default []
       (mark_peer_stale a_peer one_update) (\<lambda>_. 6) = (rib2, c') \<and>
     remove_stale_for_peer reverse_order a_peer rib2 = (ks, rib3) \<and>
     set ks = {k. \<exists>r. adj rib2 a_peer k = Some r \<and> stale r}"
proof -
  obtain rib2 c' where u: "process_update real_f64 insertion_order a_peer 65001 [] PathAttributes_default []
       (mark_peer_stale a_peer one_update) (\<lambda>_. 6) = (rib2, c')" by force
  obtain ks rib3 where r: "remove_stale_for_peer reverse_order a_peer rib2 = (ks, rib3)" by force
  from graceful_restart [OF insertion.hash_orders_axioms one_update_ok u reverse.hash_orders_axioms r] u r
  show ?thesis by blast
qed

text \<open>C27: with strict origin validation an invalid route never gets in.  In every reachable state each
  Loc-RIB entry carries the validation state that the configured table gives it, and that state is not
  one the mode rejects.\<close>

theorem strict_never_installs_invalid:
  assumes "(rib_step F)\<^sup>*\<^sup>* (configured F v) rib" and "hm_get (loc_rib rib) k = Some r"
  shows "rov_state r = validate_route v (key_address k) (key_prefix_len k) (peer_as r) \<and>
         \<not> (rpki_mode v = Strict \<and> rov_state r = Invalid)"
proof -
  have ok: "rib_ok rib" and v: "rpki rib = v" using rib.reachable_inv [OF refl assms(1)] by simp_all
  obtain c where "adj rib (peer_addr r) k = Some c" and rc: "r\<lparr>stale := False\<rparr> = c\<lparr>stale := False\<rparr>"
    using rib_ok_loc [OF ok assms(2)] by blast
  then have "route_filed v (peer_addr r) k c" using ok v by (auto simp: rib_ok_def filed_ok_def)
  then have "route_filed v (peer_addr r) k r" using rc route_filed_stale by metis
  then show ?thesis by (auto simp: route_filed_def should_reject_def)
qed

text \<open>An update with the authorised origin, under strict validation.\<close>

definition strict_update :: "real Rib" where
  "strict_update = fst (process_update real_f64 insertion_order a_peer 65001 [Prefix_new 0x0A000000 8]
     PathAttributes_default [] (configured real_f64 sample_validator) (\<lambda>_. 5))"

lemma strict_update_adj: "adj strict_update a_peer a_key \<noteq> None"
proof -
  have "validate_route sample_validator 0x0A000000 8 65001 = Valid" by code_simp
  then show ?thesis
    unfolding strict_update_def process_update_def
    by (simp add: configured_def Rib_new_def Rib_default_def Let_def install_routes.simps(2)
        check_advertisement_def DampeningTable_new_def should_reject_def Route_new_def now_def adj_def
        PrefixKey_from_def Prefix_new_def a_key_def insertion.decisions_keeps)
qed

theorem strict_never_installs_invalid_witness:
  "rpki_mode sample_validator = Strict \<and>
   (\<exists>r. hm_get (loc_rib strict_update) a_key = Some r \<and> rov_state r \<noteq> Invalid)"
proof -
  obtain c where "process_update real_f64 insertion_order a_peer 65001 [Prefix_new 0x0A000000 8]
      PathAttributes_default [] (configured real_f64 sample_validator) (\<lambda>_. 5) = (strict_update, c)"
    by (simp add: strict_update_def prod_eq_iff)
  then have step: "rib_step real_f64 (configured real_f64 sample_validator) strict_update"
    by (rule rib_step.update [OF insertion.hash_orders_axioms])
  note reach = r_into_rtranclp [of "rib_step real_f64", OF step]
  have "rib_ok strict_update" using rib.reachable_inv [OF refl reach] by simp
  then have "best_of (cands strict_update a_key) (hm_get (loc_rib strict_update) a_key)" by (simp add: rib_ok_def)
  then obtain r where r: "hm_get (loc_rib strict_update) a_key = Some r"
    using best_of_cands(1) strict_update_adj by (metis not_Some_eq)
  have "rpki_mode sample_validator = Strict" by code_simp
  with strict_never_installs_invalid [OF reach r] r show ?thesis by blast
qed

text \<open>C26: the outcome of the decision process does not depend on the traversal order of the hash maps
  when no two candidates tie on all five criteria, in particular when they were received at different
  instants.\<close>

theorem decision_order_independent:
  assumes "hash_orders H" and "hash_orders H'" and "maps_ok rib"
    and "\<forall>p q r s. adj rib p key = Some r \<and> adj rib q key = Some s \<and> r \<noteq> s \<longrightarrow>
           received_at r \<noteq> received_at s"
  shows "hm_get (loc_rib (run_decision_process H key rib)) k =
         hm_get (loc_rib (run_decision_process H' key rib)) k"
proof (cases "k = key")
  case True
  have tie: "r = s" if "r \<in> cands rib key" "s \<in> cands rib key" "\<not> preferred r s" "\<not> preferred s r" for r s
    using assms(4) that by (fastforce simp: cands_def preferred_def)
  show ?thesis
    using hash_orders.decision_best [OF assms(1,3), of key] hash_orders.decision_best [OF assms(2,3), of key]
      tie True
    by (auto split: option.splits)
next
  case False
  then show ?thesis
    by (simp add: hash_orders.decision_loc [OF assms(1)] hash_orders.decision_loc [OF assms(2)])
qed

text \<open>The same prefix from a second peer, received an instant later.\<close>

definition b_peer :: SocketAddr where
  "b_peer = a_peer\<lparr>sock_port := 5\<rparr>"

lemma b_peer_differs [simp]: "b_peer \<noteq> a_peer" "a_peer \<noteq> b_peer"
  by (simp_all add: b_peer_def a_peer_def)

definition two_updates :: "real Rib" where
  "two_updates = fst (process_update real_f64 insertion_order b_peer 65002 [Prefix_new 0x0A000000 8]
     PathAttributes_default [] one_update (\<lambda>_. 6))"

lemma one_update_keeps:
  "rpki one_update = RpkiValidator_default" "damp_state (dampening one_update) = []"
  "map fst (adj_rib_in one_update) = [a_peer]"
  unfolding one_update_def process_update_def
  by (simp_all add: configured_def Rib_new_def Rib_default_def Let_def install_routes.simps(2)
      check_advertisement_def DampeningTable_new_def validate_route_def RpkiValidator_default_def
      RpkiValidator_new_def should_reject_def Route_new_def now_def insertion.decisions_keeps)

lemma two_updates_ok: "rib_ok two_updates"
proof -
  obtain c where "process_update real_f64 insertion_order b_peer 65002 [Prefix_new 0x0A000000 8]
      PathAttributes_default [] one_update (\<lambda>_. 6) = (two_updates, c)"
    by (simp add: two_updates_def prod_eq_iff)
  then show ?thesis by (rule insertion.process_update_ok [OF one_update_ok])
qed

lemma two_updates_offer:
  "\<exists>r. adj two_updates b_peer a_key = Some r \<and> received_at r = 6"
  "p \<noteq> b_peer \<Longrightarrow> adj two_updates p k = adj one_update p k"
  "\<exists>m. adj_rib_in two_updates = hm_insert b_peer m (adj_rib_in one_update)"
  unfolding two_updates_def process_update_def
  by (auto simp: one_update_keeps Let_def install_routes.simps check_advertisement_def validate_route_def
      RpkiValidator_default_def RpkiValidator_new_def should_reject_def Route_new_def now_def adj_def
      PrefixKey_from_def Prefix_new_def a_key_def insertion.decisions_keeps record_withdrawals.simps
      hm_get_insert)

theorem decision_order_independent_witness:
  "\<exists>r s. adj two_updates a_peer a_key = Some r \<and> adj two_updates b_peer a_key = Some s \<and>
     received_at r = 5 \<and> received_at s = 6 \<and>
     candidates insertion_order two_updates a_key = [r, s] \<and> candidates reverse_order two_updates a_key = [s, r] \<and>
     hm_get (loc_rib (run_decision_process insertion_order a_key two_updates)) a_key =
     hm_get (loc_rib (run_decision_process reverse_order a_key two_updates)) a_key"
proof -
  obtain r where r: "adj two_updates a_peer a_key = Some r" "received_at r = 5"
    using two_updates_offer(2) [of a_peer a_key] one_update_adj by simp
  obtain s where s: "adj two_updates b_peer a_key = Some s" "received_at s = 6"
    using two_updates_offer(1) by blast
  have only: "p = a_peer \<or> p = b_peer" if "adj two_updates p k \<noteq> None" for p k
    using that two_updates_offer(2) [of p k] one_update_only [of p k] by metis
  obtain m n where mn: "adj_rib_in two_updates = [(a_peer, m), (b_peer, n)]"
    using two_updates_offer(3) one_update_keeps(3) by (auto simp: map_eq_Cons_conv)
  then have "hm_get m a_key = Some r" "hm_get n a_key = Some s"
    using r(1) s(1) by (simp_all add: adj_def)
  then have cands: "candidates insertion_order two_updates a_key = [r, s]"
    "candidates reverse_order two_updates a_key = [s, r]"
    by (simp_all add: candidates_def mn insertion_order_def reverse_order_def List.map_filter_simps)
  have "maps_ok two_updates" using two_updates_ok by (simp add: rib_ok_def)
  moreover have "received_at r' \<noteq> received_at s'"
    if "adj two_updates p a_key = Some r'" "adj two_updates q a_key = Some s'" "r' \<noteq> s'" for p q r' s'
    using that only [of p a_key] only [of q a_key] r s by auto
  then have "\<forall>p q r' s'. adj two_updates p a_key = Some r' \<and> adj two_updates q a_key = Some s' \<and> r' \<noteq> s' \<longrightarrow>
      received_at r' \<noteq> received_at s'" by blast
  ultimately have "hm_get (loc_rib (run_decision_process insertion_order a_key two_updates)) a_key =
      hm_get (loc_rib (run_decision_process reverse_order a_key two_updates)) a_key"
    by (rule decision_order_independent [OF insertion.hash_orders_axioms reverse.hash_orders_axioms])
  with r s cands show ?thesis by blast
qed

text \<open>C16: longest prefix match.  On a Loc-RIB whose prefixes have at most 32 bits the result is an entry
  that contains the address, and no entry that contains it is longer; there is no result exactly when no
  entry contains the address.\<close>

theorem longest_match_correct:
  assumes "hash_orders H" and "hm_ok (loc_rib rib)"
    and "\<forall>k r. hm_get (loc_rib rib) k = Some r \<longrightarrow> unat (key_prefix_len k) \<le> 32"
  shows "case longest_match H addr rib of
           None \<Rightarrow> \<forall>k r. hm_get (loc_rib rib) k = Some r \<longrightarrow>
             \<not> same_network (unat (key_prefix_len k)) addr (key_address k)
         | Some (k, r) \<Rightarrow> hm_get (loc_rib rib) k = Some r \<and>
             same_network (unat (key_prefix_len k)) addr (key_address k) \<and>
             (\<forall>k' r'. hm_get (loc_rib rib) k' = Some r' \<and>
                same_network (unat (key_prefix_len k')) addr (key_address k') \<longrightarrow>
                key_prefix_len k' \<le> key_prefix_len k)"
proof -
  let ?xs = "filter (\<lambda>(key, r). key_matches addr key) (routes_order H (loc_rib rib))"
  have xs: "(k, r) \<in> set ?xs \<longleftrightarrow> hm_get (loc_rib rib) k = Some r \<and>
      same_network (unat (key_prefix_len k)) addr (key_address k)" for k r
    using assms(3) hash_orders.routes_set [OF assms(1)] key_matches_iff [of k addr]
    by (auto simp: hm_in_set [OF assms(2)])
  show ?thesis
    unfolding longest_match_def
    by (rule max_by_key_cases [of ?xs "\<lambda>(key, r). key_prefix_len key"])
       (use xs in \<open>auto simp: filter_empty_conv split: prod.splits\<close>)
qed

text \<open>A Loc-RIB with a default route and two nested networks.\<close>

definition sample_route :: Route where
  "sample_route = \<lparr>route_prefix = Prefix_new 0 0, attrs = PathAttributes_default, peer_addr = a_peer,
     peer_as = 65001, received_at = 0, stale = False, rov_state = NotFound\<rparr>"

definition key_of :: "Ipv4Addr \<Rightarrow> u8 \<Rightarrow> PrefixKey" where
  "key_of a l = \<lparr>key_address = a, key_prefix_len = l\<rparr>"

definition sample_loc :: LocRib where
  "sample_loc = [(key_of 0 0, sample_route), (key_of 0x0A000000 8, sample_route),
     (key_of 0x0A010000 16, sample_route)]"

theorem longest_match_correct_witness:
  "\<exists>k r. longest_match insertion_order 0x0A010203 ((Rib_new real_f64)\<lparr>loc_rib := sample_loc\<rparr>) = Some (k, r) \<and>
         16 \<le> key_prefix_len k"
proof -
  let ?rib = "(Rib_new real_f64)\<lparr>loc_rib := sample_loc\<rparr>"
  have ok: "hm_ok (loc_rib ?rib)" by (simp add: sample_loc_def hm_ok_def key_of_def)
  have "same_network 16 0x0A010203 0x0A010000"
    by (subst same_network_shr [symmetric]) (simp_all add: shr32_def)
  then have inner: "hm_get (loc_rib ?rib) (key_of 0x0A010000 16) = Some sample_route"
    "same_network (unat (key_prefix_len (key_of 0x0A010000 16))) 0x0A010203
       (key_address (key_of 0x0A010000 16))" "key_prefix_len (key_of 0x0A010000 16) = 16"
    by (simp_all add: sample_loc_def key_of_def)
  have small: "\<forall>k r. hm_get (loc_rib ?rib) k = Some r \<longrightarrow> unat (key_prefix_len k) \<le> 32"
    by (auto simp: sample_loc_def key_of_def split: if_splits)
  note lm = longest_match_correct [OF insertion.hash_orders_axioms ok small, of "0x0A010203"]
  show ?thesis
  proof (cases "longest_match insertion_order 0x0A010203 ?rib")
    case None
    from lm [unfolded None option.case] inner show ?thesis by blast
  next
    case (Some kr)
    obtain k r where kr: "kr = (k, r)" by force
    from lm [unfolded Some kr option.case prod.case] inner
    have "key_prefix_len (key_of 0x0A010000 16) \<le> key_prefix_len k" by blast
    then show ?thesis using Some kr inner(3) by simp
  qed
qed

text \<open>C40: an oversized prefix captures traffic.  An entry whose length is from 33 to 63, which the
  UPDATE parser accepts, matches every address that shares its leading \<open>length - 32\<close> bits, because the
  shift amount wraps; and being the longest it is preferred to every proper route for those addresses.\<close>

theorem oversized_prefix_captures:
  assumes "hash_orders H" and "hm_ok (loc_rib rib)" and "hm_get (loc_rib rib) k = Some r"
    and "32 < unat (key_prefix_len k)" and "unat (key_prefix_len k) < 64"
    and "same_network (unat (key_prefix_len k) - 32) addr (key_address k)"
  shows "\<exists>k' r'. longest_match H addr rib = Some (k', r') \<and> key_prefix_len k \<le> key_prefix_len k'"
proof -
  let ?xs = "filter (\<lambda>(key, r). key_matches addr key) (routes_order H (loc_rib rib))"
  have "(k, r) \<in> set ?xs"
    using assms hash_orders.routes_set [OF assms(1)] by (simp add: hm_in_set key_matches_over)
  then show ?thesis
    unfolding longest_match_def
    by (cases rule: max_by_key_cases [of ?xs "\<lambda>(key, r). key_prefix_len key"]) auto
qed

theorem oversized_prefix_captures_witness:
  "\<exists>k' r'. longest_match reverse_order 0x0A010203
       ((Rib_new real_f64)\<lparr>loc_rib := (key_of 0x0AFFFFFF 40, sample_route) # sample_loc\<rparr>) = Some (k', r') \<and>
     40 \<le> key_prefix_len k'"
proof -
  have "same_network 8 0x0A010203 0x0AFFFFFF"
    by (subst same_network_shr [symmetric]) (simp_all add: shr32_def)
  then show ?thesis
    using oversized_prefix_captures [OF reverse.hash_orders_axioms,
        of "(Rib_new real_f64)\<lparr>loc_rib := (key_of 0x0AFFFFFF 40, sample_route) # sample_loc\<rparr>"
        "key_of 0x0AFFFFFF 40" sample_route "0x0A010203"]
    by (simp add: hm_ok_def sample_loc_def key_of_def)
qed

end
