(* ===== verification/Fsm.thy ===== *)
theory Fsm
  imports Std_Lib
begin

text \<open>
  The finite state machine and the timers of a session: \<^verbatim>\<open>src/fsm.rs\<close>, \<^verbatim>\<open>src/timer.rs\<close> and the
  transition function of \<^verbatim>\<open>src/peer.rs\<close>.
\<close>

section \<open>States and events\<close>

datatype BgpState = Idle | Connect | Active | OpenSent | OpenConfirm | Established

definition BgpState_to_string :: "BgpState \<Rightarrow> string" where
  "BgpState_to_string s = (case s of
     Idle \<Rightarrow> ''Idle'' | Connect \<Rightarrow> ''Connect'' | Active \<Rightarrow> ''Active'' | OpenSent \<Rightarrow> ''OpenSent''
   | OpenConfirm \<Rightarrow> ''OpenConfirm'' | Established \<Rightarrow> ''Established'')"

datatype BgpEvent =
    ManualStart | ManualStop | TcpConnectionConfirmed | TcpConnectionFail | BgpOpen | KeepAliveMsg
  | UpdateMsg | NotifMsg | HoldTimerExpired | KeepaliveTimerExpired

text \<open>The \<^verbatim>\<open>match\<close> of \<^verbatim>\<open>Peer::transition\<close>, whose arms are tried in order.\<close>

definition next_state :: "BgpState \<Rightarrow> BgpEvent \<Rightarrow> BgpState" where
  "next_state s e = (case (s, e) of
     (Idle, ManualStart) \<Rightarrow> Connect
   | (Connect, TcpConnectionConfirmed) \<Rightarrow> OpenSent
   | (Connect, TcpConnectionFail) \<Rightarrow> Active
   | (Active, TcpConnectionConfirmed) \<Rightarrow> OpenSent
   | (OpenSent, BgpOpen) \<Rightarrow> OpenConfirm
   | (OpenConfirm, KeepAliveMsg) \<Rightarrow> Established
   | (Established, NotifMsg) \<Rightarrow> Idle
   | (Established, TcpConnectionFail) \<Rightarrow> Idle
   | (_, ManualStop) \<Rightarrow> Idle
   | (_, HoldTimerExpired) \<Rightarrow> Idle
   | _ \<Rightarrow> s)"

section \<open>Timers\<close>

record BgpTimers =
  hold_time :: u16
  keepalive_interval :: u16
  hold_timer_start :: "Instant option"
  keepalive_timer_start :: "Instant option"

definition BgpTimers_new :: "u16 \<Rightarrow> BgpTimers" where
  "BgpTimers_new h =
     \<lparr>hold_time = h, keepalive_interval = (if h > 0 then h div 3 else 0),
      hold_timer_start = None, keepalive_timer_start = None\<rparr>"

definition reset_hold_timer :: "BgpTimers \<Rightarrow> clock \<Rightarrow> BgpTimers \<times> clock" where
  "reset_hold_timer t c =
     (if hold_time t > 0 then let (n, c) = now c in (t\<lparr>hold_timer_start := Some n\<rparr>, c) else (t, c))"

definition reset_keepalive_timer :: "BgpTimers \<Rightarrow> clock \<Rightarrow> BgpTimers \<times> clock" where
  "reset_keepalive_timer t c =
     (if keepalive_interval t > 0
      then let (n, c) = now c in (t\<lparr>keepalive_timer_start := Some n\<rparr>, c) else (t, c))"

definition hold_timer_expired :: "BgpTimers \<Rightarrow> clock \<Rightarrow> bool \<times> clock" where
  "hold_timer_expired t c =
     (if hold_time t = 0 then (False, c)
      else case hold_timer_start t of
        Some s \<Rightarrow> let (d, c) = elapsed s c in (from_secs (unat (hold_time t)) \<le> d, c)
      | None \<Rightarrow> (False, c))"

definition keepalive_due :: "BgpTimers \<Rightarrow> clock \<Rightarrow> bool \<times> clock" where
  "keepalive_due t c =
     (if keepalive_interval t = 0 then (False, c)
      else case keepalive_timer_start t of
        Some s \<Rightarrow> let (d, c) = elapsed s c in (from_secs (unat (keepalive_interval t)) \<le> d, c)
      | None \<Rightarrow> (True, c))"

record LocalConfig =
  local_as :: u32
  router_id :: Ipv4Addr
  local_hold_time :: u16

definition LocalConfig_new :: "u32 \<Rightarrow> Ipv4Addr \<Rightarrow> LocalConfig" where
  "LocalConfig_new asn rid = \<lparr>local_as = asn, router_id = rid, local_hold_time = 90\<rparr>"

section \<open>Lemmas\<close>

text \<open>Established is entered only from OpenConfirm, and OpenConfirm only from OpenSent.\<close>

lemma next_state_Established:
  "next_state s e = Established \<longleftrightarrow> s = OpenConfirm \<and> e = KeepAliveMsg \<or>
     s = Established \<and> e \<notin> {NotifMsg, TcpConnectionFail, ManualStop, HoldTimerExpired}"
  by (cases s; cases e) (simp_all add: next_state_def)

lemma next_state_OpenConfirm:
  "next_state s e = OpenConfirm \<longleftrightarrow> s = OpenSent \<and> e = BgpOpen \<or>
     s = OpenConfirm \<and> e \<notin> {KeepAliveMsg, ManualStop, HoldTimerExpired}"
  by (cases s; cases e) (simp_all add: next_state_def)

lemma next_state_drop: "next_state s TcpConnectionFail \<noteq> Established" "next_state s HoldTimerExpired = Idle"
  by (cases s; simp add: next_state_def)+

lemma hold_timer_expired_fst:
  "fst (hold_timer_expired t c) \<longleftrightarrow> hold_time t \<noteq> 0 \<and>
     (\<exists>s. hold_timer_start t = Some s \<and> from_secs (unat (hold_time t)) \<le> c 0 - s)"
  by (auto simp: hold_timer_expired_def elapsed_def now_def Let_def split: option.splits)

lemma keepalive_interval_thirds:
  assumes "3 \<le> unat h"
  shows "0 < unat (h div 3)" and "3 * unat (h div 3) \<le> unat (h :: u16)"
  using assms by (simp_all add: unat_div)

section \<open>Properties\<close>

text \<open>C9: the handshake cannot be skipped.  A run of the state machine that starts in Idle and is
  Established at the end received, in this order, a BGP OPEN in state OpenSent and then a KEEPALIVE in
  state OpenConfirm.\<close>

theorem established_needs_handshake:
  assumes "foldl next_state Idle es = Established"
  shows "\<exists>es1 es2 es3. es = es1 @ [BgpOpen] @ es2 @ [KeepAliveMsg] @ es3 \<and>
           foldl next_state Idle es1 = OpenSent \<and>
           foldl next_state Idle (es1 @ [BgpOpen] @ es2) = OpenConfirm"
proof -
  have confirm: "\<exists>es1 es2. es = es1 @ [BgpOpen] @ es2 \<and> foldl next_state Idle es1 = OpenSent"
    if "foldl next_state Idle es = OpenConfirm" for es
    using that
  proof (induction es rule: rev_induct)
    case (snoc e es)
    from snoc.prems consider "foldl next_state Idle es = OpenSent" "e = BgpOpen"
      | "foldl next_state Idle es = OpenConfirm"
      by (auto simp: next_state_OpenConfirm)
    then show ?case
    proof cases
      case 1
      then show ?thesis by (intro exI [of _ es] exI [of _ "[]"]) simp
    next
      case 2
      then show ?thesis using snoc.IH by (metis append.assoc)
    qed
  qed simp
  show ?thesis
    using assms
  proof (induction es rule: rev_induct)
    case (snoc e es)
    from snoc.prems consider "foldl next_state Idle es = OpenConfirm" "e = KeepAliveMsg"
      | "foldl next_state Idle es = Established"
      by (auto simp: next_state_Established)
    then show ?case
    proof cases
      case 1
      then obtain es1 es2 where "es = es1 @ [BgpOpen] @ es2" "foldl next_state Idle es1 = OpenSent"
        using confirm by blast
      with 1 show ?thesis by (intro exI [of _ es1] exI [of _ es2] exI [of _ "[]"]) simp
    next
      case 2
      then obtain es1 es2 es3 where "es = es1 @ [BgpOpen] @ es2 @ [KeepAliveMsg] @ es3"
        "foldl next_state Idle es1 = OpenSent"
        "foldl next_state Idle (es1 @ [BgpOpen] @ es2) = OpenConfirm"
        using snoc.IH by blast
      then show ?thesis
        by (intro exI [of _ es1] exI [of _ es2] exI [of _ "es3 @ [e]"]) simp
    qed
  qed simp
qed

theorem established_needs_handshake_witness:
  "\<exists>es1 es2 es3. [ManualStart, TcpConnectionConfirmed, BgpOpen, KeepAliveMsg] =
       es1 @ [BgpOpen] @ es2 @ [KeepAliveMsg] @ es3 \<and>
     foldl next_state Idle es1 = OpenSent \<and>
     foldl next_state Idle (es1 @ [BgpOpen] @ es2) = OpenConfirm"
  by (rule established_needs_handshake) (simp add: next_state_def)

end
