(* ===== verification/Metrics.thy ===== *)
theory Metrics
  imports Text
begin

text \<open>
  The counters of the daemon, \<^verbatim>\<open>src/metrics.rs\<close>, and their two text forms.  The counters are
  independent atomic 64-bit integers; an increment wraps.
\<close>

record Metrics =
  sessions_established :: u64
  sessions_failed :: u64
  sessions_active :: u64
  messages_rx_open :: u64
  messages_rx_keepalive :: u64
  messages_rx_update :: u64
  messages_rx_notification :: u64
  messages_tx_open :: u64
  messages_tx_keepalive :: u64
  messages_tx_update :: u64
  messages_tx_notification :: u64
  routes_received :: u64
  routes_withdrawn :: u64
  routes_loc_rib :: u64
  routes_advertised :: u64
  hold_timer_expirations :: u64
  parse_errors :: u64
  fsm_errors :: u64

definition Metrics_new :: Metrics where
  "Metrics_new =
     \<lparr>sessions_established = 0, sessions_failed = 0, sessions_active = 0, messages_rx_open = 0,
      messages_rx_keepalive = 0, messages_rx_update = 0, messages_rx_notification = 0,
      messages_tx_open = 0, messages_tx_keepalive = 0, messages_tx_update = 0,
      messages_tx_notification = 0, routes_received = 0, routes_withdrawn = 0, routes_loc_rib = 0,
      routes_advertised = 0, hold_timer_expirations = 0, parse_errors = 0, fsm_errors = 0\<rparr>"

text \<open>The counter argument of \<^verbatim>\<open>inc\<close> and \<^verbatim>\<open>set\<close> is the update function of the record field.\<close>

type_synonym counter = "(u64 \<Rightarrow> u64) \<Rightarrow> Metrics \<Rightarrow> Metrics"

definition fetch_add :: "counter \<Rightarrow> u64 \<Rightarrow> Metrics \<Rightarrow> Metrics" where
  "fetch_add f n = f (\<lambda>v. v + n)"

definition metric_inc :: "counter \<Rightarrow> Metrics \<Rightarrow> Metrics" where
  "metric_inc f = fetch_add f 1"

definition metric_set :: "counter \<Rightarrow> u64 \<Rightarrow> Metrics \<Rightarrow> Metrics" where
  "metric_set f n = f (\<lambda>_. n)"

section \<open>Text\<close>

definition nl :: string where
  "nl = [CHR 0x0A]"

text \<open>The macros \<^verbatim>\<open>gauge!\<close> and \<^verbatim>\<open>counter!\<close>, which differ only in the word \<open>kind\<close>.\<close>

definition metric_head :: "string \<Rightarrow> string \<Rightarrow> string \<Rightarrow> string" where
  "metric_head kind name hlp =
     ''# HELP '' @ name @ '' '' @ hlp @ nl @ ''# TYPE '' @ name @ '' '' @ kind @ nl @ name @ '' ''"

definition show_u64 :: "u64 \<Rightarrow> string" where
  "show_u64 w = show_nat (unat w)"

definition metric_text :: "string \<times> string \<times> string \<times> u64 \<Rightarrow> string" where
  "metric_text = (\<lambda>(kind, name, hlp, v). metric_head kind name hlp @ show_u64 v @ nl)"

definition labelled :: "string \<Rightarrow> string \<Rightarrow> string" where
  "labelled name ty = name @ ''{type='' @ [CHR 0x22] @ ty @ [CHR 0x22] @ ''}''"

definition prometheus_rows :: "Metrics \<Rightarrow> (string \<times> string \<times> string \<times> u64) list" where
  "prometheus_rows m =
     [(''gauge'', ''bgp_sessions_active'', ''Currently active BGP sessions'', sessions_active m),
      (''counter'', ''bgp_sessions_established_total'', ''Total BGP sessions ever established'',
        sessions_established m),
      (''counter'', ''bgp_sessions_failed_total'', ''Total BGP session failures'', sessions_failed m),
      (''counter'', labelled ''bgp_messages_received_total'' ''open'', ''OPEN messages received'',
        messages_rx_open m),
      (''counter'', labelled ''bgp_messages_received_total'' ''keepalive'', ''KEEPALIVE messages received'',
        messages_rx_keepalive m),
      (''counter'', labelled ''bgp_messages_received_total'' ''update'', ''UPDATE messages received'',
        messages_rx_update m),
      (''counter'', labelled ''bgp_messages_received_total'' ''notification'',
        ''NOTIFICATION messages received'', messages_rx_notification m),
      (''counter'', labelled ''bgp_messages_sent_total'' ''open'', ''OPEN messages sent'', messages_tx_open m),
      (''counter'', labelled ''bgp_messages_sent_total'' ''keepalive'', ''KEEPALIVE messages sent'',
        messages_tx_keepalive m),
      (''counter'', labelled ''bgp_messages_sent_total'' ''update'', ''UPDATE messages sent'',
        messages_tx_update m),
      (''counter'', labelled ''bgp_messages_sent_total'' ''notification'', ''NOTIFICATION messages sent'',
        messages_tx_notification m),
      (''counter'', ''bgp_routes_received_total'', ''Total routes received (NLRI)'', routes_received m),
      (''counter'', ''bgp_routes_withdrawn_total'', ''Total routes withdrawn'', routes_withdrawn m),
      (''gauge'', ''bgp_routes_loc_rib'', ''Current routes in Loc-RIB'', routes_loc_rib m),
      (''counter'', ''bgp_routes_advertised_total'', ''Total routes advertised to peers'',
        routes_advertised m),
      (''counter'', ''bgp_hold_timer_expirations_total'', ''Hold timer expiration events'',
        hold_timer_expirations m),
      (''counter'', ''bgp_parse_errors_total'', ''BGP message parse errors'', parse_errors m),
      (''counter'', ''bgp_fsm_errors_total'', ''BGP FSM state errors'', fsm_errors m)]"

definition prometheus_text :: "Metrics \<Rightarrow> string" where
  "prometheus_text m = concat (map metric_text (prometheus_rows m))"

text \<open>
  \<^verbatim>\<open>text_summary\<close>: the line continuations of the format string strip the indentation of its
  lines.
\<close>

definition summary_rows :: "Metrics \<Rightarrow> (string \<times> u64 \<times> string) list" where
  "summary_rows m =
     [(''PathForge BGP Metrics'' @ nl @ ''====================='' @ nl @ ''Sessions:'' @ nl @
         ''active:      '', sessions_active m, nl),
      (''established: '', sessions_established m, '' (total)'' @ nl),
      (''failed:      '', sessions_failed m, '' (total)'' @ nl),
      (''Messages received:'' @ nl @ ''OPEN:         '', messages_rx_open m, nl),
      (''KEEPALIVE:    '', messages_rx_keepalive m, nl),
      (''UPDATE:       '', messages_rx_update m, nl),
      (''NOTIFICATION: '', messages_rx_notification m, nl),
      (''Messages sent:'' @ nl @ ''OPEN:         '', messages_tx_open m, nl),
      (''KEEPALIVE:    '', messages_tx_keepalive m, nl),
      (''UPDATE:       '', messages_tx_update m, nl),
      (''NOTIFICATION: '', messages_tx_notification m, nl),
      (''Routes:'' @ nl @ ''Loc-RIB:    '', routes_loc_rib m, nl),
      (''received:   '', routes_received m, '' (total)'' @ nl),
      (''withdrawn:  '', routes_withdrawn m, '' (total)'' @ nl),
      (''advertised: '', routes_advertised m, '' (total)'' @ nl),
      (''Errors:'' @ nl @ ''hold timer:  '', hold_timer_expirations m, nl),
      (''parse:       '', parse_errors m, nl),
      (''fsm:         '', fsm_errors m, nl)]"

definition text_summary :: "Metrics \<Rightarrow> string" where
  "text_summary m = concat (map (\<lambda>(a, v, b). a @ show_u64 v @ b) (summary_rows m))"

section \<open>Lemmas\<close>

lemma show_nat_no_nl: "CHR 0x0A \<notin> set (show_nat n)"
  by (rule show_nat_excludes) simp

lemma show_u64_nl_inject:
  assumes "show_u64 v @ nl @ r = show_u64 w @ nl @ s"
  shows "v = w" and "r = s"
proof -
  have "takeWhile (\<lambda>c. c \<noteq> CHR 0x0A) (show_u64 u @ nl @ t) = show_u64 u" for u t
  proof -
    have "takeWhile (\<lambda>c. c \<noteq> CHR 0x0A) (show_u64 u) = show_u64 u"
      using show_nat_no_nl [of "unat u"] by (simp add: show_u64_def takeWhile_eq_all_conv) metis
    then show ?thesis
      using show_nat_no_nl [of "unat u"] by (subst takeWhile_append2) (auto simp: show_u64_def nl_def)
  qed
  with assms have "show_u64 v = show_u64 w" by metis
  then show "v = w" by (auto simp: show_u64_def word_unat_eq_iff dest: show_nat_inject)
  then show "r = s" using assms by simp
qed

lemma metric_text_inject:
  "metric_text (k, n, h, v) @ r = metric_text (k, n, h, w) @ s \<Longrightarrow> v = w \<and> r = s"
  using show_u64_nl_inject [of v r w s] by (simp add: metric_text_def)

lemma metric_text_inject1: "metric_text (k, n, h, v) = metric_text (k, n, h, w) \<Longrightarrow> v = w"
  using metric_text_inject [of k n h v "[]" w "[]"] by simp

section \<open>Properties\<close>

text \<open>The exposition text loses nothing: it determines the value of every counter.\<close>

lemma prometheus_faithful: "prometheus_text m = prometheus_text m' \<longleftrightarrow> m = m'"
proof
  assume "prometheus_text m = prometheus_text m'"
  then have "sessions_active m = sessions_active m' \<and> sessions_established m = sessions_established m' \<and>
      sessions_failed m = sessions_failed m' \<and> messages_rx_open m = messages_rx_open m' \<and>
      messages_rx_keepalive m = messages_rx_keepalive m' \<and> messages_rx_update m = messages_rx_update m' \<and>
      messages_rx_notification m = messages_rx_notification m' \<and> messages_tx_open m = messages_tx_open m' \<and>
      messages_tx_keepalive m = messages_tx_keepalive m' \<and> messages_tx_update m = messages_tx_update m' \<and>
      messages_tx_notification m = messages_tx_notification m' \<and> routes_received m = routes_received m' \<and>
      routes_withdrawn m = routes_withdrawn m' \<and> routes_loc_rib m = routes_loc_rib m' \<and>
      routes_advertised m = routes_advertised m' \<and> hold_timer_expirations m = hold_timer_expirations m' \<and>
      parse_errors m = parse_errors m' \<and> fsm_errors m = fsm_errors m'"
    unfolding prometheus_text_def prometheus_rows_def
    by (simp only: list.map concat.simps) (auto dest!: metric_text_inject metric_text_inject1)
  then show "m = m'" by (simp add: Metrics.equality)
qed simp

end
