(* ===== verification/Peer.thy ===== *)
theory Peer
  imports Open_Message Rib Fsm Metrics
begin

text \<open>
  A peer session, \<^verbatim>\<open>src/peer.rs\<close>.  The record \<open>Peer\<close> is the struct of the program with the contents
  of its two \<^verbatim>\<open>Arc\<close>s in place (the RIB behind its lock, and the metrics), and beside it the
  environment of the session: the clock, the bytes written to the socket, the results of the coming
  writes, and the purge tasks that were spawned.  The handlers return the changed peer together with the
  outcome, because their effects persist when they fail.

  One iteration of the event loop is \<open>session_iter\<close>; what \<^verbatim>\<open>tokio::select!\<close> delivers to it is a
  \<open>read_event\<close>.  Between two iterations other sessions may run.  An iteration enters the lock at most
  once for each message, and metrics are independent atomic counters.
\<close>

section \<open>State\<close>

record 'f Peer =
  addr :: SocketAddr
  remote_as :: u32
  local_cfg :: LocalConfig
  state :: BgpState
  timers :: BgpTimers
  negotiated_hold_time :: u16
  peer_router_id :: "Ipv4Addr option"
  peer_capabilities :: "Capability list"
  the_rib :: "'f Rib"
  the_metrics :: Metrics
  rib_poisoned :: bool
  clk :: clock
  sent :: "u8 list"
  writes :: "nat \<Rightarrow> bool"
  spawned :: "(SocketAddr \<times> Duration) list"

datatype PeerError = MessageErr MessageError | IoErr

definition Peer_new ::
    "SocketAddr \<Rightarrow> u32 \<Rightarrow> LocalConfig \<Rightarrow> 'f Rib \<Rightarrow> Metrics \<Rightarrow> bool \<Rightarrow> clock \<Rightarrow> (nat \<Rightarrow> bool) \<Rightarrow> 'f Peer" where
  "Peer_new a ras lc rib m poisoned c ws =
     \<lparr>addr = a, remote_as = ras, local_cfg = lc, state = Idle, timers = BgpTimers_new (local_hold_time lc),
      negotiated_hold_time = 90, peer_router_id = None, peer_capabilities = [], the_rib = rib,
      the_metrics = m, rib_poisoned = poisoned, clk = c, sent = [], writes = ws, spawned = []\<rparr>"

definition transition :: "BgpEvent \<Rightarrow> 'f Peer \<Rightarrow> 'f Peer" where
  "transition e p = p\<lparr>state := next_state (state p) e\<rparr>"

section \<open>The environment of a session\<close>

definition peer_inc :: "counter \<Rightarrow> 'f Peer \<Rightarrow> 'f Peer" where
  "peer_inc f p = p\<lparr>the_metrics := metric_inc f (the_metrics p)\<rparr>"

definition peer_add :: "counter \<Rightarrow> nat \<Rightarrow> 'f Peer \<Rightarrow> 'f Peer" where
  "peer_add f n p = p\<lparr>the_metrics := fetch_add f (of_nat n) (the_metrics p)\<rparr>"

definition peer_set :: "counter \<Rightarrow> nat \<Rightarrow> 'f Peer \<Rightarrow> 'f Peer" where
  "peer_set f n p = p\<lparr>the_metrics := metric_set f (of_nat n) (the_metrics p)\<rparr>"

text \<open>\<^verbatim>\<open>stream.write_all\<close>: the next write succeeds or fails.\<close>

definition write_all :: "u8 list \<Rightarrow> 'f Peer \<Rightarrow> bool \<times> 'f Peer" where
  "write_all bs p =
     (let ok = writes p 0; p = p\<lparr>writes := (\<lambda>i. writes p (Suc i))\<rparr>
      in (ok, if ok then p\<lparr>sent := sent p @ bs\<rparr> else p))"

text \<open>\<^verbatim>\<open>if let Ok(mut rib) = self.rib.write() { ... }\<close>\<close>

definition with_rib :: "('f Peer \<Rightarrow> 'f Peer) \<Rightarrow> 'f Peer \<Rightarrow> 'f Peer" where
  "with_rib f p = (if rib_poisoned p then p else f p)"

definition peer_reset_hold_timer :: "'f Peer \<Rightarrow> 'f Peer" where
  "peer_reset_hold_timer p = (let (t, c) = reset_hold_timer (timers p) (clk p) in p\<lparr>timers := t, clk := c\<rparr>)"

definition peer_reset_keepalive_timer :: "'f Peer \<Rightarrow> 'f Peer" where
  "peer_reset_keepalive_timer p =
     (let (t, c) = reset_keepalive_timer (timers p) (clk p) in p\<lparr>timers := t, clk := c\<rparr>)"

section \<open>Disconnect\<close>

fun gr_time :: "Capability \<Rightarrow> u16 option" where
  "gr_time (GracefulRestart t f) = Some t"
| "gr_time _ = None"

definition peer_supports_gr :: "'f Peer \<Rightarrow> bool" where
  "peer_supports_gr p \<longleftrightarrow> (\<exists>c \<in> set (peer_capabilities p). gr_time c \<noteq> None)"

definition peer_restart_time :: "'f Peer \<Rightarrow> u16" where
  "peer_restart_time p = (case List.map_filter gr_time (peer_capabilities p) of t # _ \<Rightarrow> t | [] \<Rightarrow> 120)"

definition handle_disconnect :: "hash_order \<Rightarrow> 'f Peer \<Rightarrow> 'f Peer" where
  "handle_disconnect H p =
     (if peer_supports_gr p \<and> state p = Established then
        let p = with_rib (\<lambda>p. p\<lparr>the_rib := mark_peer_stale (addr p) (the_rib p)\<rparr>) p
        in p\<lparr>spawned := spawned p @ [(addr p, from_secs (unat (peer_restart_time p)))]\<rparr>
      else with_rib (\<lambda>p. p\<lparr>the_rib := snd (remove_peer H (addr p) (the_rib p))\<rparr>) p)"

section \<open>Messages\<close>

text \<open>The \<^verbatim>\<open>?\<close> on a parse result: the state reached so far is kept.\<close>

definition on_parse ::
    "'s \<Rightarrow> (MessageError, 'a) outcome \<Rightarrow> ('a \<Rightarrow> 's \<times> (PeerError, unit) outcome) \<Rightarrow>
     's \<times> (PeerError, unit) outcome" where
  "on_parse s r f = (case r of
     Ok a \<Rightarrow> f a | Err e \<Rightarrow> (s, Err (MessageErr e)) | Panic \<Rightarrow> (s, Panic) | NoFuel \<Rightarrow> (s, NoFuel))"

definition handle_open :: "bytes_ops \<Rightarrow> u8 list \<Rightarrow> 'f Peer \<Rightarrow> 'f Peer \<times> (PeerError, unit) outcome" where
  "handle_open B body p =
     (let p = peer_inc messages_rx_open_update p in
      on_parse p (OpenMessage_parse B body) (\<lambda>msg.
        let p = p\<lparr>peer_capabilities := parse_from_open_params (optional_params msg)\<rparr>;
            p = p\<lparr>peer_router_id := Some (bgp_id msg)\<rparr>;
            p = p\<lparr>remote_as := ucast (my_as msg)\<rparr>;
            p = p\<lparr>negotiated_hold_time := min (local_hold_time (local_cfg p)) (open_hold_time msg)\<rparr>;
            p = p\<lparr>timers := BgpTimers_new (negotiated_hold_time p)\<rparr>;
            p = peer_reset_hold_timer p;
            p = transition BgpOpen p;
            (ok, p) = write_all (KeepaliveMessage_serialize B) p
        in if ok then (peer_inc messages_tx_keepalive_update p, Ok ()) else (p, Err IoErr)))"

definition handle_keepalive :: "'f Peer \<Rightarrow> 'f Peer \<times> (PeerError, unit) outcome" where
  "handle_keepalive p =
     (let p = peer_inc messages_rx_keepalive_update p;
          p = peer_reset_hold_timer p
      in if state p = OpenConfirm then
           let p = transition KeepAliveMsg p;
               p = peer_reset_keepalive_timer p
           in (peer_inc sessions_established_update p, Ok ())
         else (p, Ok ()))"

definition handle_update ::
    "bytes_ops \<Rightarrow> 'f f64_ops \<Rightarrow> hash_order \<Rightarrow> u8 list \<Rightarrow> 'f Peer \<Rightarrow> 'f Peer \<times> (PeerError, unit) outcome" where
  "handle_update B F H body p =
     (let p = peer_inc messages_rx_update_update p in
      on_parse p (UpdateMessage_parse B body) (\<lambda>msg.
        let p = peer_reset_hold_timer p;
            p = transition UpdateMsg p;
            nlri_count = length (nlri msg);
            withdrawn_count = length (withdrawn_routes msg);
            is_end_of_rib = (nlri_count = 0 \<and> withdrawn_count = 0 \<and>
                             PathAttributes_is_empty (path_attributes msg));
            p = peer_add routes_received_update nlri_count p;
            p = peer_add routes_withdrawn_update withdrawn_count p;
            p = with_rib (\<lambda>p.
              let (rib, c) = process_update F H (addr p) (remote_as p) (nlri msg) (path_attributes msg)
                               (withdrawn_routes msg) (the_rib p) (clk p);
                  rib = (if is_end_of_rib then snd (remove_stale_for_peer H (addr p) rib) else rib);
                  (_, _, loc_count) = rib_summary rib
              in peer_set routes_loc_rib_update loc_count (p\<lparr>the_rib := rib, clk := c\<rparr>)) p
        in (p, Ok ())))"

definition handle_notification ::
    "bytes_ops \<Rightarrow> hash_order \<Rightarrow> u8 list \<Rightarrow> 'f Peer \<Rightarrow> 'f Peer \<times> (PeerError, unit) outcome" where
  "handle_notification B H body p =
     (let p = peer_inc messages_rx_notification_update p in
      on_parse p (NotificationMessage_parse B body) (\<lambda>_.
        let p = transition NotifMsg p;
            p = peer_inc sessions_failed_update p;
            p = peer_set sessions_active_update 0 p
        in (with_rib (\<lambda>p. p\<lparr>the_rib := snd (remove_peer H (addr p) (the_rib p))\<rparr>) p, Ok ())))"

definition handle_message ::
    "bytes_ops \<Rightarrow> 'f f64_ops \<Rightarrow> hash_order \<Rightarrow> BgpMessage \<Rightarrow> 'f Peer \<Rightarrow> 'f Peer \<times> (PeerError, unit) outcome" where
  "handle_message B F H msg p =
     (case msg_type (msg_header msg) of
        Open \<Rightarrow> handle_open B (msg_body msg) p
      | Keepalive \<Rightarrow> handle_keepalive p
      | Update \<Rightarrow> handle_update B F H (msg_body msg) p
      | Notification \<Rightarrow> handle_notification B H (msg_body msg) p
      | RouteRefresh \<Rightarrow> (p, Ok ()))"

section \<open>The event loop\<close>

text \<open>\<^verbatim>\<open>while let Some(msg) = BgpMessage::parse(&mut buf)? { self.handle_message(msg).await?; }\<close>\<close>

fun drain ::
    "bytes_ops \<Rightarrow> 'f f64_ops \<Rightarrow> hash_order \<Rightarrow> nat \<Rightarrow> 'f Peer \<Rightarrow> u8 list \<Rightarrow>
     'f Peer \<times> u8 list \<times> (PeerError, unit) outcome" where
  "drain B F H 0 p buf = (p, buf, NoFuel)"
| "drain B F H (Suc fuel) p buf =
     (case BgpMessage_parse B buf of
        Ok (None, buf) \<Rightarrow> (p, buf, Ok ())
      | Ok (Some msg, buf) \<Rightarrow>
          (case handle_message B F H msg p of
             (p, Ok _) \<Rightarrow> drain B F H fuel p buf
           | (p, r) \<Rightarrow> (p, buf, r))
      | Err e \<Rightarrow> (p, buf, Err (MessageErr e))
      | Panic \<Rightarrow> (p, buf, Panic)
      | NoFuel \<Rightarrow> (p, buf, NoFuel))"

declare drain.simps(2) [simp del]

text \<open>
  What the \<^verbatim>\<open>select!\<close> of an iteration yields: the result of the read (no bytes when the peer has
  closed the connection) or the elapsed 100 ms.
\<close>

datatype read_event = ReadOk "u8 list" | ReadErr | SleepElapsed

text \<open>The loop goes on, or \<^verbatim>\<open>run_session\<close> returns.\<close>

datatype flow = Next | Return "(PeerError, unit) outcome"

definition expire_session :: "bytes_ops \<Rightarrow> hash_order \<Rightarrow> 'f Peer \<Rightarrow> 'f Peer" where
  "expire_session B H p =
     (let p = peer_inc hold_timer_expirations_update p;
          (_, p) = write_all (NotificationMessage_serialize B NotificationMessage_hold_timer_expired) p;
          p = peer_inc messages_tx_notification_update p;
          p = transition HoldTimerExpired p;
          p = peer_inc sessions_failed_update p;
          p = peer_set sessions_active_update 0 p
      in handle_disconnect H p)"

definition send_keepalive :: "bytes_ops \<Rightarrow> 'f Peer \<Rightarrow> bool \<times> 'f Peer" where
  "send_keepalive B p =
     (if state p = Established then
        let (due, c) = keepalive_due (timers p) (clk p); p = p\<lparr>clk := c\<rparr>
        in if due then
             let (ok, p) = write_all (KeepaliveMessage_serialize B) p
             in if ok then (True, peer_inc messages_tx_keepalive_update (peer_reset_keepalive_timer p))
                else (False, p)
           else (True, p)
      else (True, p))"

text \<open>
  An iteration of the loop up to the data: it returns from \<^verbatim>\<open>run_session\<close>, goes on to the next iteration
  because nothing arrived, or has new data in the buffer.
\<close>

datatype polled = Data | Elapsed | Ended "(PeerError, unit) outcome"

definition session_poll ::
    "bytes_ops \<Rightarrow> hash_order \<Rightarrow> read_event \<Rightarrow> 'f Peer \<Rightarrow> u8 list \<Rightarrow> 'f Peer \<times> u8 list \<times> polled" where
  "session_poll B H ev p buf =
     (let (expired, c) = hold_timer_expired (timers p) (clk p); p = p\<lparr>clk := c\<rparr> in
      if expired then (expire_session B H p, buf, Ended (Ok ()))
      else
        let (ok, p) = send_keepalive B p in
        if \<not> ok then (p, buf, Ended (Err IoErr))
        else case ev of
          ReadOk bs \<Rightarrow>
            if bs = [] then
              let p = transition TcpConnectionFail p;
                  p = peer_set sessions_active_update 0 p
              in (handle_disconnect H p, buf, Ended (Ok ()))
            else (p, buf @ bs, Data)
        | ReadErr \<Rightarrow> (transition TcpConnectionFail p, buf, Ended (Err IoErr))
        | SleepElapsed \<Rightarrow> (p, buf, Elapsed))"

definition session_iter ::
    "bytes_ops \<Rightarrow> 'f f64_ops \<Rightarrow> hash_order \<Rightarrow> read_event \<Rightarrow> 'f Peer \<Rightarrow> u8 list \<Rightarrow>
     'f Peer \<times> u8 list \<times> flow" where
  "session_iter B F H ev p buf =
     (case session_poll B H ev p buf of
        (p, buf, Ended r) \<Rightarrow> (p, buf, Return r)
      | (p, buf, Elapsed) \<Rightarrow> (p, buf, Next)
      | (p, buf, Data) \<Rightarrow>
          let (p, buf, r) = drain B F H (Suc (length buf)) p buf
          in (p, buf, if r = Ok () then Next else Return r))"

fun session_loop ::
    "bytes_ops \<Rightarrow> 'f f64_ops \<Rightarrow> (hash_order \<times> read_event) list \<Rightarrow> 'f Peer \<Rightarrow> u8 list \<Rightarrow>
     'f Peer \<times> u8 list \<times> flow" where
  "session_loop B F [] p buf = (p, buf, Next)"
| "session_loop B F ((H, ev) # evs) p buf =
     (case session_iter B F H ev p buf of
        (p, buf, Next) \<Rightarrow> session_loop B F evs p buf
      | (p, buf, Return r) \<Rightarrow> (p, buf, Return r))"

definition local_caps :: "LocalConfig \<Rightarrow> Capability list" where
  "local_caps lc =
     [FourOctetAsn (local_as lc), RouteRefreshCap, MultiProtocol 1 1, GracefulRestart 120 0]"

text \<open>\<^verbatim>\<open>self.local.local_as.min(u16::MAX as u32) as u16\<close>\<close>

definition session_open :: "LocalConfig \<Rightarrow> OpenMessage" where
  "session_open lc =
     OpenMessage_new_with_capabilities (ucast (min (local_as lc) 65535)) (local_hold_time lc) (router_id lc)
       (local_caps lc)"

text \<open>The part of \<^verbatim>\<open>run_session\<close> before its loop, and \<^verbatim>\<open>run_session\<close> and \<^verbatim>\<open>handle_incoming\<close>.\<close>

definition session_start :: "bytes_ops \<Rightarrow> 'f Peer \<Rightarrow> bool \<times> 'f Peer" where
  "session_start B p =
     (let p = peer_inc messages_tx_open_update p
      in write_all (OpenMessage_serialize B (session_open (local_cfg p))) p)"

definition run_session ::
    "bytes_ops \<Rightarrow> 'f f64_ops \<Rightarrow> (hash_order \<times> read_event) list \<Rightarrow> 'f Peer \<Rightarrow> 'f Peer \<times> u8 list \<times> flow" where
  "run_session B F evs p =
     (let (ok, p) = session_start B p
      in if ok then session_loop B F evs p [] else (p, [], Return (Err IoErr)))"

definition incoming_peer ::
    "SocketAddr \<Rightarrow> LocalConfig \<Rightarrow> 'f Rib \<Rightarrow> Metrics \<Rightarrow> bool \<Rightarrow> clock \<Rightarrow> (nat \<Rightarrow> bool) \<Rightarrow> 'f Peer" where
  "incoming_peer a lc rib m poisoned c ws =
     (let m = metric_inc sessions_active_update m;
          p = Peer_new a 0 lc rib m poisoned c ws
      in transition TcpConnectionConfirmed (transition ManualStart p))"

definition handle_incoming ::
    "bytes_ops \<Rightarrow> 'f f64_ops \<Rightarrow> (hash_order \<times> read_event) list \<Rightarrow> SocketAddr \<Rightarrow> LocalConfig \<Rightarrow> 'f Rib \<Rightarrow>
     Metrics \<Rightarrow> bool \<Rightarrow> clock \<Rightarrow> (nat \<Rightarrow> bool) \<Rightarrow> 'f Peer \<times> u8 list \<times> flow" where
  "handle_incoming B F evs a lc rib m poisoned c ws =
     run_session B F evs (incoming_peer a lc rib m poisoned c ws)"

end
