(* ===== verification/Peer_Correct.thy ===== *)
theory Peer_Correct
  imports Peer Rib_Props
begin

text \<open>
  Correctness of a peer session: what one iteration of the event loop does to the shared RIB and to the
  spawned tasks, that the loop over the buffered messages ends, and that it does not depend on how the
  byte stream is cut into reads.
\<close>

section \<open>Frame conditions\<close>

text \<open>The operations on metrics, timers and the socket touch nothing else.\<close>

lemmas env_defs = peer_inc_def peer_add_def peer_set_def transition_def peer_reset_hold_timer_def
  peer_reset_keepalive_timer_def write_all_def Let_def case_prod_beta

lemma env_keeps [simp]:
  "the_rib (peer_inc f p) = the_rib p" "the_rib (peer_add f n p) = the_rib p"
  "the_rib (peer_set f n p) = the_rib p" "the_rib (transition e p) = the_rib p"
  "the_rib (peer_reset_hold_timer p) = the_rib p" "the_rib (peer_reset_keepalive_timer p) = the_rib p"
  "the_rib (snd (write_all bs p)) = the_rib p"
  by (simp_all add: env_defs)

lemma env_keeps_addr [simp]:
  "addr (peer_inc f p) = addr p" "addr (peer_add f n p) = addr p"
  "addr (peer_set f n p) = addr p" "addr (transition e p) = addr p"
  "addr (peer_reset_hold_timer p) = addr p" "addr (peer_reset_keepalive_timer p) = addr p"
  "addr (snd (write_all bs p)) = addr p"
  by (simp_all add: env_defs)

lemma env_keeps_spawned [simp]:
  "spawned (peer_inc f p) = spawned p" "spawned (peer_add f n p) = spawned p"
  "spawned (peer_set f n p) = spawned p" "spawned (transition e p) = spawned p"
  "spawned (peer_reset_hold_timer p) = spawned p" "spawned (peer_reset_keepalive_timer p) = spawned p"
  "spawned (snd (write_all bs p)) = spawned p"
  by (simp_all add: env_defs)

lemma env_keeps_poisoned [simp]:
  "rib_poisoned (peer_inc f p) = rib_poisoned p" "rib_poisoned (peer_add f n p) = rib_poisoned p"
  "rib_poisoned (peer_set f n p) = rib_poisoned p" "rib_poisoned (transition e p) = rib_poisoned p"
  "rib_poisoned (peer_reset_hold_timer p) = rib_poisoned p"
  "rib_poisoned (peer_reset_keepalive_timer p) = rib_poisoned p"
  "rib_poisoned (snd (write_all bs p)) = rib_poisoned p"
  by (simp_all add: env_defs)

lemma env_keeps_state [simp]:
  "state (peer_inc f p) = state p" "state (peer_add f n p) = state p"
  "state (peer_set f n p) = state p" "state (transition e p) = next_state (state p) e"
  "state (peer_reset_hold_timer p) = state p" "state (peer_reset_keepalive_timer p) = state p"
  "state (snd (write_all bs p)) = state p"
  by (simp_all add: env_defs)

text \<open>The steps of the RIB on behalf of one peer, other than the marking of stale routes.\<close>

inductive live_step :: "'f f64_ops \<Rightarrow> SocketAddr \<Rightarrow> 'f Rib \<Rightarrow> 'f Rib \<Rightarrow> bool" for F peer where
  update: "hash_orders H \<Longrightarrow> process_update F H peer ras ps a ws rib c = (rib', c') \<Longrightarrow>
    live_step F peer rib rib'"
| peer_down: "hash_orders H \<Longrightarrow> remove_peer H peer rib = (ks, rib') \<Longrightarrow> live_step F peer rib rib'"
| expire: "hash_orders H \<Longrightarrow> remove_stale_for_peer H peer rib = (ks, rib') \<Longrightarrow> live_step F peer rib rib'"

inductive_cases live_stepE: "live_step F peer rib rib'"

lemma live_rib_step: "live_step F peer rib rib' \<Longrightarrow> rib_step F rib rib'"
  by (erule live_stepE) (auto intro: rib_step.intros)

text \<open>No other peer's table changes.\<close>

lemma live_step_adj: "live_step F peer rib rib' \<Longrightarrow> p \<noteq> peer \<Longrightarrow> adj rib' p k = adj rib p k"
proof (erule live_stepE)
  fix H ks
  assume h: "hash_orders H" and "remove_stale_for_peer H peer rib = (ks, rib')" and "p \<noteq> peer"
  then show ?thesis
    by (elim hash_orders.remove_stale_purged) (auto simp: hash_orders.adj_decisions [OF h])
qed (auto simp: hash_orders.process_update_adj hash_orders.remove_peer_adj)

lemma live_steps_adj: "(live_step F peer)\<^sup>*\<^sup>* rib rib' \<Longrightarrow> p \<noteq> peer \<Longrightarrow> adj rib' p k = adj rib p k"
  by (induction rule: rtranclp_induct) (simp_all add: live_step_adj)

definition no_stale :: "'f Rib \<Rightarrow> bool" where
  "no_stale rib \<longleftrightarrow> (\<forall>p k r. adj rib p k = Some r \<longrightarrow> \<not> stale r)"

lemma live_step_no_stale: "live_step F peer rib rib' \<Longrightarrow> no_stale rib \<Longrightarrow> no_stale rib'"
proof (erule live_stepE)
  fix H ras ps a ws c c'
  assume "hash_orders H" "process_update F H peer ras ps a ws rib c = (rib', c')" and ns: "no_stale rib"
  note upd = hash_orders.process_update_adj [OF this(1,2)]
  have "\<not> stale r" if "adj rib' p k = Some r" for p k r
    using ns upd(1) [of p k] upd(2,3) [of k] that
    by (cases "p = peer"; cases "k \<in> PrefixKey_from ` set ws") (auto simp: no_stale_def fresh_route_def)
  then show ?thesis by (simp add: no_stale_def)
next
  fix H ks
  assume "hash_orders H" "remove_peer H peer rib = (ks, rib')" "no_stale rib"
  then show ?thesis by (auto simp: no_stale_def hash_orders.remove_peer_adj split: if_splits)
next
  fix H ks
  assume h: "hash_orders H" and "remove_stale_for_peer H peer rib = (ks, rib')" and ns: "no_stale rib"
  then show ?thesis
    by (elim hash_orders.remove_stale_purged)
       (auto simp: no_stale_def hash_orders.adj_decisions [OF h] split: if_splits)
qed

text \<open>
  \<open>evolves F p q\<close>: from \<open>p\<close> to \<open>q\<close> the shared RIB has moved by operations on behalf of this peer, the
  session is the same one, nothing was marked stale, and no task was spawned.
\<close>

definition evolves :: "'f f64_ops \<Rightarrow> 'f Peer \<Rightarrow> 'f Peer \<Rightarrow> bool" where
  "evolves F p q \<longleftrightarrow> (live_step F (addr p))\<^sup>*\<^sup>* (the_rib p) (the_rib q) \<and> addr q = addr p \<and>
     spawned q = spawned p \<and> rib_poisoned q = rib_poisoned p"

lemma evolves_refl [simp]: "evolves F p p"
  by (simp add: evolves_def)

lemma evolves_trans: "evolves F p q \<Longrightarrow> evolves F q r \<Longrightarrow> evolves F p r"
  by (auto simp: evolves_def)

lemma evolves_same_rib:
  "the_rib q = the_rib p \<Longrightarrow> addr q = addr p \<Longrightarrow> spawned q = spawned p \<Longrightarrow>
   rib_poisoned q = rib_poisoned p \<Longrightarrow> evolves F p q"
  by (simp add: evolves_def)

section \<open>Handlers\<close>

lemma handle_open_rib:
  "the_rib (fst (handle_open B body p)) = the_rib p" "addr (fst (handle_open B body p)) = addr p"
  "spawned (fst (handle_open B body p)) = spawned p"
  "rib_poisoned (fst (handle_open B body p)) = rib_poisoned p"
  by (simp_all add: handle_open_def on_parse_def Let_def case_prod_beta split: outcome.splits)

lemma handle_keepalive_rib:
  "the_rib (fst (handle_keepalive p)) = the_rib p" "addr (fst (handle_keepalive p)) = addr p"
  "spawned (fst (handle_keepalive p)) = spawned p"
  "rib_poisoned (fst (handle_keepalive p)) = rib_poisoned p"
  by (simp_all add: handle_keepalive_def Let_def)

text \<open>What a handler does inside the lock.\<close>

lemma evolves_remove_peer:
  "hash_orders H \<Longrightarrow>
   evolves F p (with_rib (\<lambda>p. p\<lparr>the_rib := snd (remove_peer H (addr p) (the_rib p))\<rparr>) p)"
  by (auto simp: evolves_def with_rib_def intro!: r_into_rtranclp live_step.peer_down [of H] prod.collapse [symmetric])

lemma handle_notification_evolves:
  assumes "hash_orders H"
  shows "evolves F p (fst (handle_notification B H body p))"
proof -
  have "evolves F p (with_rib (\<lambda>p. p\<lparr>the_rib := snd (remove_peer H (addr p) (the_rib p))\<rparr>) q)"
    if "the_rib q = the_rib p" "addr q = addr p" "spawned q = spawned p" "rib_poisoned q = rib_poisoned p" for q
    using evolves_same_rib [OF that] evolves_remove_peer [OF assms] by (rule evolves_trans)
  then show ?thesis
    by (simp add: handle_notification_def on_parse_def Let_def evolves_same_rib split: outcome.splits)
qed

lemma handle_update_evolves:
  assumes "hash_orders H"
  shows "evolves F p (fst (handle_update B F H body p))"
proof (cases "UpdateMessage_parse B body")
  case (Ok msg)
  let ?eor = "nlri msg = [] \<and> withdrawn_routes msg = [] \<and> PathAttributes_is_empty (path_attributes msg)"
  let ?u = "\<lambda>p. process_update F H (addr p) (remote_as p) (nlri msg) (path_attributes msg)
      (withdrawn_routes msg) (the_rib p) (clk p)"
  have up: "live_step F (addr p) (the_rib p) (fst (?u p))" for p
    by (rule live_step.update [OF assms]) (rule prod.collapse [symmetric])
  have ex: "live_step F a rib (snd (remove_stale_for_peer H a rib))" for a rib
    by (rule live_step.expire [OF assms]) (rule prod.collapse [symmetric])
  have "(live_step F (addr p))\<^sup>*\<^sup>* (the_rib p)
      (if ?eor then snd (remove_stale_for_peer H (addr p) (fst (?u p))) else fst (?u p))" for p
    using up [of p] ex [of "addr p" "fst (?u p)"] by (auto intro: rtranclp.rtrancl_into_rtrancl)
  from this [of "peer_add routes_withdrawn_update (length (withdrawn_routes msg))
      (peer_add routes_received_update (length (nlri msg)) (transition UpdateMsg
        (peer_reset_hold_timer (peer_inc messages_rx_update_update p))))"]
  show ?thesis
    by (simp add: handle_update_def on_parse_def Let_def with_rib_def evolves_def case_prod_beta Ok
        cong: if_cong)
qed (simp_all add: handle_update_def on_parse_def Let_def evolves_same_rib)

lemma handle_message_evolves:
  "hash_orders H \<Longrightarrow> evolves F p (fst (handle_message B F H msg p))"
  by (auto simp: handle_message_def handle_open_rib handle_keepalive_rib handle_notification_evolves
      handle_update_evolves intro: evolves_same_rib split: MessageType.splits)

section \<open>The loop over the buffered messages\<close>

lemma drain_message:
  assumes "BgpMessage_parse B buf = Ok (Some msg, rest)" and "handle_message B F H msg p = (p1, r1)"
  shows "drain B F H (Suc fuel) p buf = (if r1 = Ok () then drain B F H fuel p1 rest else (p1, rest, r1))"
  using assms by (cases r1) (simp_all add: drain.simps(2))

lemma drain_stop:
  assumes "\<And>msg rest. BgpMessage_parse B buf \<noteq> Ok (Some msg, rest)"
  shows "\<exists>rest r. drain B F H (Suc fuel) p buf = (p, rest, r)"
proof (cases "BgpMessage_parse B buf")
  case (Ok m)
  then show ?thesis using assms by (cases m; cases "fst m") (auto simp: drain.simps(2))
qed (simp_all add: drain.simps(2))

lemma drain_evolves:
  assumes "hash_orders H"
  shows "drain B F H fuel p buf = (q, rest, r) \<Longrightarrow> evolves F p q"
proof (induction fuel arbitrary: p buf)
  case (Suc fuel)
  show ?case
  proof (cases "\<exists>msg buf1. BgpMessage_parse B buf = Ok (Some msg, buf1)")
    case True
    then obtain msg buf1 where m: "BgpMessage_parse B buf = Ok (Some msg, buf1)" by blast
    obtain p1 r1 where h: "handle_message B F H msg p = (p1, r1)" by force
    have "evolves F p p1" using handle_message_evolves [OF assms, of F p B msg] h by simp
    moreover have "evolves F p1 q" if "r1 = Ok ()"
      using Suc that by (simp add: drain_message [OF m h])
    moreover have "p1 = q" if "r1 \<noteq> Ok ()"
      using Suc.prems that by (simp add: drain_message [OF m h])
    ultimately show ?thesis using evolves_trans by metis
  next
    case False
    then obtain rest r where "drain B F H (Suc fuel) p buf = (p, rest, r)"
      using drain_stop [of B buf F H fuel p] by blast
    then show ?thesis using Suc.prems by simp
  qed
qed simp

context bytes_crate
begin

lemma handle_message_not_NoFuel: "snd (handle_message B F H msg p) \<noteq> NoFuel"
  using UpdateMessage_parse_not_NoFuel [of "msg_body msg"] returns_OpenMessage_parse [of "msg_body msg"]
    returns_NotificationMessage_parse [of "msg_body msg"]
  by (auto simp: handle_message_def handle_open_def handle_keepalive_def handle_update_def
      handle_notification_def on_parse_def Let_def case_prod_beta returns_iff
      split: MessageType.splits outcome.splits)

text \<open>Every message takes at least its header from the buffer, so the loop ends.\<close>

lemma parse_consumes:
  "BgpMessage_parse B buf = Ok (Some msg, rest) \<Longrightarrow> length rest < length buf"
  using BgpMessage_parse_Some [of buf msg rest] by (simp add: frame_bytes_def HEADER_LEN_def)

lemma drain_fuel:
  "length buf < fuel \<Longrightarrow> length buf < fuel' \<Longrightarrow> drain B F H fuel p buf = drain B F H fuel' p buf \<and>
   snd (snd (drain B F H fuel p buf)) \<noteq> NoFuel"
proof (induction fuel arbitrary: fuel' p buf)
  case (Suc fuel)
  then obtain n where n: "fuel' = Suc n" by (cases fuel') auto
  consider (none) b where "BgpMessage_parse B buf = Ok (None, b)"
    | (some) msg rest where "BgpMessage_parse B buf = Ok (Some msg, rest)"
    | (err) e where "BgpMessage_parse B buf = Err e"
    using returns_BgpMessage_parse [of buf] unfolding returns_iff by (metis option.exhaust prod.exhaust)
  then show ?case
  proof cases
    case some
    obtain p1 r1 where h: "handle_message B F H msg p = (p1, r1)" by force
    then have "r1 \<noteq> NoFuel" using handle_message_not_NoFuel [of F H msg p] by simp
    moreover have "length rest < fuel" "length rest < n"
      using parse_consumes [OF some] Suc.prems n by simp_all
    ultimately show ?thesis
      using Suc.IH [of rest n p1] by (auto simp: n drain_message [OF some h])
  qed (simp_all add: n drain.simps(2))
qed simp

text \<open>
  Handling the messages of a buffer and then those of the bytes that follow is the same as handling
  them all at once.
\<close>

lemma drain_append:
  assumes "drain B F H fuel p buf = (q, rest, Ok ())" and "length buf < fuel"
  shows "drain B F H (Suc (length (buf @ more_bytes))) p (buf @ more_bytes) =
         drain B F H (Suc (length (rest @ more_bytes))) q (rest @ more_bytes)"
  using assms
proof (induction fuel arbitrary: p buf)
  case (Suc fuel)
  consider (none) b where "BgpMessage_parse B buf = Ok (None, b)"
    | (some) msg buf1 where "BgpMessage_parse B buf = Ok (Some msg, buf1)"
    | (err) e where "BgpMessage_parse B buf = Err e"
    using returns_BgpMessage_parse [of buf] unfolding returns_iff by (metis option.exhaust prod.exhaust)
  then show ?case
  proof cases
    case none
    then have "b = buf"
      by (auto simp: BgpMessage_parse_def and_then_eq_Ok_iff Let_def split: if_splits)
    then show ?thesis using none Suc.prems(1) by (simp add: drain.simps(2))
  next
    case some
    obtain p1 r1 where h: "handle_message B F H msg p = (p1, r1)" by force
    have shorter: "length buf1 < length buf" using parse_consumes [OF some] .
    have cont: "drain B F H fuel p1 buf1 = (q, rest, Ok ())" and r1: "r1 = Ok ()"
      using Suc.prems(1) by (auto simp: drain_message [OF some h] split: if_splits)
    have "BgpMessage_parse B (buf @ more_bytes) = Ok (Some msg, buf1 @ more_bytes)"
      using BgpMessage_parse_Some [OF some] BgpMessage_parse_frame [of msg "buf1 @ more_bytes"] by simp
    from drain_message [OF this h, of "length (buf @ more_bytes)"]
    have "drain B F H (Suc (length (buf @ more_bytes))) p (buf @ more_bytes) =
        drain B F H (length (buf @ more_bytes)) p1 (buf1 @ more_bytes)"
      by (simp add: r1)
    also have "\<dots> = drain B F H (Suc (length (buf1 @ more_bytes))) p1 (buf1 @ more_bytes)"
      using shorter drain_fuel [of "buf1 @ more_bytes" "length (buf @ more_bytes)"
          "Suc (length (buf1 @ more_bytes))" F H p1] by simp
    also have "\<dots> = drain B F H (Suc (length (rest @ more_bytes))) q (rest @ more_bytes)"
      using Suc.IH [OF cont] shorter Suc.prems(2) by simp
    finally show ?thesis .
  next
    case err
    then show ?thesis using Suc.prems(1) by (simp add: drain.simps(2))
  qed
qed simp

end

section \<open>One iteration\<close>

lemma send_keepalive_keeps [simp]:
  "the_rib (snd (send_keepalive B p)) = the_rib p" "addr (snd (send_keepalive B p)) = addr p"
  "spawned (snd (send_keepalive B p)) = spawned p"
  "rib_poisoned (snd (send_keepalive B p)) = rib_poisoned p"
  "state (snd (send_keepalive B p)) = state p"
  by (simp_all add: send_keepalive_def Let_def case_prod_beta)

text \<open>\<^verbatim>\<open>handle_disconnect\<close> outside Established removes the peer.\<close>

lemma handle_disconnect_removes:
  "state p \<noteq> Established \<Longrightarrow> handle_disconnect H p =
     with_rib (\<lambda>p. p\<lparr>the_rib := snd (remove_peer H (addr p) (the_rib p))\<rparr>) p"
  by (simp add: handle_disconnect_def)

lemma handle_disconnect_state [simp]: "state (handle_disconnect H p) = state p"
  by (simp add: handle_disconnect_def with_rib_def Let_def)

lemma expire_session_removes:
  obtains q where "expire_session B H p =
      with_rib (\<lambda>p. p\<lparr>the_rib := snd (remove_peer H (addr p) (the_rib p))\<rparr>) q"
    and "the_rib q = the_rib p" and "addr q = addr p" and "spawned q = spawned p"
    and "rib_poisoned q = rib_poisoned p"
proof -
  define q where "q = peer_set sessions_active_update 0 (peer_inc sessions_failed_update
    (transition HoldTimerExpired (peer_inc messages_tx_notification_update
      (snd (write_all (NotificationMessage_serialize B NotificationMessage_hold_timer_expired)
        (peer_inc hold_timer_expirations_update p))))))"
  have "expire_session B H p = handle_disconnect H q"
    by (simp add: expire_session_def q_def Let_def case_prod_beta)
  also have "\<dots> = with_rib (\<lambda>p. p\<lparr>the_rib := snd (remove_peer H (addr p) (the_rib p))\<rparr>) q"
    by (rule handle_disconnect_removes) (simp add: q_def next_state_drop)
  finally show ?thesis by (rule that) (simp_all add: q_def)
qed

lemma expire_session_evolves:
  assumes "hash_orders H"
  shows "evolves F p (expire_session B H p)"
proof (rule expire_session_removes [of B H p])
  fix q
  assume eq: "expire_session B H p =
      with_rib (\<lambda>p. p\<lparr>the_rib := snd (remove_peer H (addr p) (the_rib p))\<rparr>) q"
    and same: "the_rib q = the_rib p" "addr q = addr p" "spawned q = spawned p"
      "rib_poisoned q = rib_poisoned p"
  show ?thesis
    unfolding eq by (rule evolves_trans [OF evolves_same_rib [OF same] evolves_remove_peer [OF assms]])
qed

lemma expire_session_rib:
  "\<not> rib_poisoned p \<Longrightarrow> the_rib (expire_session B H p) = snd (remove_peer H (addr p) (the_rib p))"
  by (rule expire_session_removes [of B H p]) (simp add: with_rib_def)

text \<open>The peer after the timer checks at the head of the loop.\<close>

definition timed :: "'f Peer \<Rightarrow> 'f Peer" where
  "timed p = p\<lparr>clk := snd (hold_timer_expired (timers p) (clk p))\<rparr>"

lemma timed_keeps [simp]:
  "the_rib (timed p) = the_rib p" "addr (timed p) = addr p" "spawned (timed p) = spawned p"
  "rib_poisoned (timed p) = rib_poisoned p" "state (timed p) = state p"
  by (simp_all add: timed_def)

definition hung_up :: "'f Peer \<Rightarrow> 'f Peer" where
  "hung_up p = peer_set sessions_active_update 0 (transition TcpConnectionFail p)"

lemma session_iter_cases:
  assumes "session_iter B F H ev p buf = (q, rest, fl)"
  obtains (expired) "fst (hold_timer_expired (timers p) (clk p))" and "q = expire_session B H (timed p)"
      and "fl = Return (Ok ())"
    | (cut) "\<not> fst (send_keepalive B (timed p))" and "q = snd (send_keepalive B (timed p))"
      and "fl = Return (Err IoErr)"
    | (closed) "ev = ReadOk []" and "q = handle_disconnect H (hung_up (snd (send_keepalive B (timed p))))"
      and "fl = Return (Ok ())"
    | (data) bs r where "ev = ReadOk bs"
      and "drain B F H (Suc (length (buf @ bs))) (snd (send_keepalive B (timed p))) (buf @ bs) = (q, rest, r)"
      and "fl = (if r = Ok () then Next else Return r)"
    | (error) "ev = ReadErr" and "q = transition TcpConnectionFail (snd (send_keepalive B (timed p)))"
      and "fl = Return (Err IoErr)"
    | (idle) "q = snd (send_keepalive B (timed p))" and "fl = Next"
proof (cases "fst (hold_timer_expired (timers p) (clk p)) \<or> \<not> fst (send_keepalive B (timed p))")
  case True
  then show ?thesis
    using assms expired cut
    by (auto simp: session_iter_def session_poll_def timed_def Let_def case_prod_beta split: if_splits)
next
  case False
  note live = False
  show ?thesis
  proof (cases ev)
    case (ReadOk bs)
    obtain q1 rest1 r where d: "drain B F H (Suc (length (buf @ bs)))
        (snd (send_keepalive B (timed p))) (buf @ bs) = (q1, rest1, r)" by (metis prod_cases3)
    show ?thesis
    proof (cases "bs = []")
      case True
      then show ?thesis
        using assms live ReadOk
        by (intro closed) (auto simp: session_iter_def session_poll_def timed_def hung_up_def Let_def case_prod_beta)
    next
      case False
      then have "q1 = q" "rest1 = rest" "fl = (if r = Ok () then Next else Return r)"
        using assms live ReadOk d
        by (auto simp: session_iter_def session_poll_def timed_def Let_def case_prod_beta)
      then show ?thesis using data [OF ReadOk] d by simp
    qed
  next
    case ReadErr
    then show ?thesis
      using assms live
      by (intro error) (auto simp: session_iter_def session_poll_def timed_def Let_def case_prod_beta)
  next
    case SleepElapsed
    then show ?thesis
      using assms live
      by (intro idle) (auto simp: session_iter_def session_poll_def timed_def Let_def case_prod_beta)
  qed
qed

lemma hung_up_keeps [simp]:
  "the_rib (hung_up p) = the_rib p" "addr (hung_up p) = addr p" "spawned (hung_up p) = spawned p"
  "rib_poisoned (hung_up p) = rib_poisoned p" "state (hung_up p) \<noteq> Established"
  by (simp_all add: hung_up_def next_state_drop)

lemma session_iter_evolves:
  assumes "hash_orders H" and "session_iter B F H ev p buf = (q, rest, fl)"
  shows "evolves F p q"
proof -
  let ?k = "snd (send_keepalive B (timed p))"
  have k: "evolves F p ?k" "evolves F p (timed p)" "evolves F p (hung_up ?k)"
    by (rule evolves_same_rib; simp)+
  from assms(2) show ?thesis
  proof (cases rule: session_iter_cases)
    case expired
    then show ?thesis using evolves_trans [OF k(2) expire_session_evolves [OF assms(1)]] by simp
  next
    case closed
    then show ?thesis
      using evolves_trans [OF k(3) evolves_remove_peer [OF assms(1)]] by (simp add: handle_disconnect_removes)
  next
    case (data bs r)
    then show ?thesis using evolves_trans [OF k(1) drain_evolves [OF assms(1)]] by blast
  next
    case error
    then show ?thesis by (intro evolves_same_rib) simp_all
  qed (use k in simp_all)
qed

lemma session_loop_evolves:
  "\<forall>(H, ev) \<in> set evs. hash_orders H \<Longrightarrow> session_loop B F evs p buf = (q, rest, fl) \<Longrightarrow> evolves F p q"
proof (induction evs arbitrary: p buf)
  case (Cons e evs)
  obtain H ev where e: "e = (H, ev)" by force
  obtain p1 buf1 fl1 where it: "session_iter B F H ev p buf = (p1, buf1, fl1)" by (metis prod_cases3)
  have "evolves F p p1" using session_iter_evolves [OF _ it] Cons.prems(1) e by auto
  then show ?case
    using Cons.IH [of p1 buf1] Cons.prems it e
    by (cases fl1) (auto intro: evolves_trans)
qed simp

end
