(* ===== verification/Peer_Props.thy ===== *)
theory Peer_Props
  imports Peer_Correct
begin

text \<open>
  The properties of a peer session: the byte stream, the end of a session and what it leaves in the
  RIB, graceful restart, and UPDATE messages in any state.
\<close>

section \<open>A sample session\<close>

definition a_local :: LocalConfig where
  "a_local = LocalConfig_new 65000 0x01010101"

definition a_session :: "real Peer" where
  "a_session = incoming_peer a_peer a_local one_update Metrics_new False (\<lambda>i. i) (\<lambda>_. True)"

lemma a_session_fields [simp]:
  "addr a_session = a_peer" "the_rib a_session = one_update" "rib_poisoned a_session = False"
  "state a_session = OpenSent" "timers a_session = BgpTimers_new 90" "clk a_session = (\<lambda>i. i)"
  "local_cfg a_session = a_local" "writes a_session = (\<lambda>_. True)" "spawned a_session = []"
  by (simp_all add: a_session_def incoming_peer_def Peer_new_def transition_def next_state_def a_local_def
      LocalConfig_new_def Let_def)

lemma a_session_timed [simp]:
  "a_session\<lparr>clk := \<lambda>i. i\<rparr> = a_session" "timed a_session = a_session"
  "hold_timer_expired (BgpTimers_new 90) (\<lambda>i. i) = (False, \<lambda>i. i)"
  "send_keepalive B a_session = (True, a_session)"
  by (simp_all add: timed_def hold_timer_expired_def BgpTimers_new_def send_keepalive_def Peer.equality)

lemma drain_keepalive:
  assumes "bytes_crate B"
  shows "drain B F H (Suc n) p (KeepaliveMessage_serialize B @ rest) =
     drain B F H n (fst (handle_keepalive p)) rest"
proof -
  let ?m = "\<lparr>msg_header = Header_new Keepalive 0, msg_body = []\<rparr>"
  have "BgpMessage_parse B (frame_bytes ?m @ rest) = Ok (Some ?m, rest)"
    by (rule bytes_crate.BgpMessage_parse_frame [OF assms]) (simp add: frame_ok_def)
  then have parse: "BgpMessage_parse B (KeepaliveMessage_serialize B @ rest) = Ok (Some ?m, rest)"
    by (simp add: frame_bytes_def KeepaliveMessage_serialize_def bytes_crate.Header_serialize_eq [OF assms])
  have "handle_message B F H ?m p = (fst (handle_keepalive p), Ok ())"
    by (simp add: handle_message_def Header_new_def handle_keepalive_def Let_def)
  from drain_message [OF parse this] show ?thesis by simp
qed

lemma drain_Nil [simp]: "drain B F H (Suc n) p [] = (p, [], Ok ())"
  by (simp add: drain.simps(2) BgpMessage_parse_def HEADER_LEN_def)

section \<open>Properties\<close>

text \<open>C3: the session does not depend on how the transport cuts the byte stream.  If the messages of a
  buffer are handled without an error, leaving \<open>rest\<close>, then handling the buffer extended by further
  bytes is the same as going on from there with \<open>rest\<close> and those bytes: the same messages are handled in
  the same order with the same effects.\<close>

theorem stream_segmentation:
  assumes "bytes_crate B" and "drain B F H (Suc (length buf)) p buf = (q, rest, Ok ())"
  shows "drain B F H (Suc (length (buf @ bs))) p (buf @ bs) =
         drain B F H (Suc (length (rest @ bs))) q (rest @ bs)"
  using assms(2) by (rule bytes_crate.drain_append [OF assms(1)]) simp

theorem stream_segmentation_witness:
  "drain documented_bytes real_f64 insertion_order
       (Suc (length ((KeepaliveMessage_serialize documented_bytes @ [0xFF]) @ [0xFF :: u8]))) a_session
       ((KeepaliveMessage_serialize documented_bytes @ [0xFF]) @ [0xFF]) =
   drain documented_bytes real_f64 insertion_order (Suc (length ([0xFF] @ [0xFF :: u8])))
       (fst (handle_keepalive a_session)) ([0xFF] @ [0xFF])"
proof (rule stream_segmentation [OF documented_bytes_ok])
  have "length (KeepaliveMessage_serialize documented_bytes @ [0xFF]) = Suc 19"
    by (simp add: KeepaliveMessage_serialize_def HEADER_LEN_def)
  moreover have "drain documented_bytes real_f64 insertion_order (Suc n) p [0xFF] = (p, [0xFF], Ok ())" for n p
    by (simp add: drain.simps(2) BgpMessage_parse_def HEADER_LEN_def)
  ultimately show "drain documented_bytes real_f64 insertion_order
      (Suc (length (KeepaliveMessage_serialize documented_bytes @ [0xFF]))) a_session
      (KeepaliveMessage_serialize documented_bytes @ [0xFF]) =
      (fst (handle_keepalive a_session), [0xFF], Ok ())"
    by (simp only: drain_keepalive [OF documented_bytes_ok])
qed

text \<open>C19: an iteration of the event loop always ends, whatever the peer sends: the loop over the
  buffered messages never runs out of fuel, so that the iteration goes on, returns or panics.\<close>

theorem session_iter_ends:
  assumes "bytes_crate B" and "session_iter B F H ev p buf = (q, rest, fl)"
  shows "fl \<noteq> Return NoFuel"
  using assms(2)
proof (cases rule: session_iter_cases)
  case (data bs r)
  have "r \<noteq> NoFuel"
    using bytes_crate.drain_fuel [OF assms(1), of "buf @ bs" "Suc (length (buf @ bs))"
        "Suc (length (buf @ bs))" F H "snd (send_keepalive B (timed p))"] data(2) by simp
  then show ?thesis using data(3) by simp
qed simp_all

theorem session_iter_ends_witness:
  "\<exists>q rest fl. session_iter documented_bytes real_f64 insertion_order (ReadOk [1, 2]) a_session [] =
     (q, rest, fl) \<and> fl \<noteq> Return NoFuel"
proof -
  obtain q rest fl where it: "session_iter documented_bytes real_f64 insertion_order (ReadOk [1, 2])
      a_session [] = (q, rest, fl)" by (metis prod_cases3)
  from session_iter_ends [OF documented_bytes_ok it] it show ?thesis by blast
qed

lemma orderly_end:
  assumes "hash_orders H" and "rib_ok (the_rib p)" and "\<not> rib_poisoned p"
    and "session_iter B F H ev p buf = (q, rest, Return (Ok ()))"
  shows "(\<forall>k. adj (the_rib q) (addr p) k = None) \<and>
         (\<forall>k r. hm_get (loc_rib (the_rib q)) k = Some r \<longrightarrow> peer_addr r \<noteq> addr p) \<and>
         (\<forall>a k. a \<noteq> addr p \<longrightarrow> adj (the_rib q) a k = adj (the_rib p) a k)"
proof -
  have "the_rib q = snd (remove_peer H (addr p) (the_rib p))"
    using assms(4)
  proof (cases rule: session_iter_cases)
    case expired
    then show ?thesis
      using assms(3) by (simp add: expire_session_rib)
  next
    case closed
    then show ?thesis using assms(3) by (simp add: handle_disconnect_removes with_rib_def)
  next
    case (data bs r)
    then show ?thesis by (simp split: if_splits)
  qed simp_all
  then obtain ks where rm: "remove_peer H (addr p) (the_rib p) = (ks, the_rib q)"
    by (metis prod.collapse)
  have ok: "rib_ok (the_rib q)" by (rule hash_orders.remove_peer_ok [OF assms(1,2) rm])
  note adj = hash_orders.remove_peer_adj [OF assms(1) rm]
  have "peer_addr r \<noteq> addr p" if "hm_get (loc_rib (the_rib q)) k = Some r" for k r
    using rib_ok_loc [OF ok that] adj(1) [of "peer_addr r" k] by (auto split: if_splits)
  then show ?thesis using adj by simp
qed

text \<open>C11: a session that ends in good order leaves no routes behind when graceful restart does not apply, that is
  when the peer did not announce the capability or the session is not Established.  When the event loop then
  returns without an error, because the hold timer expired or the peer closed the connection, and the lock of
  the RIB is not poisoned, no route of the peer is left in its table or in the Loc-RIB, the tables of all other
  peers are untouched by that iteration, no purge task is spawned, and the session is out of Established.\<close>

theorem orderly_end_removes_routes:
  assumes "hash_orders H" and "rib_ok (the_rib p)" and "\<not> rib_poisoned p"
    and "session_iter B F H ev p buf = (q, rest, Return (Ok ()))"
    and "\<not> (peer_supports_gr p \<and> state p = Established)"
  shows "(\<forall>k. adj (the_rib q) (addr p) k = None) \<and>
         (\<forall>k r. hm_get (loc_rib (the_rib q)) k = Some r \<longrightarrow> peer_addr r \<noteq> addr p) \<and>
         (\<forall>a k. a \<noteq> addr p \<longrightarrow> adj (the_rib q) a k = adj (the_rib p) a k) \<and>
         spawned q = spawned p \<and> state q \<noteq> Established"
proof -
  have "spawned q = spawned p" using session_iter_evolves [OF assms(1,4)] by (simp add: evolves_def)
  moreover have "state q \<noteq> Established"
    using assms(4)
  proof (cases rule: session_iter_cases)
    case expired
    then show ?thesis by (simp add: expire_session_def Let_def case_prod_beta env_defs next_state_drop)
  next
    case closed
    then show ?thesis by (simp add: hung_up_def env_defs next_state_drop)
  next
    case (data bs r)
    then show ?thesis by (simp split: if_splits)
  qed simp_all
  ultimately show ?thesis using orderly_end [OF assms(1-4)] by blast
qed

theorem orderly_end_removes_routes_witness:
  "\<exists>q rest. session_iter documented_bytes real_f64 insertion_order (ReadOk []) a_session [] =
     (q, rest, Return (Ok ())) \<and> adj (the_rib q) a_peer a_key = None"
proof -
  obtain q where it: "session_iter documented_bytes real_f64 insertion_order (ReadOk []) a_session [] =
      (q, [], Return (Ok ()))"
    by (simp add: session_iter_def session_poll_def)
  from orderly_end_removes_routes [OF insertion.hash_orders_axioms _ _ it] it one_update_ok
  show ?thesis by auto
qed

text \<open>C37: a session that ends with an error leaves its routes behind.  When the read fails, when the
  first buffered bytes are not a valid message, or when the first buffered message is an UPDATE on which
  the parser panics, the session is over and the RIB is exactly as before, so that the Loc-RIB keeps
  forwarding to a peer that is gone.\<close>

theorem failed_end_keeps_routes:
  assumes "\<not> fst (hold_timer_expired (timers p) (clk p))" and "fst (send_keepalive B (timed p))"
    and "ev = ReadErr \<or> (\<exists>bs. ev = ReadOk bs \<and> bs \<noteq> [] \<and>
           ((\<exists>e. BgpMessage_parse B (buf @ bs) = Err e) \<or>
            (\<exists>m rest. BgpMessage_parse B (buf @ bs) = Ok (Some m, rest) \<and>
               msg_type (msg_header m) = Update \<and> UpdateMessage_parse B (msg_body m) = Panic)))"
  shows "\<exists>q rest r. session_iter B F H ev p buf = (q, rest, Return r) \<and> r \<noteq> Ok () \<and> the_rib q = the_rib p"
  using assms(3)
proof (elim disjE exE conjE)
  assume "ev = ReadErr"
  then show ?thesis
    using assms(1,2) by (simp add: session_iter_def session_poll_def timed_def Let_def case_prod_beta)
next
  fix bs e
  assume "ev = ReadOk bs" "bs \<noteq> []" "BgpMessage_parse B (buf @ bs) = Err e"
  then show ?thesis
    using assms(1,2)
    by (simp add: session_iter_def session_poll_def timed_def [symmetric] Let_def case_prod_beta drain.simps(2))
next
  fix bs m rest
  assume bs: "ev = ReadOk bs" "bs \<noteq> []" and m: "BgpMessage_parse B (buf @ bs) = Ok (Some m, rest)"
    and u: "msg_type (msg_header m) = Update" "UpdateMessage_parse B (msg_body m) = Panic"
  let ?k = "snd (send_keepalive B (timed p))"
  have "handle_message B F H m ?k = (peer_inc messages_rx_update_update ?k, Panic)"
    using u by (simp add: handle_message_def handle_update_def on_parse_def)
  from drain_message [OF m this] show ?thesis
    using assms(1,2) bs
    by (simp add: session_iter_def session_poll_def timed_def [symmetric] Let_def case_prod_beta)
qed

theorem failed_end_keeps_routes_witness:
  "\<exists>q rest r. session_iter documented_bytes real_f64 insertion_order ReadErr a_session [] =
     (q, rest, Return r) \<and> r \<noteq> Ok () \<and> the_rib q = one_update"
  using failed_end_keeps_routes [of a_session documented_bytes ReadErr "[]" real_f64 insertion_order]
  by simp

text \<open>C38: graceful restart never takes effect.  Every path to \<^verbatim>\<open>handle_disconnect\<close> has left the
  Established state first, so that over any run of the event loop, with any peer that negotiated the
  capability, no purge task is spawned, and a RIB without stale routes stays without stale routes.\<close>

theorem graceful_restart_unreachable:
  assumes "\<forall>(H, ev) \<in> set evs. hash_orders H" and "session_loop B F evs p buf = (q, rest, fl)"
    and "no_stale (the_rib p)"
  shows "spawned q = spawned p \<and> no_stale (the_rib q)"
proof -
  have ev: "evolves F p q" using assms(1,2) by (rule session_loop_evolves)
  have "no_stale rib' \<or> \<not> no_stale rib" if "(live_step F (addr p))\<^sup>*\<^sup>* rib rib'" for rib rib'
    using that by (induction rule: rtranclp_induct) (auto dest: live_step_no_stale)
  then show ?thesis using ev assms(3) by (auto simp: evolves_def)
qed

theorem graceful_restart_unreachable_witness:
  "\<exists>q rest fl. session_loop documented_bytes real_f64 [(insertion_order, ReadOk [])] a_session [] = (q, rest, fl) \<and>
     spawned q = [] \<and> no_stale (the_rib q)"
proof -
  obtain q rest fl where it: "session_loop documented_bytes real_f64 [(insertion_order, ReadOk [])]
      a_session [] = (q, rest, fl)" by (metis prod_cases3)
  have "no_stale (configured real_f64 RpkiValidator_default)"
    by (simp add: no_stale_def adj_def configured_def Rib_new_def Rib_default_def)
  moreover have "live_step real_f64 a_peer (configured real_f64 RpkiValidator_default) one_update"
    using one_update_eq live_step.update [OF insertion.hash_orders_axioms] by blast
  ultimately have "no_stale one_update" by (metis live_step_no_stale)
  then show ?thesis
    using graceful_restart_unreachable [OF _ it] it insertion.hash_orders_axioms by auto
qed

text \<open>An UPDATE that parses changes the RIB by \<^verbatim>\<open>process_update\<close> whatever the state of the session, also before
  the OPEN exchange (the peer's AS number is then zero), although RFC 4271 admits it only in Established.\<close>

lemma handle_update_effect:
  assumes "UpdateMessage_parse B body = Ok u" and "\<not> rib_poisoned p"
    and "nlri u \<noteq> [] \<or> withdrawn_routes u \<noteq> []"
  shows "\<exists>q c. handle_update B F H body p = (q, Ok ()) \<and> state q = state p \<and>
           the_rib q = fst (process_update F H (addr p) (remote_as p) (nlri u) (path_attributes u)
                              (withdrawn_routes u) (the_rib p) c)"
proof -
  have "next_state s UpdateMsg = s" for s by (cases s) (simp_all add: next_state_def)
  moreover have "remote_as (peer_add f n q) = remote_as q" "remote_as (transition e q) = remote_as q"
    "remote_as (peer_reset_hold_timer q) = remote_as q" "remote_as (peer_inc f q) = remote_as q"
    for f n e and q :: "'a Peer"
    by (simp_all add: env_defs)
  ultimately show ?thesis
    using assms
    by (auto simp: handle_update_def on_parse_def Let_def with_rib_def case_prod_beta)
qed

end
