(* ===== verification/Server.thy ===== *)
theory Server
  imports Peer_Props
begin

text \<open>
  The server, \<^verbatim>\<open>src/server.rs\<close>, and the whole daemon as a transition system.  The listener accepts
  connections and spawns one session for each; the sessions share the RIB and the metrics and run
  interleaved.  A step of the system is one accepted connection, one passage of one session from the head of
  its loop to the data (\<open>session_poll\<close>), one message of one session, or one purge task: each takes the
  lock of the RIB at most once.  The environment chooses, for each step, what the socket delivers, which
  writes succeed, the readings of the clock and the traversal orders of the hash maps.  An undisturbed
  iteration of the event loop, \<open>session_iter\<close>, is a sequence of such steps.
\<close>

section \<open>State\<close>

record 'f Server =
  bind_addr :: SocketAddr
  srv_local :: LocalConfig
  srv_rib :: "'f Rib"
  srv_metrics :: Metrics

definition Server_new :: "'f f64_ops \<Rightarrow> SocketAddr \<Rightarrow> LocalConfig \<Rightarrow> Metrics \<Rightarrow> 'f Server" where
  "Server_new F bind lc m = \<lparr>bind_addr = bind, srv_local = lc, srv_rib = Rib_new F, srv_metrics = m\<rparr>"

text \<open>
  The running daemon: the server, whether its lock is poisoned, the live sessions with their receive
  buffers and whether they are inside the loop over the buffered messages, and the purge tasks that have not
  run yet.
\<close>

record 'f System =
  server :: "'f Server"
  poisoned :: bool
  sessions :: "('f Peer \<times> u8 list \<times> bool) list"
  tasks :: "(SocketAddr \<times> Duration) list"

definition System_new :: "'f Server \<Rightarrow> 'f System" where
  "System_new srv = \<lparr>server = srv, poisoned = False, sessions = [], tasks = []\<rparr>"

text \<open>A session runs on the current contents of what it shares; afterwards the contents are put back.\<close>

definition load :: "'f System \<Rightarrow> clock \<Rightarrow> (nat \<Rightarrow> bool) \<Rightarrow> 'f Peer \<Rightarrow> 'f Peer" where
  "load s c ws p =
     p\<lparr>the_rib := srv_rib (server s), the_metrics := srv_metrics (server s), rib_poisoned := poisoned s,
       clk := c, writes := ws, spawned := []\<rparr>"

definition store :: "'f Peer \<Rightarrow> 'f System \<Rightarrow> 'f System" where
  "store p s =
     s\<lparr>server := (server s)\<lparr>srv_rib := the_rib p, srv_metrics := the_metrics p\<rparr>,
       tasks := tasks s @ spawned p\<rparr>"

section \<open>Steps\<close>

text \<open>One round of the accept loop: the spawned task starts with \<^verbatim>\<open>Peer::handle_incoming\<close>.\<close>

definition accept :: "bytes_ops \<Rightarrow> SocketAddr \<Rightarrow> clock \<Rightarrow> (nat \<Rightarrow> bool) \<Rightarrow> 'f System \<Rightarrow> 'f System" where
  "accept B a c ws s =
     (let p = incoming_peer a (srv_local (server s)) (srv_rib (server s)) (srv_metrics (server s))
                (poisoned s) c ws;
          (ok, p) = session_start B p;
          s = store p s
      in if ok then s\<lparr>sessions := sessions s @ [(p, [], False)]\<rparr> else s)"

text \<open>A session that returns or panics is gone.\<close>

definition end_session :: "nat \<Rightarrow> 'f System \<Rightarrow> 'f System" where
  "end_session i s = s\<lparr>sessions := take i (sessions s) @ drop (Suc i) (sessions s)\<rparr>"

definition put_session :: "nat \<Rightarrow> 'f Peer \<times> u8 list \<times> bool \<Rightarrow> 'f System \<Rightarrow> 'f System" where
  "put_session i x s = s\<lparr>sessions := (sessions s)[i := x]\<rparr>"

text \<open>The session at index \<open>i\<close> passes the head of its loop.\<close>

definition poll ::
    "bytes_ops \<Rightarrow> hash_order \<Rightarrow> read_event \<Rightarrow> clock \<Rightarrow> (nat \<Rightarrow> bool) \<Rightarrow> nat \<Rightarrow> 'f System \<Rightarrow> 'f System" where
  "poll B H ev c ws i s =
     (if i < length (sessions s) then
        case sessions s ! i of
          (p, buf, True) \<Rightarrow> s
        | (p, buf, False) \<Rightarrow>
            let (q, buf, r) = session_poll B H ev (load s c ws p) buf;
                s = store q s
            in (case r of
                  Data \<Rightarrow> put_session i (q, buf, True) s
                | Elapsed \<Rightarrow> put_session i (q, buf, False) s
                | Ended _ \<Rightarrow> end_session i s)
      else s)"

text \<open>The body of \<^verbatim>\<open>while let Some(msg) = BgpMessage::parse(&mut buf)?\<close>.\<close>

datatype handled = Drained | Handled | Failed "(PeerError, unit) outcome"

definition message_step ::
    "bytes_ops \<Rightarrow> 'f f64_ops \<Rightarrow> hash_order \<Rightarrow> 'f Peer \<Rightarrow> u8 list \<Rightarrow> 'f Peer \<times> u8 list \<times> handled" where
  "message_step B F H p buf =
     (case BgpMessage_parse B buf of
        Ok (None, buf) \<Rightarrow> (p, buf, Drained)
      | Ok (Some msg, buf) \<Rightarrow>
          (case handle_message B F H msg p of
             (p, r) \<Rightarrow> (p, buf, if r = Ok () then Handled else Failed r))
      | Err e \<Rightarrow> (p, buf, Failed (Err (MessageErr e)))
      | Panic \<Rightarrow> (p, buf, Failed Panic)
      | NoFuel \<Rightarrow> (p, buf, Failed NoFuel))"

definition process ::
    "bytes_ops \<Rightarrow> 'f f64_ops \<Rightarrow> hash_order \<Rightarrow> clock \<Rightarrow> (nat \<Rightarrow> bool) \<Rightarrow> nat \<Rightarrow> 'f System \<Rightarrow> 'f System" where
  "process B F H c ws i s =
     (if i < length (sessions s) then
        case sessions s ! i of
          (p, buf, False) \<Rightarrow> s
        | (p, buf, True) \<Rightarrow>
            let (q, buf, r) = message_step B F H (load s c ws p) buf;
                s = store q s
            in (case r of
                  Handled \<Rightarrow> put_session i (q, buf, True) s
                | Drained \<Rightarrow> put_session i (q, buf, False) s
                | Failed _ \<Rightarrow> end_session i s)
      else s)"

text \<open>The body of the task that \<^verbatim>\<open>handle_disconnect\<close> spawns, once its sleep is over.\<close>

definition purge :: "hash_order \<Rightarrow> nat \<Rightarrow> 'f System \<Rightarrow> 'f System" where
  "purge H i s =
     (if i < length (tasks s) then
        let a = fst (tasks s ! i);
            s = s\<lparr>tasks := take i (tasks s) @ drop (Suc i) (tasks s)\<rparr>
        in if poisoned s then s
           else s\<lparr>server := (server s)\<lparr>srv_rib := snd (remove_stale_for_peer H a (srv_rib (server s)))\<rparr>\<rparr>
      else s)"

inductive sys_step :: "bytes_ops \<Rightarrow> 'f f64_ops \<Rightarrow> 'f System \<Rightarrow> 'f System \<Rightarrow> bool" for B F where
  accepted: "sys_step B F s (accept B a c ws s)"
| polled: "hash_orders H \<Longrightarrow> sys_step B F s (poll B H ev c ws i s)"
| processed: "hash_orders H \<Longrightarrow> sys_step B F s (process B F H c ws i s)"
| purged: "hash_orders H \<Longrightarrow> sys_step B F s (purge H i s)"

inductive_cases sys_stepE: "sys_step B F s s'"

section \<open>The invariant\<close>

definition sys_ok :: "'f System \<Rightarrow> bool" where
  "sys_ok s \<longleftrightarrow> rib_ok (srv_rib (server s)) \<and> no_stale (srv_rib (server s)) \<and> tasks s = []"

lemma live_steps_ok:
  assumes "(live_step F a)\<^sup>*\<^sup>* rib rib'" and "rib_ok rib" and "no_stale rib"
  shows "rib_ok rib' \<and> no_stale rib'"
  using assms
  by (induction rule: rtranclp_induct) (auto dest: live_step_no_stale live_rib_step rib_step_ok)

lemma session_start_keeps [simp]:
  "the_rib (snd (session_start B p)) = the_rib p" "spawned (snd (session_start B p)) = spawned p"
  by (simp_all add: session_start_def Let_def)

lemma incoming_peer_keeps [simp]:
  "the_rib (incoming_peer a lc rib m b c ws) = rib" "spawned (incoming_peer a lc rib m b c ws) = []"
  by (simp_all add: incoming_peer_def Peer_new_def transition_def Let_def)

lemma accept_ok: "sys_ok s \<Longrightarrow> sys_ok (accept B a c ws s)"
  by (simp add: sys_ok_def accept_def store_def Let_def case_prod_beta)

lemma session_poll_evolves:
  assumes "hash_orders H" and "session_poll B H ev p buf = (q, rest, r)"
  shows "evolves F p q"
proof (cases "r = Data")
  case True
  then have "q = snd (send_keepalive B (timed p))"
    using assms(2)
    by (auto simp: session_poll_def timed_def Let_def case_prod_beta split: if_splits read_event.splits)
  then show ?thesis by (intro evolves_same_rib) simp_all
next
  case False
  then obtain fl where "session_iter B F H ev p buf = (q, rest, fl)"
    using assms(2) by (cases r) (simp_all add: session_iter_def)
  then show ?thesis by (rule session_iter_evolves [OF assms(1)])
qed

lemma drain_message_step:
  "drain B F H (Suc fuel) p buf =
     (case message_step B F H p buf of
        (p, buf, Drained) \<Rightarrow> (p, buf, Ok ())
      | (p, buf, Handled) \<Rightarrow> drain B F H fuel p buf
      | (p, buf, Failed r) \<Rightarrow> (p, buf, r))"
  by (auto simp: drain.simps(2) message_step_def split: outcome.splits option.splits prod.splits)

lemma message_step_evolves:
  assumes "hash_orders H" and "message_step B F H p buf = (q, rest, r)"
  shows "evolves F p q"
proof -
  obtain rest' r' where "drain B F H (Suc 0) p buf = (q, rest', r')"
    using assms(2) by (cases r) (simp_all add: drain_message_step)
  then show ?thesis by (rule drain_evolves [OF assms(1)])
qed

lemma store_ok:
  assumes "sys_ok s" and "evolves F (load s c ws p) q"
  shows "sys_ok (store q s)"
  using assms live_steps_ok [of F "addr p" "srv_rib (server s)" "the_rib q"]
  by (simp add: sys_ok_def store_def evolves_def load_def)

lemma sessions_ok [simp]:
  "sys_ok (put_session i x s) = sys_ok s" "sys_ok (end_session i s) = sys_ok s"
  by (simp_all add: sys_ok_def put_session_def end_session_def)

text \<open>
  \<open>turn R E i s s'\<close>: nothing happens, or the session at index \<open>i\<close> runs on the shared state; it moves by \<open>R\<close> and
  is put back, or it moves by \<open>E\<close> and is gone.
\<close>

definition turn ::
    "('f Peer \<Rightarrow> 'f Peer \<Rightarrow> bool) \<Rightarrow> ('f Peer \<Rightarrow> 'f Peer \<Rightarrow> bool) \<Rightarrow> nat \<Rightarrow> 'f System \<Rightarrow> 'f System \<Rightarrow> bool" where
  "turn R E i s s' \<longleftrightarrow> s' = s \<or>
     (\<exists>c ws p buf d q. i < length (sessions s) \<and> sessions s ! i = (p, buf, d) \<and>
        (s' = end_session i (store q s) \<and> E (load s c ws p) q \<or>
         (\<exists>rest d'. s' = put_session i (q, rest, d') (store q s) \<and> R (load s c ws p) q)))"

lemma turn_cases [consumes 1, case_names same ended kept]:
  assumes "turn R E i s s'"
  obtains "s' = s"
    | c ws p buf d q where "i < length (sessions s)" and "sessions s ! i = (p, buf, d)"
        and "E (load s c ws p) q" and "s' = end_session i (store q s)"
    | c ws p buf d q rest d' where "i < length (sessions s)" and "sessions s ! i = (p, buf, d)"
        and "R (load s c ws p) q" and "s' = put_session i (q, rest, d') (store q s)"
  using assms unfolding turn_def by blast

lemma poll_turn:
  assumes "\<And>p buf q rest r. session_poll B H ev p buf = (q, rest, r) \<Longrightarrow>
    (case r of Ended _ \<Rightarrow> E p q | _ \<Rightarrow> R p q)"
  shows "turn R E i s (poll B H ev c ws i s)"
proof (cases "i < length (sessions s) \<and> (\<exists>p buf. sessions s ! i = (p, buf, False))")
  case True
  then obtain p buf where i: "i < length (sessions s)" "sessions s ! i = (p, buf, False)" by blast
  obtain q rest r where run: "session_poll B H ev (load s c ws p) buf = (q, rest, r)" by (metis prod_cases3)
  show ?thesis
    unfolding turn_def using i run assms [OF run] by (cases r) (simp_all add: poll_def, blast+)
next
  case False
  then have "poll B H ev c ws i s = s" by (auto simp: poll_def split: prod.split bool.split)
  then show ?thesis by (simp add: turn_def)
qed

lemma process_turn:
  assumes "\<And>p buf q rest r. message_step B F H p buf = (q, rest, r) \<Longrightarrow>
    (case r of Failed _ \<Rightarrow> E p q | _ \<Rightarrow> R p q)"
  shows "turn R E i s (process B F H c ws i s)"
proof (cases "i < length (sessions s) \<and> (\<exists>p buf. sessions s ! i = (p, buf, True))")
  case True
  then obtain p buf where i: "i < length (sessions s)" "sessions s ! i = (p, buf, True)" by blast
  obtain q rest r where run: "message_step B F H (load s c ws p) buf = (q, rest, r)" by (metis prod_cases3)
  show ?thesis
    unfolding turn_def using i run assms [OF run] by (cases r) (simp_all add: process_def, blast+)
next
  case False
  then have "process B F H c ws i s = s" by (auto simp: process_def split: prod.split bool.split)
  then show ?thesis by (simp add: turn_def)
qed

lemma poll_evolves: "hash_orders H \<Longrightarrow> turn (evolves F) (evolves F) i s (poll B H ev c ws i s)"
  by (rule poll_turn) (auto dest: session_poll_evolves split: polled.split)

lemma process_evolves: "hash_orders H \<Longrightarrow> turn (evolves F) (evolves F) i s (process B F H c ws i s)"
  by (rule process_turn) (auto dest: message_step_evolves split: handled.split)

lemma store_rib [simp]:
  "srv_rib (server (store q s)) = the_rib q" "server (put_session i x s) = server s"
  "server (end_session i s) = server s"
  by (simp_all add: store_def put_session_def end_session_def)

lemma turn_ok: "turn (evolves F) (evolves F) i s s' \<Longrightarrow> sys_ok s \<Longrightarrow> sys_ok s'"
  by (erule turn_cases) (simp_all add: store_ok)

lemma purge_ok: "sys_ok s \<Longrightarrow> sys_ok (purge H i s)"
  by (simp add: sys_ok_def purge_def)

interpretation daemon: state_machine "\<lambda>s. \<exists>bind lc m. s = System_new (Server_new F bind lc m)"
    "sys_step B F" sys_ok
  for B and F :: "'f f64_ops"
proof
  show "sys_ok s" if "\<exists>bind lc m. s = System_new (Server_new F bind lc m)" for s :: "'f System"
    using that by (auto simp: sys_ok_def System_new_def Server_new_def no_stale_def adj_def Rib_new_def
        Rib_default_def simp del: rib_ok_new) (simp add: rib_ok_new [unfolded Rib_new_def Rib_default_def])
  show "sys_ok s \<Longrightarrow> sys_step B F s s' \<Longrightarrow> sys_ok s'" for s s' :: "'f System"
    by (erule sys_stepE) (auto intro: accept_ok purge_ok turn_ok poll_evolves process_evolves)
qed

section \<open>Iterations are sequences of steps\<close>

text \<open>The peer holds the current contents of what it shares.\<close>

definition attached :: "'f Peer \<Rightarrow> 'f System \<Rightarrow> bool" where
  "attached p s \<longleftrightarrow> the_rib p = srv_rib (server s) \<and> the_metrics p = srv_metrics (server s) \<and>
     rib_poisoned p = poisoned s \<and> spawned p = []"

lemma attached_load [simp]: "attached (load s c ws p) s"
  by (simp add: attached_def load_def)

lemma load_attached: "attached p s \<Longrightarrow> load s (clk p) (writes p) p = p"
  by (simp add: attached_def load_def)

lemma attached_store:
  assumes "attached p s" and "evolves F p q"
  shows "attached q (put_session i x (store q s))" and "spawned q = []"
  using assms by (simp_all add: attached_def evolves_def put_session_def store_def)

lemma store_store:
  assumes "spawned p = []"
  shows "put_session i x (store q (put_session i y (store p s))) = put_session i x (store q s)"
    and "end_session i (store q (put_session i y (store p s))) = end_session i (store q s)"
  using assms by (simp_all add: put_session_def end_session_def store_def)

definition settle :: "nat \<Rightarrow> 'f Peer \<Rightarrow> u8 list \<Rightarrow> flow \<Rightarrow> 'f System \<Rightarrow> 'f System" where
  "settle i q rest fl s = (case fl of
     Next \<Rightarrow> put_session i (q, rest, False) (store q s) | Return _ \<Rightarrow> end_session i (store q s))"

lemma settle_store:
  "spawned p = [] \<Longrightarrow> settle i q rest fl (put_session i y (store p s)) = settle i q rest fl s"
  by (simp add: settle_def store_store split: flow.split)

lemma sessions_put [simp]:
  "length (sessions (put_session i x (store p s))) = length (sessions s)"
  "i < length (sessions s) \<Longrightarrow> sessions (put_session i x (store p s)) ! i = x"
  by (simp_all add: put_session_def store_def)

lemma drain_steps:
  assumes "hash_orders H"
  shows "drain B F H fuel p buf = (q, rest, r) \<Longrightarrow> r \<noteq> NoFuel \<Longrightarrow> attached p s \<Longrightarrow>
    i < length (sessions s) \<Longrightarrow> sessions s ! i = (p, buf, True) \<Longrightarrow>
    (sys_step B F)\<^sup>*\<^sup>* s (settle i q rest (if r = Ok () then Next else Return r) s)"
proof (induction fuel arbitrary: p buf s)
  case (Suc fuel)
  obtain p1 buf1 r1 where m: "message_step B F H p buf = (p1, buf1, r1)" by (metis prod_cases3)
  have step: "sys_step B F s (process B F H (clk p) (writes p) i s)"
    using assms by (rule sys_step.processed)
  note at1 = attached_store [OF Suc.prems(3) message_step_evolves [OF assms m]]
  show ?case
  proof (cases r1)
    case Handled
    let ?s1 = "put_session i (p1, buf1, True) (store p1 s)"
    have "process B F H (clk p) (writes p) i s = ?s1"
      using Suc.prems m Handled by (simp add: process_def load_attached)
    moreover have "(sys_step B F)\<^sup>*\<^sup>* ?s1 (settle i q rest (if r = Ok () then Next else Return r) ?s1)"
      using Suc.prems m Handled by (intro Suc.IH [of p1 buf1] at1) (simp_all add: drain_message_step)
    ultimately show ?thesis
      using step by (simp add: settle_store [OF at1(2)] converse_rtranclp_into_rtranclp)
  next
    case Drained
    then have "process B F H (clk p) (writes p) i s = settle i q rest (if r = Ok () then Next else Return r) s"
      using Suc.prems m by (simp add: process_def load_attached drain_message_step settle_def)
    then show ?thesis using step by (simp add: r_into_rtranclp)
  next
    case (Failed r2)
    have "r2 \<noteq> Ok ()"
      using m Failed by (auto simp: message_step_def split: outcome.splits option.splits prod.splits if_splits)
    then have "process B F H (clk p) (writes p) i s = settle i q rest (if r = Ok () then Next else Return r) s"
      using Suc.prems m Failed by (simp add: process_def load_attached drain_message_step settle_def)
    then show ?thesis using step by (simp add: r_into_rtranclp)
  qed
qed simp

section \<open>The running daemon\<close>

text \<open>In every reachable state the Loc-RIB has an entry for a prefix exactly when some peer's table has a route
  for it, every entry comes from the table of the peer it names, and no route on offer is preferred to it.\<close>

lemma daemon_best:
  assumes "(sys_step B F)\<^sup>*\<^sup>* (System_new (Server_new F bind lc m)) s"
  shows "let rib = srv_rib (server s) in
         (hm_get (loc_rib rib) k = None \<longleftrightarrow> (\<forall>p. adj rib p k = None)) \<and>
         (\<forall>r. hm_get (loc_rib rib) k = Some r \<longrightarrow>
            (\<exists>c. adj rib (peer_addr r) k = Some c \<and> r\<lparr>stale := False\<rparr> = c\<lparr>stale := False\<rparr>) \<and>
            (\<forall>p c. adj rib p k = Some c \<longrightarrow> \<not> preferred c r))"
proof -
  let ?rib = "srv_rib (server s)"
  have "sys_ok s" using assms by (rule daemon.reachable_inv [rotated]) blast
  then have ok: "rib_ok ?rib" by (simp add: sys_ok_def)
  then have best: "best_of (cands ?rib k) (hm_get (loc_rib ?rib) k)" by (simp add: rib_ok_def)
  show ?thesis
    unfolding Let_def using rib_ok_loc [OF ok] best_of_cands [OF best] by blast
qed

text \<open>The steps of the daemon are the program's event loop cut at its scheduling points.  Whenever a session runs a
  whole iteration of \<^verbatim>\<open>run_session\<close> undisturbed, whatever it reads, the daemon reaches the same result by its
  steps: the same session state, buffer, RIB, metrics and purge tasks, or the end of the session.\<close>

lemma iteration_refined:
  assumes "bytes_crate B" and "hash_orders H"
    and "i < length (sessions s)" and "sessions s ! i = (p, buf, False)"
    and "session_iter B F H ev (load s c ws p) buf = (q, rest, fl)"
  shows "(sys_step B F)\<^sup>*\<^sup>* s
           (case fl of Next \<Rightarrow> put_session i (q, rest, False) (store q s) | Return _ \<Rightarrow> end_session i (store q s))"
proof -
  obtain p1 buf1 r1 where p1: "session_poll B H ev (load s c ws p) buf = (p1, buf1, r1)"
    by (metis prod_cases3)
  have step: "sys_step B F s (poll B H ev c ws i s)" using assms(2) by (rule sys_step.polled)
  show ?thesis
  proof (cases r1)
    case Data
    let ?s1 = "put_session i (p1, buf1, True) (store p1 s)"
    note at1 = attached_store [OF attached_load session_poll_evolves [OF assms(2) p1]]
    obtain r where d: "drain B F H (Suc (length buf1)) p1 buf1 = (q, rest, r)"
      and fl: "fl = (if r = Ok () then Next else Return r)"
      using assms(5) p1 Data by (auto simp: session_iter_def Let_def split: prod.splits)
    have "r \<noteq> NoFuel"
      using bytes_crate.drain_fuel [OF assms(1), of buf1 "Suc (length buf1)"] d by (metis lessI snd_conv)
    then have "(sys_step B F)\<^sup>*\<^sup>* ?s1 (settle i q rest fl ?s1)"
      unfolding fl using assms(3) by (intro drain_steps [OF assms(2) d] at1(1)) simp_all
    moreover have "poll B H ev c ws i s = ?s1" using assms(3,4) p1 Data by (simp add: poll_def)
    ultimately show ?thesis
      using step
      by (simp add: settle_store [OF at1(2)] settle_def [symmetric] converse_rtranclp_into_rtranclp)
  qed (use assms(3-5) p1 step in \<open>auto simp: poll_def session_iter_def intro: r_into_rtranclp\<close>)
qed

text \<open>The gauge of active sessions is wrong as soon as one session ends.  Whatever its value, and
  however many other sessions are running, the iteration that sees the peer close its connection sets it
  to zero.\<close>

lemma active_gauge_reset:
  assumes "session_iter B F H (ReadOk []) p buf = (q, rest, fl)"
    and "fl = Return (Ok ())"
  shows "sessions_active (the_metrics q) = 0"
  using assms
proof (cases rule: session_iter_cases)
  case expired
  then show ?thesis
    by (simp add: expire_session_def handle_disconnect_def with_rib_def peer_set_def metric_set_def Let_def
        case_prod_beta)
next
  case closed
  then show ?thesis
    by (simp add: hung_up_def handle_disconnect_def with_rib_def peer_set_def metric_set_def Let_def)
next
  case (data bs r)
  then show ?thesis using assms(2) by (auto split: if_splits)
qed simp_all

end
