(* ===== verification/Config.thy ===== *)
theory Config
  imports Text
begin

text \<open>
  The configuration, \<^verbatim>\<open>src/config.rs\<close>: its data and its validation.  The TOML parser is a library: it is
  the argument \<open>parse_toml\<close> of \<open>Config_from_str\<close>.  Strings are sequences of octets here, which is what
  the length check of the MD5 password counts.
\<close>

section \<open>Data\<close>

datatype FilterAction = Permit | Deny

record PrefixListEntry =
  ple_action :: FilterAction
  ple_prefix :: string
  ge :: "u8 option"
  le :: "u8 option"

record PrefixList =
  pl_name :: string
  entries :: "PrefixListEntry list"

record CommunityList =
  cl_name :: string
  cl_communities :: "string list"

record PolicyConfig =
  prefix_lists :: "PrefixList list"
  community_lists :: "CommunityList list"

record RouterConfig =
  rc_local_as :: u32
  rc_router_id :: Ipv4Addr
  rc_listen :: SocketAddr
  rc_hold_time :: u16
  rc_keepalive_interval :: "u16 option"

definition default_listen :: SocketAddr where
  "default_listen = \<lparr>sock_ip = V4 0, sock_port = 179\<rparr>"

definition default_hold_time :: u16 where
  "default_hold_time = 90"

record NeighborConfig =
  nb_addr :: IpAddr
  nb_remote_as :: u32
  nb_hold_time :: "u16 option"
  nb_description :: "string option"
  route_reflector_client :: bool
  import_policy :: "string option"
  export_policy :: "string option"
  md5_password :: "string option"

definition socket_addr :: "NeighborConfig \<Rightarrow> u16 \<Rightarrow> SocketAddr" where
  "socket_addr n port = \<lparr>sock_ip = nb_addr n, sock_port = port\<rparr>"

record Config =
  router :: RouterConfig
  neighbors :: "NeighborConfig list"
  policy :: PolicyConfig

section \<open>Validation\<close>

text \<open>The messages of \<^verbatim>\<open>anyhow::bail!\<close>, one constructor for each.\<close>

datatype ConfigError =
    ReadError
  | TomlError
  | ZeroLocalAs
  | UnspecifiedRouterId
  | BroadcastRouterId
  | LoopbackRouterId
  | BadHoldTime
  | ZeroKeepalive
  | KeepaliveNotBelowHoldTime
  | DuplicateNeighbor IpAddr
  | ZeroRemoteAs IpAddr
  | BadNeighborHoldTime IpAddr
  | EmptyMd5Password IpAddr
  | LongMd5Password IpAddr

text \<open>\<^verbatim>\<open>Ipv4Addr::is_loopback\<close>: the first octet is 127.\<close>

definition is_loopback :: "Ipv4Addr \<Rightarrow> bool" where
  "is_loopback a \<longleftrightarrow> hd (to_be 4 a) = 127"

definition check_keepalive :: "RouterConfig \<Rightarrow> (ConfigError, unit) outcome" where
  "check_keepalive r = (case rc_keepalive_interval r of
     None \<Rightarrow> Ok ()
   | Some ka \<Rightarrow>
       if ka = 0 then Err ZeroKeepalive
       else if rc_hold_time r \<noteq> 0 \<and> rc_hold_time r \<le> ka then Err KeepaliveNotBelowHoldTime
       else Ok ())"

definition check_md5 :: "NeighborConfig \<Rightarrow> (ConfigError, unit) outcome" where
  "check_md5 n = (case md5_password n of
     None \<Rightarrow> Ok ()
   | Some pw \<Rightarrow>
       if pw = [] then Err (EmptyMd5Password (nb_addr n))
       else if 80 < length pw then Err (LongMd5Password (nb_addr n))
       else Ok ())"

text \<open>The loop over the neighbors; \<open>seen\<close> is the hash set of addresses.\<close>

fun check_neighbors :: "IpAddr list \<Rightarrow> NeighborConfig list \<Rightarrow> (ConfigError, unit) outcome" where
  "check_neighbors seen [] = Ok ()"
| "check_neighbors seen (n # ns) =
     (if nb_addr n \<in> set seen then Err (DuplicateNeighbor (nb_addr n))
      else if nb_remote_as n = 0 then Err (ZeroRemoteAs (nb_addr n))
      else if (case nb_hold_time n of Some ht \<Rightarrow> ht \<noteq> 0 \<and> ht < 3 | None \<Rightarrow> False)
        then Err (BadNeighborHoldTime (nb_addr n))
      else and_then (check_md5 n) (\<lambda>_. check_neighbors (nb_addr n # seen) ns))"

definition validate :: "Config \<Rightarrow> (ConfigError, unit) outcome" where
  "validate cfg =
     (let r = router cfg; rid = rc_router_id r in
      if rc_local_as r = 0 then Err ZeroLocalAs
      else if rid = 0 then Err UnspecifiedRouterId
      else if to_be 4 rid = [255, 255, 255, 255] then Err BroadcastRouterId
      else if is_loopback rid then Err LoopbackRouterId
      else if rc_hold_time r \<noteq> 0 \<and> rc_hold_time r < 3 then Err BadHoldTime
      else and_then (check_keepalive r) (\<lambda>_. check_neighbors [] (neighbors cfg)))"

definition Config_from_str ::
    "(string \<Rightarrow> Config option) \<Rightarrow> string \<Rightarrow> (ConfigError, Config) outcome" where
  "Config_from_str parse_toml s = (case parse_toml s of
     None \<Rightarrow> Err TomlError
   | Some cfg \<Rightarrow> and_then (validate cfg) (\<lambda>_. Ok cfg))"

text \<open>\<^verbatim>\<open>from_file\<close>; \<open>read_file\<close> stands for \<^verbatim>\<open>std::fs::read_to_string\<close>.\<close>

definition Config_from_file ::
    "(string \<Rightarrow> string option) \<Rightarrow> (string \<Rightarrow> Config option) \<Rightarrow> string \<Rightarrow> (ConfigError, Config) outcome" where
  "Config_from_file read_file parse_toml path = (case read_file path of
     None \<Rightarrow> Err ReadError
   | Some content \<Rightarrow> (case parse_toml content of
       None \<Rightarrow> Err TomlError
     | Some cfg \<Rightarrow> and_then (validate cfg) (\<lambda>_. Ok cfg)))"

section \<open>Lemmas\<close>

definition hold_time_ok :: "u16 \<Rightarrow> bool" where
  "hold_time_ok h \<longleftrightarrow> h = 0 \<or> 3 \<le> h"

definition neighbor_ok :: "NeighborConfig \<Rightarrow> bool" where
  "neighbor_ok n \<longleftrightarrow> nb_remote_as n \<noteq> 0 \<and> (\<forall>ht. nb_hold_time n = Some ht \<longrightarrow> hold_time_ok ht) \<and>
     (\<forall>pw. md5_password n = Some pw \<longrightarrow> 0 < length pw \<and> length pw \<le> 80)"

lemma check_md5_Ok:
  "check_md5 n = Ok () \<longleftrightarrow> (\<forall>pw. md5_password n = Some pw \<longrightarrow> 0 < length pw \<and> length pw \<le> 80)"
  by (auto simp: check_md5_def split: option.splits)

lemma check_neighbors_Ok:
  "check_neighbors seen ns = Ok () \<longleftrightarrow>
     distinct (map nb_addr ns) \<and> set (map nb_addr ns) \<inter> set seen = {} \<and> (\<forall>n \<in> set ns. neighbor_ok n)"
proof (induction ns arbitrary: seen)
  case (Cons n ns)
  have "\<not> (case nb_hold_time n of Some ht \<Rightarrow> ht \<noteq> 0 \<and> ht < 3 | None \<Rightarrow> False) \<longleftrightarrow>
      (\<forall>ht. nb_hold_time n = Some ht \<longrightarrow> hold_time_ok ht)"
    by (auto simp: hold_time_ok_def not_less split: option.splits)
  then show ?case
    using Cons.IH by (auto simp: and_then_eq_Ok_iff neighbor_ok_def check_md5_Ok)
qed simp

lemma Config_from_file_from_str:
  "read_file path = Some s \<Longrightarrow> Config_from_file read_file parse_toml path = Config_from_str parse_toml s"
  by (simp add: Config_from_file_def Config_from_str_def)

lemma config_load_iff:
  "Config_from_file read_file parse_toml path = Ok cfg \<longleftrightarrow>
     (\<exists>s. read_file path = Some s \<and> parse_toml s = Some cfg) \<and>
     rc_local_as (router cfg) \<noteq> 0 \<and>
     rc_router_id (router cfg) \<noteq> 0 \<and> to_be 4 (rc_router_id (router cfg)) \<noteq> [255, 255, 255, 255] \<and>
     hd (to_be 4 (rc_router_id (router cfg))) \<noteq> 127 \<and>
     hold_time_ok (rc_hold_time (router cfg)) \<and>
     (case rc_keepalive_interval (router cfg) of None \<Rightarrow> True
      | Some ka \<Rightarrow> 0 < ka \<and> (rc_hold_time (router cfg) = 0 \<or> ka < rc_hold_time (router cfg))) \<and>
     distinct (map nb_addr (neighbors cfg)) \<and> (\<forall>n \<in> set (neighbors cfg). neighbor_ok n)"
proof -
  have ka: "check_keepalive r = Ok () \<longleftrightarrow>
      (case rc_keepalive_interval r of None \<Rightarrow> True
       | Some ka \<Rightarrow> 0 < ka \<and> (rc_hold_time r = 0 \<or> ka < rc_hold_time r))" for r
    by (auto simp: check_keepalive_def not_le word_gt_0 split: option.splits)
  have "validate cfg = Ok () \<longleftrightarrow>
      rc_local_as (router cfg) \<noteq> 0 \<and>
      rc_router_id (router cfg) \<noteq> 0 \<and> to_be 4 (rc_router_id (router cfg)) \<noteq> [255, 255, 255, 255] \<and>
      \<not> is_loopback (rc_router_id (router cfg)) \<and> hold_time_ok (rc_hold_time (router cfg)) \<and>
      check_keepalive (router cfg) = Ok () \<and> check_neighbors [] (neighbors cfg) = Ok ()" for cfg
    by (auto simp: validate_def Let_def and_then_eq_Ok_iff hold_time_ok_def not_less)
  then show ?thesis
    by (auto simp: Config_from_file_def and_then_eq_Ok_iff ka check_neighbors_Ok is_loopback_def
        split: option.split)
qed

section \<open>Properties\<close>

text \<open>C31: loading succeeds exactly for valid configurations, and what is loaded is what the file says:
  a non-zero AS number, a router identifier that is neither 0.0.0.0 nor 255.255.255.255 nor in
  127.0.0.0/8, hold times that are zero or at least three seconds, a keepalive interval between zero and
  the hold time, neighbors with pairwise distinct addresses and non-zero AS numbers, and passwords of one
  to eighty octets.\<close>

theorem config_load_iff_valid:
  "Config_from_file read_file parse_toml path = Ok cfg \<longleftrightarrow>
     (\<exists>s. read_file path = Some s \<and> parse_toml s = Some cfg) \<and>
     rc_local_as (router cfg) \<noteq> 0 \<and>
     rc_router_id (router cfg) \<noteq> 0 \<and> to_be 4 (rc_router_id (router cfg)) \<noteq> [255, 255, 255, 255] \<and>
     hd (to_be 4 (rc_router_id (router cfg))) \<noteq> 127 \<and>
     hold_time_ok (rc_hold_time (router cfg)) \<and>
     (case rc_keepalive_interval (router cfg) of None \<Rightarrow> True
      | Some ka \<Rightarrow> 0 < ka \<and> (rc_hold_time (router cfg) = 0 \<or> ka < rc_hold_time (router cfg))) \<and>
     distinct (map nb_addr (neighbors cfg)) \<and> (\<forall>n \<in> set (neighbors cfg). neighbor_ok n)"
  by (rule config_load_iff)

definition sample_config :: Config where
  "sample_config =
     \<lparr>router = \<lparr>rc_local_as = 65001, rc_router_id = 0x0A000001, rc_listen = default_listen,
        rc_hold_time = default_hold_time, rc_keepalive_interval = Some 30\<rparr>,
      neighbors = [\<lparr>nb_addr = V4 0x0A000002, nb_remote_as = 65002, nb_hold_time = Some 180,
        nb_description = None, route_reflector_client = False, import_policy = None, export_policy = None,
        md5_password = Some ''secret''\<rparr>],
      policy = \<lparr>prefix_lists = [], community_lists = []\<rparr>\<rparr>"

theorem config_load_iff_valid_witness:
  "Config_from_file (\<lambda>_. Some ''pathforge'') (\<lambda>_. Some sample_config) ''pathforge.toml'' = Ok sample_config"
  unfolding config_load_iff_valid
  by (simp add: sample_config_def hold_time_ok_def neighbor_ok_def default_hold_time_def to_be_def)

end
