(* ===== verification/Policy.thy ===== *)
theory Policy
  imports Config Update Std_Lib
begin

text \<open>
  Route policies, \<^verbatim>\<open>src/policy.rs\<close>: prefix lists with their length ranges, and community lists.
\<close>

record PolicyEngine =
  engine_policy :: PolicyConfig

definition PolicyEngine_new :: "PolicyConfig \<Rightarrow> PolicyEngine" where
  "PolicyEngine_new p = \<lparr>engine_policy = p\<rparr>"

text \<open>\<^verbatim>\<open>Display\<close> of a prefix, and its reader.\<close>

definition Prefix_to_string :: "Prefix \<Rightarrow> string" where
  "Prefix_to_string p = show_ipv4 (address p) @ [CHR 0x2F] @ show_nat (unat (prefix_len p))"

definition parse_prefix :: "string \<Rightarrow> (Ipv4Addr \<times> u8) option" where
  "parse_prefix s = (case split_once (CHR 0x2F) s of
     None \<Rightarrow> None
   | Some (addr_str, len_str) \<Rightarrow>
       (case parse_ipv4 addr_str of
          None \<Rightarrow> None
        | Some addr \<Rightarrow> (case parse_u8 len_str of None \<Rightarrow> None | Some len \<Rightarrow> Some (addr, len))))"

text \<open>\<^verbatim>\<open>32 - net_len\<close> is computed in \<^verbatim>\<open>u8\<close>.\<close>

definition is_subnet :: "Ipv4Addr \<Rightarrow> u8 \<Rightarrow> Ipv4Addr \<Rightarrow> u8 \<Rightarrow> bool" where
  "is_subnet test_addr test_len net_addr net_len =
     (if test_len < net_len then False
      else if net_len = 0 then True
      else
        let mask = NOT (shl32 1 (unat (32 - net_len)) - 1)
        in net_addr AND mask = test_addr AND mask)"

definition matches_entry :: "PrefixListEntry \<Rightarrow> Prefix \<Rightarrow> bool" where
  "matches_entry entry prefix = (case parse_prefix (ple_prefix entry) of
     None \<Rightarrow> False
   | Some (net_addr, net_len) \<Rightarrow>
       if \<not> is_subnet (address prefix) (prefix_len prefix) net_addr net_len then False
       else
         let pl = prefix_len prefix;
             ge_ok = (case ge entry of Some g \<Rightarrow> g \<le> pl | None \<Rightarrow> True);
             le_ok = (case le entry of Some l \<Rightarrow> pl \<le> l | None \<Rightarrow> True);
             exact_ok = (if ge entry = None \<and> le entry = None then pl = net_len else True)
         in ge_ok \<and> le_ok \<and> exact_ok)"

fun evaluate_entries :: "PrefixListEntry list \<Rightarrow> Prefix \<Rightarrow> bool" where
  "evaluate_entries [] prefix = False"
| "evaluate_entries (e # es) prefix =
     (if matches_entry e prefix then ple_action e = Permit else evaluate_entries es prefix)"

definition evaluate_prefix_list :: "PrefixList \<Rightarrow> Prefix \<Rightarrow> PathAttributes \<Rightarrow> bool" where
  "evaluate_prefix_list pl prefix a = evaluate_entries (entries pl) prefix"

definition apply_policy :: "PolicyEngine \<Rightarrow> string \<Rightarrow> Prefix \<Rightarrow> PathAttributes \<Rightarrow> bool" where
  "apply_policy eng policy_name prefix a =
     (case find (\<lambda>p. pl_name p = policy_name) (prefix_lists (engine_policy eng)) of
        Some pl \<Rightarrow> evaluate_prefix_list pl prefix a
      | None \<Rightarrow> True)"

definition parse_community_str :: "string \<Rightarrow> Community option" where
  "parse_community_str s =
     (if s = ''no-export'' then Some NO_EXPORT
      else if s = ''no-advertise'' then Some NO_ADVERTISE
      else if s = ''no-export-subconfed'' then Some NO_EXPORT_SUBCONFED
      else case split_once (CHR 0x3A) s of
        None \<Rightarrow> None
      | Some (asn_str, val_str) \<Rightarrow>
          (case parse_u16 asn_str of
             None \<Rightarrow> None
           | Some a \<Rightarrow> (case parse_u16 val_str of
               None \<Rightarrow> None
             | Some v \<Rightarrow> Some (Community (push_bit 16 (ucast a) OR ucast v)))))"

definition has_community :: "PathAttributes \<Rightarrow> string \<Rightarrow> bool" where
  "has_community a s = (case parse_community_str s of Some c \<Rightarrow> c \<in> set (communities a) | None \<Rightarrow> False)"

definition matches_community_list :: "PolicyEngine \<Rightarrow> string \<Rightarrow> PathAttributes \<Rightarrow> bool" where
  "matches_community_list eng list_name a =
     (case find (\<lambda>c. cl_name c = list_name) (community_lists (engine_policy eng)) of
        Some cl \<Rightarrow> \<exists>c \<in> set (cl_communities cl). has_community a c
      | None \<Rightarrow> False)"

section \<open>Lemmas\<close>

lemma shl32_one_minus: "n < 32 \<Longrightarrow> shl32 1 n - 1 = mask n"
  by (simp add: shl32_def mask_eq_exp_minus_1 push_bit_of_1)

lemma and_not_mask_eq_iff:
  assumes "n < 32"
  shows "(a :: u32) AND NOT (mask n) = b AND NOT (mask n) \<longleftrightarrow> (\<forall>i<32. n \<le> i \<longrightarrow> bit a i = bit b i)"
proof
  assume eq: "a AND NOT (mask n) = b AND NOT (mask n)"
  show "\<forall>i<32. n \<le> i \<longrightarrow> bit a i = bit b i"
  proof (intro allI impI)
    fix i assume "i < 32" "n \<le> i"
    then have "bit a i = bit (a AND NOT (mask n)) i" "bit b i = bit (b AND NOT (mask n)) i"
      by (simp_all add: bit_simps)
    then show "bit a i = bit b i" using eq by simp
  qed
next
  assume "\<forall>i<32. n \<le> i \<longrightarrow> bit a i = bit b i"
  then show "a AND NOT (mask n) = b AND NOT (mask n)"
    by (intro bit_word_eqI) (auto simp: bit_simps)
qed

lemma is_subnet_iff:
  assumes "unat nlen \<le> 32"
  shows "is_subnet ta tlen na nlen \<longleftrightarrow> nlen \<le> tlen \<and> same_network (unat nlen) na ta"
proof (cases "nlen = 0")
  case False
  then have n: "0 < unat nlen" by (simp add: unat_gt_0)
  have "unat (32 - nlen) = 32 - unat nlen" using assms by (simp add: unat_sub word_le_nat_alt)
  then show ?thesis
    using n assms False
    by (auto simp: is_subnet_def Let_def shl32_one_minus and_not_mask_eq_iff same_network_def)
qed (simp add: is_subnet_def)

text \<open>What an entry with a well-formed prefix means.\<close>

definition entry_covers :: "PrefixListEntry \<Rightarrow> Ipv4Addr \<Rightarrow> u8 \<Rightarrow> Prefix \<Rightarrow> bool" where
  "entry_covers e na nlen p \<longleftrightarrow> nlen \<le> prefix_len p \<and> same_network (unat nlen) na (address p) \<and>
     (if ge e = None \<and> le e = None then prefix_len p = nlen
      else (\<forall>g. ge e = Some g \<longrightarrow> g \<le> prefix_len p) \<and> (\<forall>l. le e = Some l \<longrightarrow> prefix_len p \<le> l))"

lemma matches_entry_iff:
  assumes "parse_prefix (ple_prefix e) = Some (na, nlen)" and "unat nlen \<le> 32"
  shows "matches_entry e p \<longleftrightarrow> entry_covers e na nlen p"
  using assms
  by (auto simp: matches_entry_def entry_covers_def is_subnet_iff Let_def split: option.splits)

lemma evaluate_entries_iff:
  "evaluate_entries es p \<longleftrightarrow>
     (\<exists>i<length es. matches_entry (es ! i) p \<and> ple_action (es ! i) = Permit \<and>
        (\<forall>j<i. \<not> matches_entry (es ! j) p))"
proof (induction es)
  case (Cons e es)
  show ?case
  proof (cases "matches_entry e p")
    case True
    then show ?thesis by (auto simp: less_Suc_eq_0_disj)
  next
    case False
    let ?fm = "\<lambda>xs i. matches_entry (xs ! i) p \<and> ple_action (xs ! i) = Permit \<and>
        (\<forall>j<i. \<not> matches_entry (xs ! j) p)"
    have suc: "?fm (e # es) (Suc i) \<longleftrightarrow> ?fm es i" for i
      using False by (simp add: All_less_Suc2)
    have zero: "\<not> ?fm (e # es) 0" using False by simp
    have "(\<exists>i<length (e # es). ?fm (e # es) i) \<longleftrightarrow> (\<exists>i<length es. ?fm (e # es) (Suc i))"
      unfolding length_Cons Ex_less_Suc2 using zero by blast
    then show ?thesis using Cons.IH False unfolding suc by simp
  qed
qed simp

lemma parse_prefix_to_string: "parse_prefix (Prefix_to_string p) = Some (address p, prefix_len p)"
proof -
  have "parse_u8 (show_nat (unat (prefix_len p))) = Some (prefix_len p)"
    using unat_u8_less [of "prefix_len p"] by (simp add: parse_u8_def parse_uint_show_nat)
  then show ?thesis
    by (simp add: parse_prefix_def Prefix_to_string_def split_once_app show_ipv4_no_slash parse_ipv4_show)
qed

section \<open>Properties\<close>

text \<open>C32: a prefix list is evaluated by first match with an implicit deny.  For a list whose entries
  hold the texts of the networks \<open>nets\<close>, each of at most 32 bits, a route is accepted exactly when some
  entry permits it that covers it (the route lies in the entry's network, and its length is in the
  entry's range, or equal to the network's when the entry has no range) and no earlier entry covers
  it.\<close>

theorem prefix_list_first_match:
  assumes "find (\<lambda>l. pl_name l = name) (prefix_lists (engine_policy eng)) = Some pl"
    and "map ple_prefix (entries pl) = map Prefix_to_string nets"
    and "\<forall>n \<in> set nets. unat (prefix_len n) \<le> 32"
  shows "apply_policy eng name p a \<longleftrightarrow>
     (\<exists>i<length nets. ple_action (entries pl ! i) = Permit \<and>
        entry_covers (entries pl ! i) (address (nets ! i)) (prefix_len (nets ! i)) p \<and>
        (\<forall>j<i. \<not> entry_covers (entries pl ! j) (address (nets ! j)) (prefix_len (nets ! j)) p))"
proof -
  have len: "length (entries pl) = length nets" using assms(2) by (metis length_map)
  have "matches_entry (entries pl ! i) p \<longleftrightarrow>
      entry_covers (entries pl ! i) (address (nets ! i)) (prefix_len (nets ! i)) p" if "i < length nets" for i
  proof (rule matches_entry_iff)
    have "ple_prefix (entries pl ! i) = Prefix_to_string (nets ! i)"
      using that len assms(2) by (metis nth_map)
    then show "parse_prefix (ple_prefix (entries pl ! i)) = Some (address (nets ! i), prefix_len (nets ! i))"
      by (simp add: parse_prefix_to_string)
    show "unat (prefix_len (nets ! i)) \<le> 32" using that assms(3) by simp
  qed
  then show ?thesis
    using assms(1) len
    by (auto simp: apply_policy_def evaluate_prefix_list_def evaluate_entries_iff)
qed

definition sample_list :: PrefixList where
  "sample_list = \<lparr>pl_name = ''in'', entries =
     [\<lparr>ple_action = Deny, ple_prefix = Prefix_to_string (Prefix_new 0x0A010000 16), ge = Some 16, le = Some 32\<rparr>,
      \<lparr>ple_action = Permit, ple_prefix = Prefix_to_string (Prefix_new 0x0A000000 8), ge = Some 8, le = Some 24\<rparr>]\<rparr>"

lemma sample_list_find:
  "find (\<lambda>l. pl_name l = ''in'') (prefix_lists (engine_policy
     (PolicyEngine_new \<lparr>prefix_lists = [sample_list], community_lists = []\<rparr>))) = Some sample_list"
  by (simp add: PolicyEngine_new_def sample_list_def)

lemma sample_list_nets:
  "map ple_prefix (entries sample_list) =
     map Prefix_to_string [Prefix_new 0x0A010000 16, Prefix_new 0x0A000000 8]"
  by (simp add: sample_list_def)

lemma sample_list_small: "\<forall>n \<in> set [Prefix_new 0x0A010000 16, Prefix_new 0x0A000000 8]. unat (prefix_len n) \<le> 32"
  by (simp add: Prefix_new_def)

theorem prefix_list_first_match_witness:
  "\<not> apply_policy (PolicyEngine_new \<lparr>prefix_lists = [sample_list], community_lists = []\<rparr>) ''in''
     (Prefix_new 0x0A010200 24) PathAttributes_default"
proof -
  let ?nets = "[Prefix_new 0x0A010000 16, Prefix_new 0x0A000000 8]" let ?p = "Prefix_new 0x0A010200 24"
  have "same_network 16 0x0A010000 0x0A010200"
    by (subst same_network_shr [symmetric]) (simp_all add: shr32_def)
  then have first: "entry_covers (entries sample_list ! 0) (address (?nets ! 0)) (prefix_len (?nets ! 0)) ?p"
    "ple_action (entries sample_list ! 0) = Deny"
    by (simp_all add: sample_list_def entry_covers_def Prefix_new_def)
  have "i = 0 \<or> 0 < i" for i :: nat by auto
  with first show ?thesis
    unfolding prefix_list_first_match [OF sample_list_find sample_list_nets sample_list_small]
    by (metis FilterAction.distinct(1))
qed

end
