(* ===== verification/Rr.thy ===== *)
theory Rr
  imports Attr
begin

text \<open>
  Route reflection, \<^verbatim>\<open>src/rr.rs\<close>: to whom a route is reflected, how its attributes change, and loop
  detection.
\<close>

datatype RrRole = NoRole | Client | NonClient

record RrConfig =
  cluster_id :: Ipv4Addr
  rr_enabled :: bool

definition RrConfig_new :: "Ipv4Addr \<Rightarrow> RrConfig" where
  "RrConfig_new cid = \<lparr>cluster_id = cid, rr_enabled = True\<rparr>"

record RouteReflector =
  rr_config :: RrConfig
  rr_router_id :: Ipv4Addr

definition RouteReflector_new :: "RrConfig \<Rightarrow> Ipv4Addr \<Rightarrow> RouteReflector" where
  "RouteReflector_new cfg rid = \<lparr>rr_config = cfg, rr_router_id = rid\<rparr>"

definition should_reflect :: "RouteReflector \<Rightarrow> RrRole \<Rightarrow> RrRole \<Rightarrow> SocketAddr \<Rightarrow> SocketAddr \<Rightarrow> bool" where
  "should_reflect rr source target source_addr target_addr =
     (if source_addr = target_addr then False
      else case (source, target) of
        (NoRole, _) \<Rightarrow> True
      | (Client, Client) \<Rightarrow> True
      | (Client, NonClient) \<Rightarrow> True
      | (NonClient, Client) \<Rightarrow> True
      | (NonClient, NonClient) \<Rightarrow> False
      | _ \<Rightarrow> False)"

definition prepare_reflected_attrs :: "RouteReflector \<Rightarrow> PathAttributes \<Rightarrow> Ipv4Addr \<Rightarrow> PathAttributes" where
  "prepare_reflected_attrs rr a oid =
     (let reflected = a;
          reflected = (if originator_id reflected = None
                       then reflected\<lparr>originator_id := Some oid\<rparr> else reflected)
      in reflected\<lparr>cluster_list := cluster_id (rr_config rr) # cluster_list reflected\<rparr>)"

definition has_cluster_loop :: "RouteReflector \<Rightarrow> PathAttributes \<Rightarrow> bool" where
  "has_cluster_loop rr a \<longleftrightarrow> cluster_id (rr_config rr) \<in> set (cluster_list a)"

definition has_originator_loop :: "RouteReflector \<Rightarrow> PathAttributes \<Rightarrow> bool" where
  "has_originator_loop rr a \<longleftrightarrow> originator_id a = Some (rr_router_id rr)"

definition has_loop :: "RouteReflector \<Rightarrow> PathAttributes \<Rightarrow> bool" where
  "has_loop rr a \<longleftrightarrow> has_cluster_loop rr a \<or> has_originator_loop rr a"

section \<open>Properties\<close>

text \<open>A route that passes through the reflectors \<open>rrs\<close> in turn, from the router \<open>oid\<close>.\<close>

definition reflect_along :: "RouteReflector list \<Rightarrow> Ipv4Addr \<Rightarrow> PathAttributes \<Rightarrow> PathAttributes" where
  "reflect_along rrs oid a = foldl (\<lambda>a rr. prepare_reflected_attrs rr a oid) a rrs"

lemma reflect_along_cluster_list:
  "cluster_list (reflect_along rrs oid a) = rev (map (\<lambda>rr. cluster_id (rr_config rr)) rrs) @ cluster_list a"
  unfolding reflect_along_def
  by (induction rrs arbitrary: a) (simp_all add: prepare_reflected_attrs_def Let_def)

lemma reflect_along_originator:
  "originator_id (reflect_along rrs oid a) =
     (if rrs = [] then originator_id a
      else case originator_id a of None \<Rightarrow> Some oid | Some i \<Rightarrow> Some i)"
  unfolding reflect_along_def
  by (induction rrs arbitrary: a) (auto simp: prepare_reflected_attrs_def Let_def split: option.splits)

text \<open>C33: reflection cannot loop.  A route that has passed through any non-empty chain of reflectors is
  recognised as a loop by each of them, and by the router that originated it; the originator set by the
  first of them is never overwritten, and AS path, next hop, local preference and MED are those the route
  came with.\<close>

theorem reflection_loop_detected:
  assumes "rr \<in> set rrs"
  shows "has_loop rr (reflect_along rrs oid a) \<and>
         (originator_id a = None \<longrightarrow> originator_id (reflect_along rrs oid a) = Some oid) \<and>
         (originator_id a = None \<and> rr_router_id origin_rr = oid \<longrightarrow>
            has_loop origin_rr (reflect_along rrs oid a)) \<and>
         (\<forall>i. originator_id a = Some i \<longrightarrow> originator_id (reflect_along rrs oid a) = Some i) \<and>
         as_path (reflect_along rrs oid a) = as_path a \<and> next_hop (reflect_along rrs oid a) = next_hop a \<and>
         local_pref (reflect_along rrs oid a) = local_pref a \<and>
         multi_exit_disc (reflect_along rrs oid a) = multi_exit_disc a"
proof -
  have "rrs \<noteq> []" using assms by auto
  moreover have "as_path (reflect_along rrs oid a) = as_path a \<and>
      next_hop (reflect_along rrs oid a) = next_hop a \<and>
      local_pref (reflect_along rrs oid a) = local_pref a \<and>
      multi_exit_disc (reflect_along rrs oid a) = multi_exit_disc a"
    unfolding reflect_along_def
    by (induction rrs arbitrary: a) (simp_all add: prepare_reflected_attrs_def Let_def)
  moreover have "has_loop rr (reflect_along rrs oid a)"
    using assms by (auto simp: has_loop_def has_cluster_loop_def reflect_along_cluster_list)
  ultimately show ?thesis
    by (simp add: reflect_along_originator has_loop_def has_originator_loop_def)
qed

theorem reflection_loop_detected_witness:
  "has_loop (RouteReflector_new (RrConfig_new 7) 1)
     (reflect_along [RouteReflector_new (RrConfig_new 7) 1, RouteReflector_new (RrConfig_new 8) 2] 9
        PathAttributes_default)"
  using reflection_loop_detected [of "RouteReflector_new (RrConfig_new 7) 1"
      "[RouteReflector_new (RrConfig_new 7) 1, RouteReflector_new (RrConfig_new 8) 2]" 9
      PathAttributes_default "RouteReflector_new (RrConfig_new 7) 1"]
  by simp

end
