(* ===== verification/Attr_Typed.thy ===== *)
theory Attr_Typed
  imports Attr_Wire
begin

text \<open>
  What the attribute parser of \<^verbatim>\<open>src/attr.rs\<close> can return.  The Rust types admit attribute sets that have no
  wire form: segments of more than 255 AS numbers, lists longer than a length field.  No such set comes out
  of the parser, so that what the daemon has received it can also send, with one exception: an unknown
  attribute whose sender used the extended length for a short value.
\<close>

definition raw_typed :: "RawAttribute \<Rightarrow> bool" where
  "raw_typed r \<longleftrightarrow> (type_code r = 0 \<or> 10 < unat (type_code r)) \<and> length (raw_value r) < 65536 \<and>
     (255 < length (raw_value r) \<longrightarrow> raw_flags r AND FLAG_EXTENDED_LEN \<noteq> 0)"

text \<open>The lists of \<open>a\<close> are typed and take at most \<open>n\<close> octets.\<close>

definition typed :: "PathAttributes \<Rightarrow> nat \<Rightarrow> bool" where
  "typed a n \<longleftrightarrow>
     (\<forall>seg \<in> set (as_path a). length (as_numbers seg) < 256) \<and>
     length (concat (map segment_bytes (as_path a))) + 4 * (length (communities a) + length (cluster_list a)) \<le> n \<and>
     (\<forall>r \<in> set (unknown a). raw_typed r)"

lemma typed_default [simp]: "typed PathAttributes_default n"
  by (simp add: typed_def PathAttributes_default_def)

lemma typed_mono: "typed a n \<Longrightarrow> n \<le> m \<Longrightarrow> typed a m"
  by (auto simp: typed_def)

lemma typed_scalar [simp]:
  "typed (a\<lparr>origin := v1\<rparr>) n = typed a n" "typed (a\<lparr>next_hop := v2\<rparr>) n = typed a n"
  "typed (a\<lparr>multi_exit_disc := v3\<rparr>) n = typed a n" "typed (a\<lparr>local_pref := v4\<rparr>) n = typed a n"
  "typed (a\<lparr>atomic_aggregate := v5\<rparr>) n = typed a n" "typed (a\<lparr>aggregator := v6\<rparr>) n = typed a n"
  "typed (a\<lparr>originator_id := v7\<rparr>) n = typed a n"
  by (simp_all add: typed_def)

lemma length_segment_bytes: "length (segment_bytes seg) = 2 + 4 * length (as_numbers seg)"
  by (cases seg) (simp_all add: segment_bytes_def length_concat_to_be)

lemma unassigned_type:
  assumes "tc \<notin> {1, 2, 3, 4, 5, 6, 7, 8, 9, 10}"
  shows "tc = 0 \<or> 10 < unat (tc :: u8)"
proof (rule ccontr)
  assume not: "\<not> (tc = 0 \<or> 10 < unat tc)"
  then have "unat tc \<in> set [0..<11]" by (simp del: upt_rec_numeral)
  moreover have "set [0..<11 :: nat] = {0, 1, 2, 3, 4, 5, 6, 7, 8, 9, 10}" by (simp add: upt_rec) auto
  moreover have "unat tc \<notin> {0, 1, 2, 3, 4, 5, 6, 7, 8, 9, 10}"
    using assms not by (simp add: word_unat_eq_iff)
  ultimately show False by blast
qed

text \<open>The exception is the only obstacle to a wire form.\<close>

lemma typed_attrs_ok:
  assumes "typed a n" and "n < 65536"
  shows "attrs_ok a \<longleftrightarrow>
    (\<forall>r \<in> set (unknown a). raw_flags r AND FLAG_EXTENDED_LEN \<noteq> 0 \<longrightarrow> 255 < length (raw_value r))"
  using assms by (auto simp: typed_def attrs_ok_def raw_typed_def raw_ok_def)

context bytes_crate
begin

lemma get_u32s_length:
  assumes "(get_u32s B n acc buf :: (AttrError, _) outcome) = Ok (xs, r)" and "n * 4 \<le> length buf"
  shows "length xs = length acc + n"
  using assms
proof (induction n arbitrary: acc buf)
  case (Suc n)
  from Suc.prems
  have "(get_u32s B n (acc @ [from_be (take 4 buf)]) (drop 4 buf) :: (AttrError, _) outcome) = Ok (xs, r)"
    by (simp add: get_u32_enough)
  from Suc.IH [OF this] Suc.prems(2) show ?case by simp
qed simp

lemma parse_segments_typed:
  assumes "parse_segments B fuel path buf = Ok path'"
  shows "\<exists>segs. path' = path @ segs \<and> (\<forall>seg \<in> set segs. length (as_numbers seg) < 256) \<and>
           length (concat (map segment_bytes segs)) \<le> length buf"
  using assms
proof (induction fuel arbitrary: path buf)
  case (Suc fuel)
  show ?case
  proof (cases "length buf < 2")
    case True
    then show ?thesis using Suc.prems by (simp add: parse_segments.simps(2))
  next
    case False
    then obtain t n r where buf: "buf = t # n # r" by (cases buf; cases "tl buf") auto
    have enough: "unat n * 4 \<le> length r"
      using Suc.prems by (simp add: buf parse_segments.simps(2) Let_def not_less split: if_splits)
    then obtain xs where
      xs: "(get_u32s B (unat n) [] r :: (AttrError, _) outcome) = Ok (xs, drop (unat n * 4) r)"
      using get_u32s_enough [of "unat n" r "[]"] by auto
    from get_u32s_length [OF xs enough] have len: "length xs = unat n" by simp
    have "\<exists>seg. as_numbers seg = xs \<and>
        parse_segments B fuel (path @ [seg]) (drop (unat n * 4) r) = Ok path'"
      using Suc.prems enough
      by (auto simp: buf xs parse_segments.simps(2) Let_def and_then_eq_Ok_iff not_less split: if_splits
          intro: exI [of _ "AsSet xs"] exI [of _ "AsSequence xs"])
    then obtain seg where seg: "as_numbers seg = xs"
      and go: "parse_segments B fuel (path @ [seg]) (drop (unat n * 4) r) = Ok path'" by blast
    from Suc.IH [OF go] obtain segs where "path' = path @ seg # segs"
      "\<forall>seg \<in> set segs. length (as_numbers seg) < 256"
      "length (concat (map segment_bytes segs)) \<le> length (drop (unat n * 4) r)" by auto
    then show ?thesis
      using seg len enough unat_u8_less [of n]
      by (intro exI [of _ "seg # segs"]) (auto simp: buf length_segment_bytes)
  qed
qed simp

lemma parse_u32_list_length:
  assumes "parse_u32_list B fuel xs buf = Ok ys"
  shows "4 * length ys \<le> 4 * length xs + length buf"
  using assms
proof (induction fuel arbitrary: xs buf)
  case (Suc fuel)
  then show ?case
    by (cases "length buf < 4")
       (auto simp: parse_u32_list.simps(2) get_u32_enough not_less dest!: Suc.IH)
qed simp

lemma parse_attr_value_typed:
  assumes ok: "parse_attr_value B flags tc v a = Ok a'" and ty: "typed a n" and "length v < 65536"
    and "255 < length v \<longrightarrow> flags AND FLAG_EXTENDED_LEN \<noteq> 0"
  shows "typed a' (n + length v)"
proof -
  have keep: "typed a (n + length v)" using ty by (rule typed_mono) simp
  consider "tc \<in> {1, 3, 4, 5, 6, 7, 9}" | "tc = 2" | "tc = 8" | "tc = 10"
    | "tc = 0 \<or> 10 < unat tc" "tc \<notin> {1, 2, 3, 4, 5, 6, 7, 8, 9, 10}"
    using unassigned_type [of tc] by blast
  then show ?thesis
  proof cases
    case 1
    then show ?thesis
      using ok keep
      by (auto simp: parse_attr_value_def and_then_eq_Ok_iff split: if_splits list.splits)
  next
    case 2
    then obtain path where path: "parse_segments B (Suc (length v)) (as_path a) v = Ok path"
      and a': "a' = a\<lparr>as_path := path\<rparr>"
      using ok by (auto simp: parse_attr_value_def and_then_eq_Ok_iff)
    from parse_segments_typed [OF path] show ?thesis using ty by (auto simp: a' typed_def)
  next
    case 3
    then show ?thesis
      using ok ty
      by (auto simp: parse_attr_value_def and_then_eq_Ok_iff typed_def dest!: parse_u32_list_length)
  next
    case 4
    then show ?thesis
      using ok ty
      by (auto simp: parse_attr_value_def and_then_eq_Ok_iff typed_def dest!: parse_u32_list_length)
  next
    case 5
    then have "a' = a\<lparr>unknown := unknown a @ [\<lparr>raw_flags = flags, type_code = tc, raw_value = v\<rparr>]\<rparr>"
      using ok by (simp add: parse_attr_value_def)
    then show ?thesis using keep 5(1) assms(3,4) by (auto simp: typed_def raw_typed_def)
  qed
qed

lemma parse_attr_len_typed:
  assumes "parse_attr_len B flags buf = Ok (len, r)"
  shows "len < 65536 \<and> (255 < len \<longrightarrow> flags AND FLAG_EXTENDED_LEN \<noteq> 0) \<and> length r \<le> length buf"
proof (cases "flags AND FLAG_EXTENDED_LEN = 0")
  case True
  with assms obtain y where "buf = y # r" "len = unat y"
    by (auto simp: parse_attr_len_def and_then_eq_Ok_iff split: if_splits)
  then show ?thesis using unat_u8_less [of y] by simp
next
  case False
  with assms obtain x :: u16 where "r = drop 2 buf" "len = unat x"
    by (auto simp: parse_attr_len_def get_u16_enough not_less split: if_splits)
  then show ?thesis using unat_u16_less [of x] False by simp
qed

lemma parse_attrs_typed:
  assumes "parse_attrs B fuel a buf = Ok a'" and "typed a n"
  shows "typed a' (n + length buf)"
  using assms
proof (induction fuel arbitrary: a n buf)
  case (Suc fuel)
  show ?case
  proof (cases "length buf < 3")
    case True
    then show ?thesis
      using Suc.prems by (auto simp: parse_attrs.simps(2) intro: typed_mono)
  next
    case False
    then obtain flags tc r where buf: "buf = flags # tc # r"
      by (cases buf; cases "tl buf") auto
    from Suc.prems(1) False obtain len r1 a1 where
      len: "parse_attr_len B flags r = Ok (len, r1)" "len \<le> length r1"
      and v: "parse_attr_value B flags tc (take len r1) a = Ok a1"
      and go: "parse_attrs B fuel a1 (drop len r1) = Ok a'"
      by (auto simp: buf parse_attrs.simps(2) and_then_eq_Ok_iff copy_to_bytes_enough not_less split: if_splits)
    note ty = parse_attr_len_typed [OF len(1)]
    have "typed a1 (n + length (take len r1))"
      by (rule parse_attr_value_typed [OF v Suc.prems(2)]) (use ty len(2) in simp_all)
    from Suc.IH [OF go this] show ?thesis
      by (rule typed_mono) (use ty len(2) in \<open>simp add: buf\<close>)
  qed
qed simp

end

section \<open>Properties\<close>

text \<open>C21: what has been received can be sent.  Whatever attributes the parser returns for a buffer of less
  than 65536 octets, their AS_PATH segments have at most 255 AS numbers, their lists fit their length fields,
  and their unknown attributes are of unassigned types, so that they have a wire form unless a short unknown
  attribute carries the extended-length flag; and with a wire form they are serialized and parsed back
  unchanged.\<close>

theorem parsed_attrs_typed:
  assumes "bytes_crate B" and "PathAttributes_parse B buf = Ok a" and "length buf < 65536"
  shows "typed a (length buf) \<and>
         (attrs_ok a \<longleftrightarrow> (\<forall>r \<in> set (unknown a).
            raw_flags r AND FLAG_EXTENDED_LEN \<noteq> 0 \<longrightarrow> 255 < length (raw_value r))) \<and>
         (attrs_ok a \<longrightarrow> PathAttributes_parse B (PathAttributes_serialize B a) = Ok a)"
proof -
  have ty: "typed a (length buf)"
    using bytes_crate.parse_attrs_typed [OF assms(1), of _ PathAttributes_default buf a 0] assms(2)
    by (simp add: PathAttributes_parse_def)
  show ?thesis
    using ty typed_attrs_ok [OF ty assms(3)] bytes_crate.PathAttributes_roundtrip [OF assms(1)] by blast
qed

theorem parsed_attrs_typed_witness:
  "\<exists>a. PathAttributes_parse documented_bytes [0x40, 2, 6, 2, 1, 0, 0, 0xFD, 0xE9] = Ok a \<and> typed a 9 \<and>
     PathAttributes_parse documented_bytes (PathAttributes_serialize documented_bytes a) = Ok a"
proof -
  let ?a = "PathAttributes_default\<lparr>as_path := [AsSequence [65001]]\<rparr>"
  have "attrs_ok ?a"
    by (simp add: attrs_ok_def PathAttributes_default_def segment_bytes_def)
  then have "PathAttributes_parse documented_bytes (PathAttributes_serialize documented_bytes ?a) = Ok ?a"
    by (rule doc.PathAttributes_roundtrip)
  moreover have "PathAttributes_serialize documented_bytes ?a = [0x40, 2, 6, 2, 1, 0, 0, 0xFD, 0xE9]"
    by (simp add: PathAttributes_serialize_def PathAttributes_default_def doc.write_attr_eq attr_bytes_def
        doc.write_segment_eq segment_bytes_def FLAG_TRANSITIVE_def to_be_def)
  ultimately have "PathAttributes_parse documented_bytes [0x40, 2, 6, 2, 1, 0, 0, 0xFD, 0xE9] = Ok ?a" by simp
  moreover have "length [0x40, 2, 6, 2, 1, 0, 0, 0xFD, 0xE9 :: u8] = 9" "(9 :: nat) < 65536" by simp_all
  ultimately show ?thesis
    using parsed_attrs_typed [OF documented_bytes_ok, of "[0x40, 2, 6, 2, 1, 0, 0, 0xFD, 0xE9]" ?a] \<open>attrs_ok ?a\<close>
    by (simp only:) blast
qed

end
