(* ===== verification/Handshake.thy ===== *)
theory Handshake
  imports Peer_Props
begin

text \<open>
  The establishment of a session between two instances of the program: each sends its OPEN message as soon as
  the connection is there, answers the OPEN message of the other side with a KEEPALIVE message, and enters
  Established on the KEEPALIVE message of the other side.
\<close>

section \<open>One side\<close>

lemma timers_hold_time [simp]:
  "hold_time (fst (reset_hold_timer t c)) = hold_time t"
  "hold_time (fst (reset_keepalive_timer t c)) = hold_time t" "hold_time (BgpTimers_new h) = h"
  by (simp_all add: reset_hold_timer_def reset_keepalive_timer_def BgpTimers_new_def Let_def case_prod_beta)

text \<open>The bytes \<open>bs\<close> arrive at the session \<open>p\<close>, whose buffer is empty.\<close>

definition receive :: "bytes_ops \<Rightarrow> 'f f64_ops \<Rightarrow> hash_order \<Rightarrow> u8 list \<Rightarrow> 'f Peer \<Rightarrow> 'f Peer" where
  "receive B F H bs p = fst (drain B F H (Suc (length bs)) p bs)"

text \<open>The session that a new connection starts.\<close>

definition opened :: "bytes_ops \<Rightarrow> SocketAddr \<Rightarrow> LocalConfig \<Rightarrow> 'f Rib \<Rightarrow> Metrics \<Rightarrow> clock \<Rightarrow> 'f Peer" where
  "opened B a lc rib m c = snd (session_start B (incoming_peer a lc rib m False c (\<lambda>_. True)))"

lemma opened_fields [simp]:
  "state (opened B a lc rib m c) = OpenSent" "local_cfg (opened B a lc rib m c) = lc"
  "sent (opened B a lc rib m c) = OpenMessage_serialize B (session_open lc)"
  "writes (opened B a lc rib m c) = (\<lambda>_. True)" "the_rib (opened B a lc rib m c) = rib"
  by (simp_all add: opened_def session_start_def incoming_peer_def Peer_new_def write_all_def env_defs next_state_def
      Let_def)

lemma local_caps_ok:
  "local_caps lc \<noteq> []" "\<forall>cap \<in> set (local_caps lc). cap_ok cap"
  "length (concat (map Capability_to_bytes (local_caps lc))) \<le> 253"
  by (simp_all add: local_caps_def Capability_to_bytes_def)

lemma session_open_fields [simp]:
  "my_as (session_open lc) = ucast (min (local_as lc) 65535)" "open_hold_time (session_open lc) = local_hold_time lc"
  "bgp_id (session_open lc) = router_id lc" "version (session_open lc) = 4"
  by (simp_all add: session_open_def OpenMessage_new_with_capabilities_def OpenMessage_new_def Let_def)

lemma ucast_min_u16: "ucast (ucast (min (n :: u32) 65535) :: u16) = min n 65535"
proof -
  have "unat (min n 65535) < 2 ^ 16" by (simp add: min_def word_le_nat_alt)
  then show ?thesis by (simp add: word_unat_eq_iff unsigned_ucast_eq unsigned_take_bit_eq take_bit_nat_eq_self)
qed

lemma open_session_framed:
  assumes "bytes_crate B"
  shows "\<exists>f. BgpMessage_parse B (OpenMessage_serialize B (session_open lc) @ rest) = Ok (Some f, rest) \<and>
     msg_type (msg_header f) = Open \<and> OpenMessage_parse B (msg_body f) = Ok (session_open lc) \<and>
     parse_from_open_params (optional_params (session_open lc)) = local_caps lc"
  using open_caps_framed [OF assms local_caps_ok, of "ucast (min (local_as lc) 65535)" "local_hold_time lc"
      "router_id lc" lc rest]
  unfolding session_open_def Let_def .

text \<open>What the OPEN message of an instance with the settings \<open>lc\<close> does to a session that waits for it.\<close>

definition greeted :: "bytes_ops \<Rightarrow> LocalConfig \<Rightarrow> 'f Peer \<Rightarrow> 'f Peer \<Rightarrow> bool" where
  "greeted B lc p q \<longleftrightarrow> state q = OpenConfirm \<and> sent q = sent p @ KeepaliveMessage_serialize B \<and>
     remote_as q = min (local_as lc) 65535 \<and> peer_router_id q = Some (router_id lc) \<and>
     peer_capabilities q = local_caps lc \<and> the_rib q = the_rib p \<and>
     negotiated_hold_time q = min (local_hold_time (local_cfg p)) (local_hold_time lc) \<and>
     hold_time (timers q) = negotiated_hold_time q"

lemma drain_open:
  assumes "bytes_crate B" and "state p = OpenSent" and "writes p 0"
  shows "\<exists>q. greeted B lc p q \<and>
    drain B F H (Suc n) p (OpenMessage_serialize B (session_open lc) @ rest) = drain B F H n q rest"
proof -
  let ?msg = "session_open lc"
  obtain f where f: "BgpMessage_parse B (OpenMessage_serialize B ?msg @ rest) = Ok (Some f, rest)"
    "msg_type (msg_header f) = Open" "OpenMessage_parse B (msg_body f) = Ok ?msg"
    "parse_from_open_params (optional_params ?msg) = local_caps lc"
    using open_session_framed [OF assms(1)] by blast
  obtain q where q: "handle_open B (msg_body f) p = (q, Ok ())" and "greeted B lc p q"
    using assms(2,3) f(3,4)
    by (simp add: handle_open_def on_parse_def write_all_def greeted_def env_defs next_state_def ucast_min_u16
        Let_def case_prod_beta)
  moreover have "handle_message B F H f p = (q, Ok ())" using f(2) q by (simp add: handle_message_def)
  ultimately show ?thesis using drain_message [OF f(1)] by fastforce
qed

lemma length_open_positive: "bytes_crate B \<Longrightarrow> 0 < length (OpenMessage_serialize B m)"
  by (simp add: bytes_crate.OpenMessage_serialize_eq HEADER_LEN_def)

lemma receive_open:
  assumes "bytes_crate B" and "state p = OpenSent" and "writes p 0"
  shows "greeted B lc p (receive B F H (OpenMessage_serialize B (session_open lc)) p)"
proof -
  let ?bs = "OpenMessage_serialize B (session_open lc)"
  obtain n where "length ?bs = Suc n"
    using length_open_positive [OF assms(1), of "session_open lc"] by (cases "length ?bs") auto
  then show ?thesis using drain_open [OF assms, of lc F H "length ?bs" "[]"] by (auto simp: receive_def)
qed

text \<open>The keepalive that follows completes the handshake.\<close>

lemma receive_open_keepalive:
  assumes "bytes_crate B" and "state p = OpenSent" and "writes p 0"
  shows "\<exists>g. greeted B lc p g \<and>
    receive B F H (OpenMessage_serialize B (session_open lc) @ KeepaliveMessage_serialize B) p =
      fst (handle_keepalive g)"
proof -
  let ?bs = "OpenMessage_serialize B (session_open lc)" and ?ka = "KeepaliveMessage_serialize B"
  have "0 < length ?ka"
    by (simp add: KeepaliveMessage_serialize_def bytes_crate.Header_serialize_eq [OF assms(1)] HEADER_LEN_def)
  then obtain n where n: "length (?bs @ ?ka) = Suc (Suc n)"
    using length_open_positive [OF assms(1), of "session_open lc"]
    by (metis Suc_pred add_Suc_right add_Suc length_append)
  obtain g where "greeted B lc p g"
    and "drain B F H (Suc (Suc (Suc n))) p (?bs @ ?ka) = drain B F H (Suc (Suc n)) g (?ka @ [])"
    using drain_open [OF assms] by fastforce
  then show ?thesis
    unfolding drain_keepalive [OF assms(1)] by (auto simp: receive_def n simp del: length_append)
qed

lemma keepalive_establishes:
  assumes "state p = OpenConfirm"
  shows "state (fst (handle_keepalive p)) = Established"
    "negotiated_hold_time (fst (handle_keepalive p)) = negotiated_hold_time p"
    "hold_time (timers (fst (handle_keepalive p))) = hold_time (timers p)"
    "remote_as (fst (handle_keepalive p)) = remote_as p"
    "peer_router_id (fst (handle_keepalive p)) = peer_router_id p"
    "peer_capabilities (fst (handle_keepalive p)) = peer_capabilities p"
    "the_rib (fst (handle_keepalive p)) = the_rib p"
  using assms
  by (simp_all add: handle_keepalive_def env_defs next_state_def Let_def case_prod_beta)

section \<open>Properties\<close>

text \<open>C5: two instances of the program establish a session.  Each has accepted a connection and has sent its
  OPEN message; each receives what the other sends, over sockets that work.  After the two OPEN messages and
  the keepalives that answer them both sides are in Established with the same hold time, the smaller of the
  two configured ones, each has learnt the router identifier and the capabilities of the other side and its
  AS number as far as two octets carry it, and neither has touched its RIB.\<close>

theorem two_instances_establish:
  assumes "bytes_crate B"
    and "p = opened B a la rib m c" and "q = opened B a' lb rib' m' c'"
    and "p1 = receive B F H (sent q) p" and "q1 = receive B F H' (sent p) q"
    and "p2 = receive B F H (sent q1) p" and "q2 = receive B F H' (sent p1) q"
  shows "state p2 = Established \<and> state q2 = Established \<and>
    negotiated_hold_time p2 = min (local_hold_time la) (local_hold_time lb) \<and>
    negotiated_hold_time q2 = negotiated_hold_time p2 \<and> hold_time (timers q2) = hold_time (timers p2) \<and>
    remote_as p2 = min (local_as lb) 65535 \<and> remote_as q2 = min (local_as la) 65535 \<and>
    peer_router_id p2 = Some (router_id lb) \<and> peer_router_id q2 = Some (router_id la) \<and>
    peer_capabilities p2 = local_caps lb \<and> peer_capabilities q2 = local_caps la \<and>
    the_rib p2 = rib \<and> the_rib q2 = rib'"
proof -
  have "greeted B lb p p1" "greeted B la q q1"
    using receive_open [OF assms(1), of p lb F H] receive_open [OF assms(1), of q la F H']
    by (simp_all add: assms(2-5))
  then have sent: "sent p1 = OpenMessage_serialize B (session_open la) @ KeepaliveMessage_serialize B"
      "sent q1 = OpenMessage_serialize B (session_open lb) @ KeepaliveMessage_serialize B"
    by (simp_all add: greeted_def assms(2,3))
  obtain g where g: "greeted B lb p g" "p2 = fst (handle_keepalive g)"
    using receive_open_keepalive [OF assms(1), of p lb F H] by (auto simp: assms(2,6) sent(2))
  obtain h where h: "greeted B la q h" "q2 = fst (handle_keepalive h)"
    using receive_open_keepalive [OF assms(1), of q la F H'] by (auto simp: assms(3,7) sent(1))
  have "state g = OpenConfirm" "state h = OpenConfirm" using g(1) h(1) by (simp_all add: greeted_def)
  from keepalive_establishes [OF this(1)] keepalive_establishes [OF this(2)] show ?thesis
    using g h by (simp add: greeted_def assms(2,3) min.commute)
qed

theorem two_instances_establish_witness:
  "let receive = receive documented_bytes real_f64 insertion_order;
       opened = (\<lambda>lc. opened documented_bytes a_peer lc (Rib_new real_f64) Metrics_new (\<lambda>i. i));
       p = opened \<lparr>local_as = 65001, router_id = 1, local_hold_time = 90\<rparr>;
       q = opened \<lparr>local_as = 400000, router_id = 2, local_hold_time = 30\<rparr>;
       p2 = receive (sent (receive (sent p) q)) p
   in state p2 = Established \<and> negotiated_hold_time p2 = 30 \<and> remote_as p2 = 65535"
  using two_instances_establish [where F = real_f64 and H = insertion_order and H' = insertion_order
      and a = a_peer and a' = a_peer and la = "\<lparr>local_as = 65001, router_id = 1, local_hold_time = 90\<rparr>"
      and lb = "\<lparr>local_as = 400000, router_id = 2, local_hold_time = 30\<rparr>" and rib = "Rib_new real_f64"
      and m = Metrics_new and c = "\<lambda>i. i" and rib' = "Rib_new real_f64" and m' = Metrics_new and c' = "\<lambda>i. i",
      OF documented_bytes_ok refl refl refl refl refl refl]
  by (simp add: Let_def min_def)

end
