(* ===== verification/Peer_Live.thy ===== *)
theory Peer_Live
  imports Handshake
begin

text \<open>
  Progress of a session: a peer that falls silent is given up.  The event loop wakes up every 100 ms when
  nothing arrives; on a clock that goes on, one of these iterations finds the hold timer expired.
\<close>

section \<open>Idle iterations\<close>










text \<open>The last iteration.\<close>

lemma env_keeps_sent [simp]:
  "sent (peer_inc f p) = sent p" "sent (peer_set f n p) = sent p" "sent (transition e p) = sent p"
  "sent (timed p) = sent p" "sent (handle_disconnect H p) = sent p"
  by (simp_all add: env_defs timed_def handle_disconnect_def with_rib_def)



section \<open>Properties\<close>



text \<open>The hold timer starts with the OPEN message of the peer; before, nothing ends an idle session.\<close>

lemma idle_before_open:
  assumes "hold_timer_start (timers p) = None" and "state p \<noteq> Established"
  shows "session_iter B F H SleepElapsed p buf = (p, buf, Next)"
  using assms
  by (simp add: session_iter_def session_poll_def hold_timer_expired_def send_keepalive_def)

lemma opened_timers [simp]: "hold_timer_start (timers (opened B a lc rib m c)) = None"
  by (simp add: opened_def session_start_def incoming_peer_def Peer_new_def BgpTimers_new_def env_defs)

text \<open>C39: a peer that connects and sends no message keeps its session forever: the hold timer is started by the
  peer's OPEN message only, so that no number of idle iterations, on whatever clock, ends the session or
  changes anything.\<close>

theorem mute_peer_kept:
  "session_loop B F (replicate n (H, SleepElapsed)) (opened B a lc rib m c) buf = (opened B a lc rib m c, buf, Next)"
  by (induction n) (simp_all add: idle_before_open)

end
