(* ===== verification/Keepalive.thy ===== *)
theory Keepalive
  imports Peer_Live
begin

text \<open>
  The rate of keepalives.  In an Established session that receives nothing but keepalives, the event loop writes a
  KEEPALIVE message whenever the keepalive interval has passed since the last one, and not before; how late it
  can be depends on how far apart the readings of the clock are.
\<close>

section \<open>Quiet iterations\<close>

text \<open>A clock that does not go back and whose readings are at most \<open>g\<close> apart.\<close>

definition paced :: "nat \<Rightarrow> clock \<Rightarrow> bool" where
  "paced g c \<longleftrightarrow> (\<forall>i. c i \<le> c (Suc i) \<and> c (Suc i) \<le> c i + g)"

lemma paced_suffix: "paced g c \<Longrightarrow> paced g (\<lambda>i. c (i + j))"
  by (simp add: paced_def)

lemma paced_later: "paced g c \<Longrightarrow> c i \<le> c (i + j) \<and> c (i + j) \<le> c i + j * g"
proof (induction j)
  case (Suc j)
  then have "c (i + j) \<le> c (Suc (i + j)) \<and> c (Suc (i + j)) \<le> c (i + j) + g" by (simp add: paced_def)
  with Suc show ?case by (simp add: algebra_simps)
qed simp

text \<open>Nothing arrives within the 100 ms of the \<^verbatim>\<open>select!\<close>, or a keepalive of the peer does.\<close>

definition quiet :: "bytes_ops \<Rightarrow> read_event \<Rightarrow> bool" where
  "quiet B ev \<longleftrightarrow> ev = SleepElapsed \<or> ev = ReadOk (KeepaliveMessage_serialize B)"

text \<open>
  An Established session whose keepalive timer was started at time \<open>s\<close> and whose hold timer is enabled, with writes
  that succeed; \<open>k\<close> is its keepalive interval.
\<close>

definition beating :: "nat \<Rightarrow> u16 \<Rightarrow> u16 \<Rightarrow> Instant \<Rightarrow> 'f Peer \<Rightarrow> bool" where
  "beating g h k s p \<longleftrightarrow> state p = Established \<and> hold_time (timers p) = h \<and> keepalive_interval (timers p) = k \<and>
     keepalive_timer_start (timers p) = Some s \<and> paced g (clk p) \<and> (\<forall>i. writes p i)"

lemma timed_beating:
  assumes "beating g h k s p"
  shows "\<exists>j\<le>1. beating g h k s (timed p) \<and> clk (timed p) = (\<lambda>i. clk p (i + j)) \<and> sent (timed p) = sent p"
proof -
  obtain j where "j \<le> 1" "clk (timed p) = (\<lambda>i. clk p (i + j))"
    by (cases "hold_time (timers p) = 0"; cases "hold_timer_start (timers p)")
       (auto simp: timed_def hold_timer_expired_def elapsed_def now_def intro: that [of 0] that [of 1])
  moreover from this have "beating g h k s (timed p)"
    using assms paced_suffix by (auto simp: beating_def timed_def)
  ultimately show ?thesis by (auto simp: timed_def)
qed

text \<open>The check of the keepalive timer: it reads the clock once, and a second time when it writes.\<close>

lemma send_keepalive_beating:
  assumes "beating g h k s p" and "k \<noteq> 0"
  shows "if from_secs (unat k) \<le> clk p 0 - s
    then beating g h k (clk p 1) (snd (send_keepalive B p)) \<and> fst (send_keepalive B p) \<and>
         clk (snd (send_keepalive B p)) = (\<lambda>i. clk p (i + 2)) \<and>
         sent (snd (send_keepalive B p)) = sent p @ KeepaliveMessage_serialize B
    else beating g h k s (snd (send_keepalive B p)) \<and> fst (send_keepalive B p) \<and>
         clk (snd (send_keepalive B p)) = (\<lambda>i. clk p (i + 1)) \<and> sent (snd (send_keepalive B p)) = sent p"
  using assms paced_suffix [of g "clk p" 1] paced_suffix [of g "clk p" 2]
  by (auto simp: beating_def send_keepalive_def keepalive_due_def elapsed_def now_def env_defs
      reset_keepalive_timer_def write_all_def word_gt_0 numeral_2_eq_2 Let_def)

lemma handle_keepalive_beating:
  assumes "beating g h k s p" and "h \<noteq> 0"
  shows "beating g h k s (fst (handle_keepalive p)) \<and> clk (fst (handle_keepalive p)) = (\<lambda>i. clk p (i + 1)) \<and>
    sent (fst (handle_keepalive p)) = sent p"
  using assms paced_suffix [of g "clk p" 1]
  by (auto simp: beating_def handle_keepalive_def env_defs reset_hold_timer_def now_def word_gt_0 Let_def)

lemma quiet_iteration:
  assumes "bytes_crate B" and "quiet B ev" and "fst (send_keepalive B (timed p))"
    and "\<not> fst (hold_timer_expired (timers p) (clk p))"
  shows "session_iter B F H ev p [] =
    (if ev = SleepElapsed then snd (send_keepalive B (timed p))
     else fst (handle_keepalive (snd (send_keepalive B (timed p)))), [], Next)"
proof (cases "ev = SleepElapsed")
  case True
  then show ?thesis
    using assms(3,4) by (simp add: session_iter_def session_poll_def timed_def [symmetric] Let_def case_prod_beta)
next
  case False
  then have ev: "ev = ReadOk (KeepaliveMessage_serialize B)" using assms(2) by (simp add: quiet_def)
  have len: "length (KeepaliveMessage_serialize B) = Suc 18"
    by (simp add: KeepaliveMessage_serialize_def bytes_crate.Header_serialize_eq [OF assms(1)] HEADER_LEN_def)
  then have "KeepaliveMessage_serialize B \<noteq> []" by auto
  moreover have "drain B F H (Suc (length (KeepaliveMessage_serialize B))) q (KeepaliveMessage_serialize B) =
      (fst (handle_keepalive q), [], Ok ())" for q
    using drain_keepalive [OF assms(1), of F H "Suc 18" q "[]"] unfolding len by (simp only: append_Nil2 drain_Nil)
  ultimately show ?thesis
    using assms(3,4) False ev
    by (simp add: session_iter_def session_poll_def timed_def [symmetric] Let_def case_prod_beta)
qed

lemma quiet_step:
  assumes "bytes_crate B" and "quiet B ev" and "beating g h k s p" and "h \<noteq> 0" and "k \<noteq> 0"
    and "\<not> fst (hold_timer_expired (timers p) (clk p))" and "clk p 0 \<le> s + from_secs (unat k) + 2 * g"
  obtains q s' n where "session_iter B F H ev p [] = (q, [], Next)" and "beating g h k s' q"
    and "clk q 0 \<le> s' + from_secs (unat k) + 2 * g"
    and "sent q = sent p @ concat (replicate n (KeepaliveMessage_serialize B))"
    and "s + n * from_secs (unat k) \<le> s'" and "s' \<le> s + n * (from_secs (unat k) + 4 * g)"
proof -
  let ?t = "timed p" and ?k = "snd (send_keepalive B (timed p))" and ?K = "from_secs (unat k)"
  let ?q = "if ev = SleepElapsed then ?k else fst (handle_keepalive ?k)"
  from timed_beating [OF assms(3)] obtain j where t: "j \<le> 1" "beating g h k s ?t" "clk ?t = (\<lambda>i. clk p (i + j))"
    "sent ?t = sent p" by blast
  note beat = send_keepalive_beating [OF t(2) assms(5), of B]
  have "fst (send_keepalive B ?t)" using beat by (simp split: if_splits)
  note it = quiet_iteration [OF assms(1,2) this assms(6), of F H]
  have pt: "paced g (clk ?t)" and pp: "paced g (clk p)" using t(2) assms(3) by (simp_all add: beating_def)
  have "0 < unat k" using assms(5) by (simp add: unat_gt_0)
  then have K: "0 < ?K" by (simp add: from_secs_def)
  have "j * g \<le> g" using t(1) by (cases j) auto
  then have t0: "clk ?t 0 \<le> clk p 0 + g" using paced_later [OF pp, of 0 j] unfolding t(3) by linarith
  have q: "\<exists>i\<le>1. beating g h k s' ?q \<and> clk ?q = (\<lambda>m. clk ?k (m + i)) \<and> sent ?q = sent ?k" if "beating g h k s' ?k" for s'
    using that handle_keepalive_beating [OF that assms(4)] by (cases "ev = SleepElapsed") auto
  show ?thesis
  proof (cases "?K \<le> clk ?t 0 - s")
    case True
    then have due: "beating g h k (clk ?t 1) ?k" "clk ?k = (\<lambda>i. clk ?t (i + 2))"
      "sent ?k = sent p @ KeepaliveMessage_serialize B" using beat t(4) by simp_all
    from q [OF due(1)] obtain i where i: "i \<le> 1" "beating g h k (clk ?t 1) ?q" "clk ?q 0 = clk ?t (i + 2)"
      "sent ?q = sent ?k" by (auto simp: due(2))
    have "1 + (i + 1) = i + (2 :: nat)" by simp
    then have "clk ?t (i + 2) \<le> clk ?t 1 + (i + 1) * g" using paced_later [OF pt, of 1 "i + 1"] by (simp only:)
    moreover have "(i + 1) * g \<le> 2 * g" using i(1) by (intro mult_right_mono) simp_all
    ultimately have "clk ?q 0 \<le> clk ?t 1 + 2 * g" unfolding i(3) by (rule order_trans [OF _ add_left_mono])
    moreover have "clk ?t 0 \<le> clk ?t 1" "clk ?t 1 \<le> clk ?t 0 + g" using paced_later [OF pt, of 0 1] by simp_all
    ultimately show ?thesis
      using True K t0 assms(7) due(3) i(4) by (intro that [OF it i(2), of 1]) simp_all
  next
    case False
    then have idle: "beating g h k s ?k" "clk ?k = (\<lambda>i. clk ?t (i + 1))" "sent ?k = sent p"
      using beat t(4) by simp_all
    from q [OF idle(1)] obtain i where i: "i \<le> 1" "beating g h k s ?q" "clk ?q 0 = clk ?t (i + 1)"
      "sent ?q = sent ?k" by (auto simp: idle(2))
    have "clk ?t (i + 1) \<le> clk ?t 0 + (i + 1) * g" using paced_later [OF pt, of 0 "i + 1"] by (simp only: add_0)
    moreover have "(i + 1) * g \<le> 2 * g" using i(1) by (intro mult_right_mono) simp_all
    ultimately have "clk ?q 0 \<le> clk ?t 0 + 2 * g" unfolding i(3) by (rule order_trans [OF _ add_left_mono])
    then have "clk ?q 0 \<le> s + ?K + 2 * g" using False by linarith
    then show ?thesis using idle(3) i(4) by (intro that [OF it i(2), of 0]) simp_all
  qed
qed

lemma quiet_run:
  assumes "bytes_crate B" and "h \<noteq> 0" and "k \<noteq> 0"
  shows "\<forall>(H, ev) \<in> set evs. quiet B ev \<Longrightarrow> beating g h k s p \<Longrightarrow> clk p 0 \<le> s + from_secs (unat k) + 2 * g \<Longrightarrow>
    session_loop B F evs p [] = (q, rest, Next) \<Longrightarrow>
    \<exists>n s'. sent q = sent p @ concat (replicate n (KeepaliveMessage_serialize B)) \<and> beating g h k s' q \<and>
      s + n * from_secs (unat k) \<le> s' \<and> s' \<le> s + n * (from_secs (unat k) + 4 * g) \<and>
      clk q 0 \<le> s' + from_secs (unat k) + 2 * g"
proof (induction evs arbitrary: p s)
  case Nil
  then show ?case by (intro exI [of _ 0] exI [of _ s]) simp
next
  case (Cons e evs)
  obtain H ev where e: "e = (H, ev)" by force
  have "\<not> fst (hold_timer_expired (timers p) (clk p))"
    using Cons.prems(4)
    by (auto simp: e session_iter_def session_poll_def Let_def case_prod_beta)
  then obtain p1 s1 n1 where s1: "session_iter B F H ev p [] = (p1, [], Next)" "beating g h k s1 p1"
      "clk p1 0 \<le> s1 + from_secs (unat k) + 2 * g"
      "sent p1 = sent p @ concat (replicate n1 (KeepaliveMessage_serialize B))"
      "s + n1 * from_secs (unat k) \<le> s1" "s1 \<le> s + n1 * (from_secs (unat k) + 4 * g)"
    using quiet_step [OF assms(1) _ Cons.prems(2) assms(2,3) _ Cons.prems(3), of ev F H] Cons.prems(1) e by auto
  have "session_loop B F evs p1 [] = (q, rest, Next)" using Cons.prems(4) s1(1) e by simp
  from Cons.IH [OF _ s1(2,3) this] Cons.prems(1) obtain n2 s2 where s2:
      "sent q = sent p1 @ concat (replicate n2 (KeepaliveMessage_serialize B))" "beating g h k s2 q"
      "s1 + n2 * from_secs (unat k) \<le> s2" "s2 \<le> s1 + n2 * (from_secs (unat k) + 4 * g)"
      "clk q 0 \<le> s2 + from_secs (unat k) + 2 * g" by auto
  have "sent q = sent p @ concat (replicate (n1 + n2) (KeepaliveMessage_serialize B))"
    by (simp add: s2(1) s1(4) replicate_add)
  moreover have "s + (n1 + n2) * from_secs (unat k) \<le> s2" "s2 \<le> s + (n1 + n2) * (from_secs (unat k) + 4 * g)"
    using s1(5,6) s2(3,4) by (simp_all add: add_mult_distrib)
  ultimately show ?case using s2(2,5) by blast
qed

section \<open>Properties\<close>

text \<open>C34: keepalives are sent at the right rate.  Take an Established session with a hold time of at least three
  seconds, a keepalive interval of a third of it, a keepalive timer started at time \<open>s\<close>, succeeding writes, and a
  clock whose readings are at most \<open>g\<close> nanoseconds apart.  As long as it goes on and receives nothing but
  keepalives, it writes nothing but KEEPALIVE messages; \<open>n\<close> of them take at least \<open>n\<close> intervals, and at most
  \<open>n\<close> times the interval plus four readings; and the last one is never further back than the interval plus two
  readings.  So when \<open>g\<close> is at most half of the interval, less than a hold time has passed since the last one,
  and the peer's hold timer does not expire.\<close>

theorem keepalive_rate:
  assumes "bytes_crate B" and "3 \<le> unat (hold_time (timers p))"
    and "keepalive_interval (timers p) = hold_time (timers p) div 3" and "state p = Established"
    and "keepalive_timer_start (timers p) = Some s" and "\<forall>i. writes p i" and "paced g (clk p)"
    and "clk p 0 \<le> s + from_secs (unat (keepalive_interval (timers p))) + 2 * g"
    and "\<forall>(H, ev) \<in> set evs. quiet B ev" and "session_loop B F evs p [] = (q, rest, Next)"
  shows "let k = from_secs (unat (keepalive_interval (timers p))) in
    \<exists>n s'. sent q = sent p @ concat (replicate n (KeepaliveMessage_serialize B)) \<and>
      state q = Established \<and> keepalive_timer_start (timers q) = Some s' \<and>
      s + n * k \<le> s' \<and> s' \<le> s + n * (k + 4 * g) \<and> clk q 0 \<le> s' + k + 2 * g \<and>
      (2 * g \<le> k \<longrightarrow> clk q 0 < s' + from_secs (unat (hold_time (timers p))))"
proof -
  let ?h = "hold_time (timers p)" and ?k = "keepalive_interval (timers p)"
  let ?K = "from_secs (unat ?k)"
  note thirds = keepalive_interval_thirds [OF assms(2)]
  have k: "0 < unat ?k" "3 * unat ?k \<le> unat ?h" using thirds assms(3) by simp_all
  then have nz: "?k \<noteq> 0" "?h \<noteq> 0" by auto
  have K: "0 < ?K" "3 * ?K \<le> from_secs (unat ?h)" using k by (simp_all add: from_secs_def)
  have "beating g ?h ?k s p" using assms(4-7) by (simp add: beating_def)
  from quiet_run [OF assms(1) nz(2,1) assms(9) this assms(8,10)] obtain n s' where r:
      "sent q = sent p @ concat (replicate n (KeepaliveMessage_serialize B))" "beating g ?h ?k s' q"
      "s + n * ?K \<le> s'" "s' \<le> s + n * (?K + 4 * g)" "clk q 0 \<le> s' + ?K + 2 * g" by blast
  have "clk q 0 < s' + from_secs (unat ?h)" if "2 * g \<le> ?K" using r(5) K that by linarith
  then show ?thesis using r unfolding Let_def beating_def by blast
qed

text \<open>An Established session, and two readings later.\<close>

definition beating_session :: "real Peer" where
  "beating_session = a_session\<lparr>state := Established, timers := (BgpTimers_new 90)
     \<lparr>hold_timer_start := Some 0, keepalive_timer_start := Some 0\<rparr>, clk := (\<lambda>i. 30000000000 + i)\<rparr>"

theorem keepalive_rate_witness:
  "\<exists>q. session_loop documented_bytes real_f64 [(insertion_order, SleepElapsed)] beating_session [] = (q, [], Next) \<and>
     sent q = KeepaliveMessage_serialize documented_bytes \<and>
     (\<exists>s'. keepalive_timer_start (timers q) = Some s' \<and> 30000000000 \<le> s')"
proof -
  let ?p = beating_session and ?q = "snd (send_keepalive documented_bytes (timed beating_session))"
  have t: "timers ?p = \<lparr>hold_time = 90, keepalive_interval = 30, hold_timer_start = Some 0, keepalive_timer_start = Some 0\<rparr>"
    by (simp add: beating_session_def BgpTimers_new_def)
  have rest: "state ?p = Established" "writes ?p = (\<lambda>_. True)" "clk ?p = (\<lambda>i. 30000000000 + i)" "sent ?p = []"
    by (simp_all add: beating_session_def a_session_def incoming_peer_def Peer_new_def env_defs Let_def)
  have paced: "paced 1 (clk ?p)" by (simp add: paced_def rest)
  have sent: "sent ?q = KeepaliveMessage_serialize documented_bytes"
    by (simp add: send_keepalive_def keepalive_due_def elapsed_def now_def env_defs write_all_def timed_def
        hold_timer_expired_def reset_keepalive_timer_def from_secs_def Let_def t rest)
  have loop: "session_loop documented_bytes real_f64 [(insertion_order, SleepElapsed)] ?p [] = (?q, [], Next)"
    by (simp add: session_iter_def session_poll_def send_keepalive_def keepalive_due_def elapsed_def now_def
        env_defs write_all_def timed_def hold_timer_expired_def reset_keepalive_timer_def from_secs_def Let_def t rest)
  have "\<exists>n s'. sent ?q = sent ?p @ concat (replicate n (KeepaliveMessage_serialize documented_bytes)) \<and>
      keepalive_timer_start (timers ?q) = Some s' \<and> n * from_secs 30 \<le> s'"
    using keepalive_rate [OF documented_bytes_ok _ _ rest(1) _ _ paced _ _ loop, of 0]
    by (auto simp: t rest from_secs_def quiet_def Let_def)
  then obtain n s' where n: "sent ?q = concat (replicate n (KeepaliveMessage_serialize documented_bytes))"
    and s': "keepalive_timer_start (timers ?q) = Some s'" "n * from_secs 30 \<le> s'"
    unfolding rest(4) append_Nil by blast
  have "n \<noteq> 0" using n unfolding sent by (cases n) (simp_all add: KeepaliveMessage_serialize_def header_bytes_def)
  then have "30000000000 \<le> s'" using s'(2) by (cases n) (simp_all add: from_secs_def)
  with loop sent s'(1) show ?thesis by blast
qed

end
