(* ===== verification/Route_Spec.thy ===== *)
theory Route_Spec
  imports Server
begin

text \<open>
  The abstract specification of the daemon and the proof that the daemon refines it.  The abstract state says
  which route each peer offers for each prefix, nothing else: no bytes, buffers, timers, sessions, hash maps
  or dampening.  It changes by updates of one peer and by the loss of a peer.  What the daemon selects from the
  offers is the relation \<open>chosen\<close>.
\<close>

section \<open>The specification\<close>

type_synonym offers = "SocketAddr \<Rightarrow> PrefixKey \<Rightarrow> Route option"

text \<open>
  An update of \<open>peer\<close> takes back the prefixes \<open>gone\<close> and brings the routes \<open>new\<close>, all with the same
  attributes, each for its own prefix, from this peer and fresh.
\<close>

inductive spec_step :: "offers \<Rightarrow> offers \<Rightarrow> bool" where
  updated: "(\<And>k r. new k = Some r \<Longrightarrow>
      PrefixKey_from (route_prefix r) = k \<and> attrs r = a \<and> peer_addr r = peer \<and> \<not> stale r) \<Longrightarrow>
    spec_step off (off(peer := \<lambda>k. if k \<in> gone then None else case new k of None \<Rightarrow> off peer k | Some r \<Rightarrow> Some r))"
| lost: "spec_step off (off(peer := \<lambda>_. None))"

text \<open>The selection for the prefix \<open>k\<close>; the stale mark of the entry is not compared.\<close>

definition chosen :: "offers \<Rightarrow> PrefixKey \<Rightarrow> Route option \<Rightarrow> bool" where
  "chosen off k entry = (case entry of
     None \<Rightarrow> \<forall>p. off p k = None
   | Some r \<Rightarrow> (\<exists>c. off (peer_addr r) k = Some c \<and> r\<lparr>stale := False\<rparr> = c\<lparr>stale := False\<rparr>) \<and>
       (\<forall>p c. off p k = Some c \<longrightarrow> \<not> preferred c r))"

section \<open>The simulation\<close>

lemma update_simulated:
  assumes "hash_orders H" and "process_update F H peer ras ps a ws rib c = (rib', c')"
  shows "spec_step (adj rib) (adj rib')"
proof -
  note upd = hash_orders.process_update_adj [OF assms]
  let ?gone = "PrefixKey_from ` set ws"
  define new where "new = (\<lambda>k. if k \<in> ?gone \<or> adj rib' peer k = adj rib peer k then None else adj rib' peer k)"
  have "adj rib' = (adj rib)(peer := \<lambda>k. if k \<in> ?gone then None else
      case new k of None \<Rightarrow> adj rib peer k | Some r \<Rightarrow> Some r)"
  proof (intro ext)
    fix p k
    show "adj rib' p k = ((adj rib)(peer := \<lambda>k. if k \<in> ?gone then None else
        case new k of None \<Rightarrow> adj rib peer k | Some r \<Rightarrow> Some r)) p k"
      using upd(1) [of p k] upd(2,3) [of k] by (auto simp: new_def split: option.splits)
  qed
  moreover have "PrefixKey_from (route_prefix r) = k \<and> attrs r = a \<and> peer_addr r = peer \<and> \<not> stale r"
    if "new k = Some r" for k r
    using that upd(3) [of k] by (auto simp: new_def fresh_route_def split: if_splits)
  ultimately show ?thesis using spec_step.updated [of new a peer "adj rib" ?gone] by simp
qed

lemma live_step_simulated:
  assumes "live_step F peer rib rib'" and "rib_ok rib" and "no_stale rib"
  shows "spec_step\<^sup>*\<^sup>* (adj rib) (adj rib')"
  using assms(1)
proof (cases rule: live_step.cases)
  case (update H ras ps a ws c c')
  then show ?thesis using update_simulated by blast
next
  case (peer_down H ks)
  have "adj rib' = (adj rib)(peer := \<lambda>_. None)"
    using hash_orders.remove_peer_adj(1) [OF peer_down] by (intro ext) simp
  then show ?thesis using spec_step.lost [of "adj rib" peer] by (simp add: r_into_rtranclp)
next
  case (expire H ks)
  have "maps_ok rib" using assms(2) by (simp add: rib_ok_def)
  then have "set ks = {}"
    using hash_orders.remove_stale_keys [OF expire(1) _ expire(2)] assms(3) by (simp add: no_stale_def)
  then have none: "k \<notin> set ks" for k by simp
  show ?thesis
  proof (rule hash_orders.remove_stale_purged [OF expire])
    fix purged
    assume "rib' = run_decisions H ks purged"
      and "\<And>p k. adj purged p k = (if p = peer \<and> k \<in> set ks then None else adj rib p k)"
    then have "adj rib' = adj rib"
      using none by (intro ext) (simp add: hash_orders.adj_decisions [OF expire(1)])
    then show ?thesis by simp
  qed
qed

lemma live_steps_simulated:
  assumes "(live_step F peer)\<^sup>*\<^sup>* rib rib'" and "rib_ok rib" and "no_stale rib"
  shows "spec_step\<^sup>*\<^sup>* (adj rib) (adj rib')"
  using assms
proof (induction rule: rtranclp_induct)
  case (step t u)
  then have "rib_ok t \<and> no_stale t" using live_steps_ok by blast
  with step show ?case by (meson live_step_simulated rtranclp_trans)
qed simp

text \<open>A step of the daemon moves its RIB by operations of the RIB.\<close>

lemma sys_step_rib:
  assumes "sys_ok s" and "sys_step B F s s'"
  shows "\<exists>a. (live_step F a)\<^sup>*\<^sup>* (srv_rib (server s)) (srv_rib (server s'))"
proof -
  have moved: ?thesis if "turn (evolves F) (evolves F) i s s'" for i
    using that by (cases rule: turn_cases) (auto simp: evolves_def load_def)
  from assms(2) show ?thesis
  proof (cases rule: sys_step.cases)
    case (accepted a c ws)
    then show ?thesis by (simp add: accept_def Let_def case_prod_beta)
  next
    case (polled H ev c ws i)
    then show ?thesis using poll_evolves moved by blast
  next
    case (processed H c ws i)
    then show ?thesis using process_evolves moved by blast
  next
    case (purged H i)
    then show ?thesis using assms(1) by (simp add: purge_def sys_ok_def)
  qed
qed

interpretation routes: simulation "\<lambda>s. \<exists>bind lc m. s = System_new (Server_new F bind lc m)" "sys_step B F"
    sys_ok spec_step "\<lambda>s. adj (srv_rib (server s))"
  for B and F :: "'f f64_ops"
proof
  fix s s' :: "'f System"
  assume ok: "sys_ok s" and step: "sys_step B F s s'"
  from sys_step_rib [OF ok step] obtain a where "(live_step F a)\<^sup>*\<^sup>* (srv_rib (server s)) (srv_rib (server s'))" ..
  then show "spec_step\<^sup>*\<^sup>* (adj (srv_rib (server s))) (adj (srv_rib (server s')))"
    using ok by (intro live_steps_simulated [of F a]) (simp_all add: sys_ok_def)
qed

section \<open>Properties\<close>

text \<open>C1: the daemon refines its specification.  Whatever bytes arrive in whatever interleaving, the offers
  that the daemon holds in a reachable state are offers that the specification reaches from nothing by updates
  of single peers and losses of peers, and the Loc-RIB is a selection from these offers.\<close>

theorem daemon_refines_spec:
  assumes "(sys_step B F)\<^sup>*\<^sup>* (System_new (Server_new F bind lc m)) s"
  shows "spec_step\<^sup>*\<^sup>* (\<lambda>_ _. None) (adj (srv_rib (server s))) \<and>
         chosen (adj (srv_rib (server s))) k (hm_get (loc_rib (srv_rib (server s))) k)"
proof -
  have "adj (srv_rib (server (System_new (Server_new F bind lc m)))) = (\<lambda>_ _. None)"
    by (intro ext) (simp add: System_new_def Server_new_def Rib_new_def Rib_default_def adj_def)
  then have "spec_step\<^sup>*\<^sup>* (\<lambda>_ _. None) (adj (srv_rib (server s)))"
    using routes.run_simulated [OF assms] by (metis (no_types, lifting))
  then show ?thesis
    using daemon_best [OF assms, of k] by (auto simp: chosen_def Let_def split: option.split)
qed

theorem daemon_refines_spec_witness:
  "let s = accept documented_bytes a_peer (\<lambda>i. i) (\<lambda>_. True) (System_new (Server_new real_f64 a_peer a_local Metrics_new))
   in spec_step\<^sup>*\<^sup>* (\<lambda>_ _. None) (adj (srv_rib (server s)))"
  using daemon_refines_spec [OF r_into_rtranclp [of "sys_step documented_bytes real_f64", OF sys_step.accepted]]
  by (simp add: Let_def)

end
