(* ===== verification/Isolation.thy ===== *)
theory Isolation
  imports Server
begin

text \<open>
  Isolation of the peers: what the sessions of all other peers do, with whatever bytes they send and however
  their sessions end, does not reach the session of a peer nor the routes it has announced.
\<close>

section \<open>Steps of the others\<close>

text \<open>The steps of the daemon that are not on behalf of the peer \<open>a\<close>.\<close>

inductive foreign_step :: "bytes_ops \<Rightarrow> 'f f64_ops \<Rightarrow> SocketAddr \<Rightarrow> 'f System \<Rightarrow> 'f System \<Rightarrow> bool" for B F a where
  accepted: "b \<noteq> a \<Longrightarrow> foreign_step B F a s (accept B b c ws s)"
| polled: "hash_orders H \<Longrightarrow> i < length (sessions s) \<Longrightarrow> addr (fst (sessions s ! i)) \<noteq> a \<Longrightarrow>
    foreign_step B F a s (poll B H ev c ws i s)"
| processed: "hash_orders H \<Longrightarrow> i < length (sessions s) \<Longrightarrow> addr (fst (sessions s ! i)) \<noteq> a \<Longrightarrow>
    foreign_step B F a s (process B F H c ws i s)"
| purged: "hash_orders H \<Longrightarrow> i < length (tasks s) \<Longrightarrow> fst (tasks s ! i) \<noteq> a \<Longrightarrow>
    foreign_step B F a s (purge H i s)"

lemma foreign_sys_step: "foreign_step B F a s s' \<Longrightarrow> sys_step B F s s'"
  by (erule foreign_step.cases) (auto intro: sys_step.intros)

lemma foreign_sys_steps: "(foreign_step B F a)\<^sup>*\<^sup>* s s' \<Longrightarrow> (sys_step B F)\<^sup>*\<^sup>* s s'"
  by (induction rule: rtranclp_induct) (auto dest: foreign_sys_step)

text \<open>The sessions of a peer, and what it can observe of the daemon: its sessions and its table.\<close>

definition own :: "SocketAddr \<Rightarrow> 'f System \<Rightarrow> ('f Peer \<times> u8 list \<times> bool) list" where
  "own a s = filter (\<lambda>(p, buf, d). addr p = a) (sessions s)"

definition same_view :: "SocketAddr \<Rightarrow> 'f System \<Rightarrow> 'f System \<Rightarrow> bool" where
  "same_view a s s' \<longleftrightarrow> own a s' = own a s \<and> adj (srv_rib (server s')) a = adj (srv_rib (server s)) a"

lemma same_view_refl [simp]: "same_view a s s"
  by (simp add: same_view_def)

lemma same_view_trans: "same_view a s t \<Longrightarrow> same_view a t u \<Longrightarrow> same_view a s u"
  by (simp add: same_view_def)

section \<open>Each step keeps the view\<close>

lemma own_put:
  assumes "i < length (sessions s)" and "sessions s ! i = (p, buf, d)" and "addr p \<noteq> a" and "addr q \<noteq> a"
  shows "own a (put_session i (q, rest, d') s) = own a s" and "own a (end_session i s) = own a s"
proof -
  have split: "sessions s = take i (sessions s) @ (p, buf, d) # drop (Suc i) (sessions s)"
    using assms(1,2) id_take_nth_drop [of i "sessions s"] by simp
  have "own a s = filter (\<lambda>(p, buf, d). addr p = a) (take i (sessions s)) @
      filter (\<lambda>(p, buf, d). addr p = a) (drop (Suc i) (sessions s))"
    unfolding own_def using arg_cong [OF split, of "filter (\<lambda>(p, buf, d). addr p = a)"] assms(3) by simp
  then show "own a (put_session i (q, rest, d') s) = own a s" "own a (end_session i s) = own a s"
    using assms(1,4) by (simp_all add: own_def put_session_def end_session_def upd_conv_take_nth_drop)
qed

lemma own_store [simp]: "own a (store q s) = own a s" "sessions (store q s) = sessions s"
  by (simp_all add: own_def store_def)

lemma evolves_view:
  assumes "evolves F (load s c ws p) q" and "addr p \<noteq> a"
  shows "addr q \<noteq> a" and "adj (the_rib q) a = adj (srv_rib (server s)) a"
  using assms live_steps_adj [of F "addr p" "srv_rib (server s)" "the_rib q" a]
  by (auto simp: evolves_def load_def)

lemma turn_view:
  assumes "turn (evolves F) (evolves F) i s s'" and "addr (fst (sessions s ! i)) \<noteq> a"
  shows "same_view a s s'"
  using assms(1)
proof (cases rule: turn_cases)
  case (ended c ws p buf d q)
  then have "addr p \<noteq> a" using assms(2) by simp
  then show ?thesis
    using ended own_put [of i "store q s" p buf d a q] evolves_view [OF ended(3)] by (simp add: same_view_def)
next
  case (kept c ws p buf d q rest d')
  then have "addr p \<noteq> a" using assms(2) by simp
  then show ?thesis
    using kept own_put [of i "store q s" p buf d a q] evolves_view [OF kept(3)] by (simp add: same_view_def)
qed simp

lemma addr_started [simp]: "addr (snd (session_start B (incoming_peer b lc rib m po c ws))) = b"
  by (simp add: session_start_def incoming_peer_def Peer_new_def transition_def Let_def)

lemma foreign_step_view: "foreign_step B F a s s' \<Longrightarrow> same_view a s s'"
proof (erule foreign_step.cases)
  fix b c ws t
  assume "s = t" "s' = accept B b c ws t" "b \<noteq> a"
  then show ?thesis
    by (simp add: same_view_def accept_def own_def Let_def case_prod_beta store_def)
next
  fix H i t
  assume eq: "s = t" "s' = purge H i t" and h: "hash_orders H" and i: "i < length (tasks t)" "fst (tasks t ! i) \<noteq> a"
  obtain ks rib where r: "remove_stale_for_peer H (fst (tasks t ! i)) (srv_rib (server t)) = (ks, rib)" by force
  have "live_step F (fst (tasks t ! i)) (srv_rib (server t)) rib" for F by (rule live_step.expire [OF h r])
  from live_step_adj [OF this, of a] show ?thesis
    using eq i r by (auto simp: same_view_def purge_def own_def Let_def)
qed (auto intro: turn_view poll_evolves process_evolves)

section \<open>Properties\<close>

text \<open>C2: the peers are isolated from each other.  However long the sessions of all other peers run, whatever
  they send, and whether they end orderly, by an error or by a panic, the sessions of the peer \<open>a\<close> are the same
  as before (state, timers, buffered bytes and what was sent), its Adj-RIB-In is the same, and for every route
  in it the Loc-RIB has an entry to which that route is not preferred.\<close>

theorem peer_isolation:
  assumes "(sys_step B F)\<^sup>*\<^sup>* (System_new (Server_new F bind lc m)) s"
    and "(foreign_step B F a)\<^sup>*\<^sup>* s s'"
  shows "filter (\<lambda>(p, buf, d). addr p = a) (sessions s') = filter (\<lambda>(p, buf, d). addr p = a) (sessions s) \<and>
    adj (srv_rib (server s')) a = adj (srv_rib (server s)) a \<and>
    (\<forall>k r. adj (srv_rib (server s)) a k = Some r \<longrightarrow>
       (\<exists>b. hm_get (loc_rib (srv_rib (server s'))) k = Some b \<and> \<not> preferred r b))"
proof -
  have view: "same_view a s s'"
    using assms(2) by (induction rule: rtranclp_induct) (auto dest: foreign_step_view intro: same_view_trans)
  have "(sys_step B F)\<^sup>*\<^sup>* (System_new (Server_new F bind lc m)) s'"
    using assms(1) foreign_sys_steps [OF assms(2)] by (rule rtranclp_trans)
  from daemon_best [OF this] have "\<exists>b. hm_get (loc_rib (srv_rib (server s'))) k = Some b \<and> \<not> preferred r b"
    if "adj (srv_rib (server s')) a k = Some r" for k r
    using that unfolding Let_def by (metis not_Some_eq)
  with view show ?thesis by (simp add: same_view_def own_def)
qed

theorem peer_isolation_witness:
  "let s = accept documented_bytes a_peer (\<lambda>i. i) (\<lambda>_. True) (System_new (Server_new real_f64 a_peer a_local Metrics_new));
       b = a_peer\<lparr>sock_port := 5\<rparr>;
       s' = accept documented_bytes b (\<lambda>i. i) (\<lambda>_. True) s
   in length (sessions s) = 1 \<and> length (sessions s') = 2 \<and>
      filter (\<lambda>(p, buf, d). addr p = a_peer) (sessions s') = filter (\<lambda>(p, buf, d). addr p = a_peer) (sessions s)"
proof -
  let ?init = "System_new (Server_new real_f64 a_peer a_local Metrics_new)" and ?b = "a_peer\<lparr>sock_port := 5\<rparr>"
  let ?s = "accept documented_bytes a_peer (\<lambda>i. i) (\<lambda>_. True) ?init"
  have "?b \<noteq> a_peer" by (simp add: a_peer_def)
  note foreign = r_into_rtranclp [of "foreign_step documented_bytes real_f64 a_peer", OF foreign_step.accepted [OF this]]
  have "(sys_step documented_bytes real_f64)\<^sup>*\<^sup>* ?init ?s" by (rule r_into_rtranclp) (rule sys_step.accepted)
  from peer_isolation [OF this foreign] show ?thesis
    by (simp add: Let_def) (simp add: accept_def session_start_def write_all_def incoming_peer_def Peer_new_def
        peer_inc_def transition_def store_def System_new_def Let_def)
qed

end
