(* ===== verification/Session_Inv.thy ===== *)
theory Session_Inv
  imports Server Handshake
begin

text \<open>
  What holds of every live session of the daemon: what it has sent is a well-formed conversation, and what it
  has negotiated with its peer is consistent.
\<close>

section \<open>The invariant of a session\<close>

text \<open>The session has sent its OPEN message and then keepalives only.\<close>

definition spoken :: "bytes_ops \<Rightarrow> LocalConfig \<Rightarrow> u8 list \<Rightarrow> bool" where
  "spoken B lc bs \<longleftrightarrow>
     (\<exists>n. bs = OpenMessage_serialize B (session_open lc) @ concat (replicate n (KeepaliveMessage_serialize B)))"

lemma spoken_open [simp]: "spoken B lc (OpenMessage_serialize B (session_open lc))"
  unfolding spoken_def by (rule exI [of _ 0]) simp

lemma spoken_keepalive: "spoken B lc bs \<Longrightarrow> spoken B lc (bs @ KeepaliveMessage_serialize B)"
proof -
  have "concat (replicate n ks) @ ks = concat (replicate (Suc n) ks)" for n and ks :: "u8 list"
    by (induction n) simp_all
  then show "spoken B lc bs \<Longrightarrow> ?thesis" unfolding spoken_def by (metis append.assoc)
qed

definition session_ok :: "bytes_ops \<Rightarrow> LocalConfig \<Rightarrow> 'f Peer \<Rightarrow> bool" where
  "session_ok B lc p \<longleftrightarrow> local_cfg p = lc \<and> spoken B lc (sent p) \<and>
     keepalive_interval (timers p) = hold_time (timers p) div 3 \<and>
     (state p \<in> {OpenConfirm, Established} \<longrightarrow> peer_router_id p \<noteq> None \<and>
        hold_time (timers p) = negotiated_hold_time p \<and> negotiated_hold_time p \<le> local_hold_time lc)"

text \<open>What the invariant depends on.\<close>

definition same_session :: "'f Peer \<Rightarrow> 'f Peer \<Rightarrow> bool" where
  "same_session p q \<longleftrightarrow> local_cfg q = local_cfg p \<and> sent q = sent p \<and> hold_time (timers q) = hold_time (timers p) \<and>
     keepalive_interval (timers q) = keepalive_interval (timers p) \<and> peer_router_id q = peer_router_id p \<and>
     negotiated_hold_time q = negotiated_hold_time p \<and>
     (state q \<in> {OpenConfirm, Established} \<longrightarrow> state p \<in> {OpenConfirm, Established})"

lemma same_session_ok: "same_session p q \<Longrightarrow> session_ok B lc p \<Longrightarrow> session_ok B lc q"
  by (auto simp: same_session_def session_ok_def)

lemma same_session_load [simp]: "same_session p (load s c ws p)"
  by (simp add: same_session_def load_def)

lemma timers_intervals [simp]:
  "keepalive_interval (fst (reset_hold_timer t c)) = keepalive_interval t"
  "keepalive_interval (fst (reset_keepalive_timer t c)) = keepalive_interval t"
  "keepalive_interval (BgpTimers_new h) = h div 3"
  by (simp_all add: reset_hold_timer_def reset_keepalive_timer_def BgpTimers_new_def Let_def case_prod_beta word_gt_0)

section \<open>Every handler keeps it\<close>

lemma next_state_passive:
  "e \<in> {UpdateMsg, NotifMsg} \<Longrightarrow> next_state s e \<in> {OpenConfirm, Established} \<Longrightarrow> s \<in> {OpenConfirm, Established}"
  by (auto simp: next_state_Established next_state_OpenConfirm)

lemma handle_open_ok:
  assumes "session_ok B lc p" and "handle_open B body p = (q, Ok ())"
  shows "session_ok B lc q"
  using assms
  by (auto simp: handle_open_def on_parse_def session_ok_def env_defs spoken_keepalive split: outcome.splits if_splits)

lemma handle_keepalive_ok:
  assumes "session_ok B lc p"
  shows "session_ok B lc (fst (handle_keepalive p))"
  using assms by (auto simp: handle_keepalive_def session_ok_def env_defs)

lemma handle_update_same:
  "same_session p (fst (handle_update B F H body p))"
  using next_state_passive [of UpdateMsg "state p"]
  by (auto simp: handle_update_def on_parse_def same_session_def env_defs with_rib_def split: outcome.splits)

lemma handle_notification_same:
  "same_session p (fst (handle_notification B H body p))"
  using next_state_passive [of NotifMsg "state p"]
  by (auto simp: handle_notification_def on_parse_def same_session_def env_defs with_rib_def split: outcome.splits)

lemma handle_message_ok:
  assumes "session_ok B lc p" and "handle_message B F H msg p = (q, Ok ())"
  shows "session_ok B lc q"
  using assms handle_keepalive_ok [OF assms(1)] handle_open_ok [OF assms(1), of "msg_body msg" q]
    same_session_ok [OF handle_update_same assms(1), of B F H "msg_body msg"]
    same_session_ok [OF handle_notification_same assms(1), of B H "msg_body msg"]
  by (auto simp: handle_message_def handle_keepalive_def Let_def split: MessageType.splits)

lemma message_step_keeps:
  assumes "message_step B F H p buf = (q, rest, r)"
  shows "case r of Failed _ \<Rightarrow> True | _ \<Rightarrow> session_ok B lc p \<longrightarrow> session_ok B lc q"
  using assms handle_message_ok
  by (auto simp: message_step_def split: outcome.splits option.splits prod.splits if_splits handled.splits)

lemma send_keepalive_ok:
  assumes "session_ok B lc p" and "fst (send_keepalive B p)"
  shows "session_ok B lc (snd (send_keepalive B p))"
  using assms
  by (auto simp: send_keepalive_def session_ok_def env_defs spoken_keepalive split: if_splits)

lemma session_poll_keeps:
  assumes "session_poll B H ev p buf = (q, rest, r)"
  shows "case r of Ended _ \<Rightarrow> True | _ \<Rightarrow> session_ok B lc p \<longrightarrow> session_ok B lc q"
proof -
  have "session_ok B lc p \<Longrightarrow> session_ok B lc (timed p)"
    by (simp add: session_ok_def timed_def)
  then show ?thesis
    using assms send_keepalive_ok [of B lc "timed p"]
    by (auto simp: session_poll_def timed_def Let_def case_prod_beta split: if_splits read_event.splits polled.splits)
qed

section \<open>The daemon keeps it\<close>

definition sessions_wf :: "bytes_ops \<Rightarrow> LocalConfig \<Rightarrow> 'f System \<Rightarrow> bool" where
  "sessions_wf B lc s \<longleftrightarrow> srv_local (server s) = lc \<and> (\<forall>(p, buf, d) \<in> set (sessions s). session_ok B lc p)"

lemma turn_sessions_wf:
  assumes "turn (\<lambda>p q. session_ok B lc p \<longrightarrow> session_ok B lc q) (\<lambda>_ _. True) i s s'" and "sessions_wf B lc s"
  shows "sessions_wf B lc s'"
  using assms(1)
proof (cases rule: turn_cases)
  case (ended c ws p buf d q)
  then have "set (sessions s') \<subseteq> set (sessions s)" "server s' = server (store q s)"
    by (auto simp: end_session_def store_def dest: in_set_takeD in_set_dropD)
  then show ?thesis using assms(2) by (auto simp: sessions_wf_def store_def)
next
  case (kept c ws p buf d q rest d')
  then have "session_ok B lc p" using assms(2) nth_mem by (fastforce simp: sessions_wf_def)
  then have "session_ok B lc q" using kept(3) same_session_ok [OF same_session_load] by blast
  moreover have "set (sessions s') \<subseteq> insert (q, rest, d') (set (sessions s))" "server s' = server (store q s)"
    using kept(4) set_update_subset_insert [of "sessions s" i] by (simp_all add: put_session_def store_def)
  ultimately show ?thesis using assms(2) by (auto simp: sessions_wf_def store_def)
qed (use assms(2) in simp)

lemma accept_sessions_wf: "sessions_wf B lc s \<Longrightarrow> sessions_wf B lc (accept B a c ws s)"
proof -
  let ?p = "incoming_peer a (srv_local (server s)) (srv_rib (server s)) (srv_metrics (server s)) (poisoned s) c ws"
  assume wf: "sessions_wf B lc s"
  then have "session_ok B lc (snd (session_start B ?p))" if "fst (session_start B ?p)"
    using that
    by (simp add: sessions_wf_def session_ok_def session_start_def incoming_peer_def Peer_new_def env_defs
        next_state_def)
  with wf show ?thesis
    by (auto simp: sessions_wf_def accept_def store_def Let_def case_prod_beta)
qed

interpretation conversations: state_machine "\<lambda>s. \<exists>bind m. s = System_new (Server_new F bind lc m)" "sys_step B F"
    "sessions_wf B lc"
  for B lc and F :: "'f f64_ops"
proof
  show "sessions_wf B lc s" if "\<exists>bind m. s = System_new (Server_new F bind lc m)" for s
    using that by (auto simp: sessions_wf_def System_new_def Server_new_def)
  show "sessions_wf B lc s \<Longrightarrow> sys_step B F s s' \<Longrightarrow> sessions_wf B lc s'" for s s' :: "'f System"
  proof (erule sys_stepE)
    fix H i assume "sessions_wf B lc s" and "s' = purge H i s"
    then show ?thesis by (simp add: sessions_wf_def purge_def Let_def)
  qed (auto intro: accept_sessions_wf turn_sessions_wf poll_turn process_turn session_poll_keeps message_step_keeps)
qed

section \<open>Properties\<close>

text \<open>C10: every live session of the daemon is in order, whatever its peer and the others have sent.  What it has
  written to its socket is its OPEN message followed by keepalives and nothing else; its keepalive interval is
  a third of its hold time; and when it is in OpenConfirm or Established it has taken an OPEN message from the
  peer, and its hold timer runs with the negotiated hold time, which is at most the configured one.\<close>

theorem session_invariant:
  assumes "(sys_step B F)\<^sup>*\<^sup>* (System_new (Server_new F bind lc m)) s" and "(p, buf, d) \<in> set (sessions s)"
  shows "(\<exists>n. sent p = OpenMessage_serialize B (session_open lc) @
              concat (replicate n (KeepaliveMessage_serialize B))) \<and>
    local_cfg p = lc \<and> keepalive_interval (timers p) = hold_time (timers p) div 3 \<and>
    (state p \<in> {OpenConfirm, Established} \<longrightarrow> peer_router_id p \<noteq> None \<and>
       hold_time (timers p) = negotiated_hold_time p \<and> negotiated_hold_time p \<le> local_hold_time lc)"
proof -
  have "sessions_wf B lc s"
    using assms(1) by (rule conversations.reachable_inv [rotated]) blast
  then have "session_ok B lc p" using assms(2) by (auto simp: sessions_wf_def)
  then show ?thesis by (simp add: session_ok_def spoken_def)
qed

theorem session_invariant_witness:
  "\<exists>p n. sessions (accept documented_bytes a_peer (\<lambda>i. i) (\<lambda>_. True)
        (System_new (Server_new real_f64 a_peer a_local Metrics_new))) = [(p, [], False)] \<and>
     sent p = OpenMessage_serialize documented_bytes (session_open a_local) @
       concat (replicate n (KeepaliveMessage_serialize documented_bytes))"
proof -
  let ?init = "System_new (Server_new real_f64 a_peer a_local Metrics_new)"
  let ?s = "accept documented_bytes a_peer (\<lambda>i. i) (\<lambda>_. True) ?init"
  obtain p where p: "sessions ?s = [(p, [], False)]"
    by (simp add: accept_def session_start_def write_all_def store_def System_new_def Let_def incoming_peer_def
        Peer_new_def env_defs)
  have "(sys_step documented_bytes real_f64)\<^sup>*\<^sup>* ?init ?s" by (rule r_into_rtranclp) (rule sys_step.accepted)
  from session_invariant [OF this, of p "[]" False] p show ?thesis by auto
qed

end
