(* ===== verification/Mgmt.thy ===== *)
theory Mgmt
  imports Metrics Policy Rib_Props Fsm "HOL-Library.List_Lexorder"
begin

text \<open>
  The management interface, \<^verbatim>\<open>src/mgmt.rs\<close>: line-oriented commands over a Unix socket, answered from the
  shared RIB, the counters and a table of peers.  The commands only read.  Lines are ASCII.  The traversal
  of the Loc-RIB goes through \<open>H\<close> as in the theory \<open>Rib\<close>, that of the peer table through \<open>Q\<close>.
\<close>

section \<open>State\<close>

record PeerInfo =
  pi_addr :: SocketAddr
  pi_remote_as :: u32
  pi_state :: BgpState
  pi_description :: "string option"
  pi_uptime_secs :: u64
  pi_routes_received :: usize

type_synonym peer_table = "(SocketAddr, PeerInfo) HashMap"

record MgmtState =
  mgmt_peers :: peer_table

definition MgmtState_default :: MgmtState where
  "MgmtState_default = \<lparr>mgmt_peers = []\<rparr>"

type_synonym peer_order = "peer_table \<Rightarrow> (SocketAddr \<times> PeerInfo) list"

section \<open>Text of routes\<close>

definition PrefixKey_to_string :: "PrefixKey \<Rightarrow> string" where
  "PrefixKey_to_string k = show_ipv4 (key_address k) @ [CHR 0x2F] @ show_nat (unat (key_prefix_len k))"

definition show_u32 :: "u32 \<Rightarrow> string" where
  "show_u32 w = show_nat (unat w)"

definition next_hop_text :: "Route \<Rightarrow> string" where
  "next_hop_text r = (case next_hop (attrs r) of Some a \<Rightarrow> show_ipv4 a | None \<Rightarrow> ''-'')"

definition origin_text :: "Route \<Rightarrow> string" where
  "origin_text r = (case origin (attrs r) of Some v \<Rightarrow> Origin_to_string v | None \<Rightarrow> ''?'')"

definition as_path_text :: "Route \<Rightarrow> string" where
  "as_path_text r = join '' '' (map show_u32 (concat (map as_numbers (as_path (attrs r)))))"

definition or_else :: "string \<Rightarrow> string \<Rightarrow> string" where
  "or_else s dflt = (if s = [] then dflt else s)"

text \<open>\<^verbatim>\<open>sort_by_key(|(k, _)| (k.address.octets(), k.prefix_len))\<close>: arrays and tuples are ordered
  lexicographically.\<close>

definition sort_key_of :: "PrefixKey \<times> Route \<Rightarrow> u8 list \<times> u8" where
  "sort_key_of kr = (to_be 4 (key_address (fst kr)), key_prefix_len (fst kr))"

definition sort_routes :: "(PrefixKey \<times> Route) list \<Rightarrow> (PrefixKey \<times> Route) list" where
  "sort_routes = sort_by (\<lambda>a b. cmp (sort_key_of a) (sort_key_of b))"

section \<open>Commands\<close>

text \<open>The \<^verbatim>\<open>Display\<close> of a state ignores the width of its column.\<close>

definition summary_row :: "PeerInfo \<Rightarrow> string" where
  "summary_row p =
     left_col 22 (show_socket (pi_addr p)) @ '' '' @ right_col 8 (show_u32 (pi_remote_as p)) @ '' '' @
     BgpState_to_string (pi_state p) @ '' '' @
     (case pi_description p of Some d \<Rightarrow> d | None \<Rightarrow> []) @ nl"

definition cmd_bgp_summary :: "peer_order \<Rightarrow> MgmtState \<Rightarrow> 'f Rib \<Rightarrow> string" where
  "cmd_bgp_summary Q st rib =
     (let (_, _, loc_count) = rib_summary rib;
          out = ''BGP Summary'' @ nl;
          out = out @ ''==========='' @ nl;
          out = out @ ''Total prefixes in Loc-RIB: '' @ show_nat loc_count @ nl @ nl;
          out = out @ left_col 22 ''Neighbor'' @ '' '' @ right_col 8 ''AS'' @ '' '' @
                  right_col 12 ''State'' @ '' '' @ ''Description'' @ nl;
          out = out @ replicate 70 (CHR 0x2D) @ nl;
          out = out @ concat (map (\<lambda>(a, p). summary_row p) (Q (mgmt_peers st)))
      in if mgmt_peers st = [] then out @ ''(no peers configured)'' @ nl else out)"

definition rib_row :: "PrefixKey \<times> Route \<Rightarrow> string" where
  "rib_row = (\<lambda>(k, r).
     left_col 20 (PrefixKey_to_string k) @ '' '' @ right_col 10 (show_u32 (local_pref_of r)) @ '' '' @
     right_col 6 (show_u32 (med_of r)) @ '' '' @ right_col 6 (or_else (as_path_text r) ''-'') @ '' '' @
     left_col 20 (next_hop_text r) @ '' '' @ origin_text r @ nl)"

definition rib_head :: string where
  "rib_head =
     ''BGP Routing Table (Loc-RIB)'' @ nl @ ''==========================='' @ nl @
     left_col 20 ''Network'' @ '' '' @ right_col 8 ''Local-Pref'' @ '' '' @ right_col 6 ''MED'' @ '' '' @
     right_col 6 ''AS-Path'' @ '' '' @ left_col 20 ''Next-Hop'' @ '' '' @ ''Origin'' @ nl @
     replicate 80 (CHR 0x2D) @ nl"

definition cmd_bgp_rib :: "hash_order \<Rightarrow> 'f Rib \<Rightarrow> string" where
  "cmd_bgp_rib H rib =
     (if loc_rib rib = [] then ''Loc-RIB is empty.'' @ nl
      else
        let prefixes = sort_routes (routes_order H (loc_rib rib))
        in rib_head @ concat (map rib_row prefixes))"

definition route_detail :: "string \<Rightarrow> Route \<Rightarrow> string" where
  "route_detail prefix_str r =
     (let out = ''BGP Prefix '' @ prefix_str @ nl;
          out = out @ ''  Best path from:  '' @ show_socket (peer_addr r) @ nl;
          out = out @ ''  Peer AS:         '' @ show_u32 (peer_as r) @ nl;
          out = out @ ''  Next-hop:        '' @ next_hop_text r @ nl;
          out = out @ ''  Local-pref:      '' @ show_u32 (local_pref_of r) @ nl;
          out = out @ ''  MED:             '' @ show_u32 (med_of r) @ nl;
          out = out @ ''  Origin:          '' @ origin_text r @ nl;
          out = out @ ''  AS-path:         '' @ or_else (as_path_text r) ''(empty)'' @ nl
      in if communities (attrs r) = [] then out
         else out @ ''  Communities:     '' @ join '' '' (map Community_to_string (communities (attrs r))) @ nl)"

definition quoted :: "string \<Rightarrow> string" where
  "quoted s = [CHR 0x27] @ s @ [CHR 0x27]"

definition cmd_bgp_rib_prefix :: "'f Rib \<Rightarrow> string \<Rightarrow> string" where
  "cmd_bgp_rib_prefix rib prefix_str =
     (case split_once (CHR 0x2F) prefix_str of
        None \<Rightarrow> ''Invalid prefix format: '' @ quoted prefix_str @ ''. Use X.X.X.X/LEN'' @ nl
      | Some (addr_s, len_s) \<Rightarrow>
          (case parse_ipv4 addr_s of
             None \<Rightarrow> ''Invalid address: '' @ quoted addr_s @ nl
           | Some a \<Rightarrow>
               (case parse_u8 len_s of
                  None \<Rightarrow> ''Invalid prefix length: '' @ quoted len_s @ nl
                | Some len \<Rightarrow>
                    (case hm_get (loc_rib rib) \<lparr>key_address = a, key_prefix_len = len\<rparr> of
                       Some route \<Rightarrow> route_detail prefix_str route
                     | None \<Rightarrow> ''Prefix '' @ prefix_str @ '' not found in Loc-RIB.'' @ nl))))"

definition neighbor_detail :: "PeerInfo \<Rightarrow> string" where
  "neighbor_detail p =
     (let out = ''BGP neighbor '' @ show_socket (pi_addr p) @ nl;
          out = out @ ''  Remote AS:    '' @ show_u32 (pi_remote_as p) @ nl;
          out = out @ ''  State:        '' @ BgpState_to_string (pi_state p) @ nl;
          out = out @ ''  Routes rcvd:  '' @ show_nat (pi_routes_received p) @ nl;
          out = out @ ''  Uptime:       '' @ show_u64 (pi_uptime_secs p) @ ''s'' @ nl;
          out = (case pi_description p of Some d \<Rightarrow> out @ ''  Description:  '' @ d @ nl | None \<Rightarrow> out)
      in out @ nl)"

definition cmd_bgp_neighbors :: "peer_order \<Rightarrow> MgmtState \<Rightarrow> string option \<Rightarrow> string" where
  "cmd_bgp_neighbors Q st filter_ip =
     (let all = map snd (Q (mgmt_peers st));
          ps = (case filter_ip of
                  Some ip \<Rightarrow> filter (\<lambda>p. show_ip (sock_ip (pi_addr p)) = ip) all
                | None \<Rightarrow> all)
      in if ps = [] then ''No matching neighbors.'' @ nl else concat (map neighbor_detail ps))"

definition has_asn :: "u32 \<Rightarrow> Route \<Rightarrow> bool" where
  "has_asn n r \<longleftrightarrow> (\<exists>seg \<in> set (as_path (attrs r)). n \<in> set (as_numbers seg))"

definition aspath_row :: "PrefixKey \<times> Route \<Rightarrow> string" where
  "aspath_row = (\<lambda>(k, r).
     left_col 20 (PrefixKey_to_string k) @ '' via '' @ next_hop_text r @ '' path '' @ as_path_text r @ nl)"

definition cmd_bgp_rib_aspath :: "hash_order \<Rightarrow> 'f Rib \<Rightarrow> string \<Rightarrow> string" where
  "cmd_bgp_rib_aspath H rib asn_str =
     (case parse_u32 asn_str of
        None \<Rightarrow> ''Invalid AS number: '' @ quoted asn_str @ nl
      | Some n \<Rightarrow>
          let found = filter (\<lambda>(k, r). has_asn n r) (routes_order H (loc_rib rib))
          in if found = [] then ''No routes with ASN '' @ show_u32 n @ '' in AS_PATH.'' @ nl
             else ''Routes with ASN '' @ show_u32 n @ '' in AS_PATH'' @ nl @ replicate 40 (CHR 0x3D) @ nl @
                  concat (map aspath_row (sort_routes found)))"

definition nexthop_row :: "PrefixKey \<times> Route \<Rightarrow> string" where
  "nexthop_row = (\<lambda>(k, r).
     left_col 20 (PrefixKey_to_string k) @ '' local-pref='' @ show_u32 (local_pref_of r) @ '' path='' @
     or_else (as_path_text r) ''-'' @ nl)"

definition cmd_bgp_rib_nexthop :: "hash_order \<Rightarrow> 'f Rib \<Rightarrow> string \<Rightarrow> string" where
  "cmd_bgp_rib_nexthop H rib ip_str =
     (case parse_ipv4 ip_str of
        None \<Rightarrow> ''Invalid IPv4 address: '' @ quoted ip_str @ nl
      | Some target \<Rightarrow>
          let found = filter (\<lambda>(k, r). next_hop (attrs r) = Some target) (routes_order H (loc_rib rib))
          in if found = [] then ''No routes with next-hop '' @ show_ipv4 target @ ''.'' @ nl
             else ''Routes via next-hop '' @ show_ipv4 target @ nl @ replicate 40 (CHR 0x3D) @ nl @
                  concat (map nexthop_row (sort_routes found)))"

text \<open>The version of the crate, and that of the compiler when the build environment names it.\<close>

definition cmd_version :: "string option \<Rightarrow> string" where
  "cmd_version rustc_version =
     ''PathForge BGP daemon'' @ nl @ ''Version: 0.1.0'' @ nl @
     ''Rustc:   '' @ (case rustc_version of Some v \<Rightarrow> v | None \<Rightarrow> ''unknown'') @ nl"

definition em_dash :: string where
  "em_dash = [CHR 0xE2, CHR 0x80, CHR 0x94]"

definition help_rows :: "(string \<times> string) list" where
  "help_rows =
     [(''show bgp summary                '', '' Peer summary and RIB count''),
      (''show bgp rib                    '', '' Full BGP routing table (Loc-RIB)''),
      (''show bgp rib prefix X.X.X.X/N  '', '' Detail for a specific prefix''),
      (''show bgp rib aspath <ASN>       '', '' Routes containing ASN in AS_PATH''),
      (''show bgp rib nexthop <X.X.X.X>  '', '' Routes with a specific next-hop''),
      (''show bgp neighbors              '', '' All neighbor detail''),
      (''show bgp neighbors <ip>         '', '' Specific neighbor detail''),
      (''show bgp metrics                '', '' Human-readable counters''),
      (''metrics                         '', '' Prometheus exposition format''),
      (''version                         '', '' Daemon version''),
      (''help                            '', '' Show this help''),
      (''quit / exit                     '', '' Close connection'')]"

definition cmd_help :: string where
  "cmd_help =
     ''Available commands:'' @ nl @ nl @ concat (map (\<lambda>(c, t). c @ em_dash @ t @ nl) help_rows)"

text \<open>The \<^verbatim>\<open>match\<close> on the words of the line.\<close>

definition process_command ::
    "hash_order \<Rightarrow> peer_order \<Rightarrow> string option \<Rightarrow> MgmtState \<Rightarrow> 'f Rib \<Rightarrow> Metrics \<Rightarrow> string \<Rightarrow> string" where
  "process_command H Q rustc st rib m line =
     (let parts = split_whitespace line;
          unknown = ''Unknown command: '' @ quoted line @ nl @ ''Type '' @ quoted ''help'' @
                      '' for available commands.'' @ nl
      in if parts = [''show'', ''bgp'', ''summary''] then cmd_bgp_summary Q st rib
         else if parts = [''show'', ''bgp'', ''rib''] then cmd_bgp_rib H rib
         else if length parts = 5 \<and> take 4 parts = [''show'', ''bgp'', ''rib'', ''prefix''] then
           cmd_bgp_rib_prefix rib (parts ! 4)
         else if length parts = 5 \<and> take 4 parts = [''show'', ''bgp'', ''rib'', ''aspath''] then
           cmd_bgp_rib_aspath H rib (parts ! 4)
         else if length parts = 5 \<and> take 4 parts = [''show'', ''bgp'', ''rib'', ''nexthop''] then
           cmd_bgp_rib_nexthop H rib (parts ! 4)
         else if parts = [''show'', ''bgp'', ''neighbors''] then cmd_bgp_neighbors Q st None
         else if length parts = 4 \<and> take 3 parts = [''show'', ''bgp'', ''neighbors''] then
           cmd_bgp_neighbors Q st (Some (parts ! 3))
         else if parts = [''show'', ''bgp'', ''metrics''] then text_summary m
         else if parts = [''metrics''] then prometheus_text m
         else if parts = [''version''] then cmd_version rustc
         else if parts = [''help''] \<or> parts = [] then cmd_help
         else if parts = [''quit''] \<or> parts = [''exit''] then ''Bye!'' @ nl
         else unknown)"

text \<open>
  \<^verbatim>\<open>handle_mgmt_conn\<close>: \<open>ws\<close> are the results of the coming writes, and \<open>out\<close> is what has been written.  Each
  line is answered from what the shared state is at that time; the loop ends with the lines, or when a line
  cannot be read.
\<close>

type_synonym 'f mgmt_line = "hash_order \<times> peer_order \<times> MgmtState \<times> 'f Rib \<times> Metrics \<times> string"

datatype MgmtError = WriteFailed

fun answer_lines ::
    "string option \<Rightarrow> (nat \<Rightarrow> bool) \<Rightarrow> 'f mgmt_line list \<Rightarrow> string \<Rightarrow> (MgmtError, unit) outcome \<times> string" where
  "answer_lines rustc ws [] out = (Ok (), out)"
| "answer_lines rustc ws ((H, Q, st, rib, m, line) # rest) out =
     (let response = process_command H Q rustc st rib m (trim line) in
      if \<not> ws 0 then (Err WriteFailed, out)
      else if \<not> ws 1 then (Err WriteFailed, out @ response)
      else answer_lines rustc (\<lambda>i. ws (i + 2)) rest (out @ response @ nl @ ''> ''))"

definition handle_mgmt_conn ::
    "string option \<Rightarrow> (nat \<Rightarrow> bool) \<Rightarrow> 'f mgmt_line list \<Rightarrow> (MgmtError, unit) outcome \<times> string" where
  "handle_mgmt_conn rustc ws lines =
     (if \<not> ws 0 then (Err WriteFailed, [])
      else answer_lines rustc (\<lambda>i. ws (Suc i)) lines (''PathForge BGP Management'' @ nl @ ''> ''))"

section \<open>Tables\<close>

lemma sort_by_sort_key: "sort_by (\<lambda>a b. cmp (f a) (f b)) xs = sort_key f xs"
proof -
  have "insert_by (\<lambda>a b. cmp (f a) (f b)) x ys = insort_key f x ys" for x and ys :: "'a list"
    by (induction ys) (auto simp: cmp_def)
  then show ?thesis by (induction xs) (simp_all add: sort_by_def)
qed

lemma sort_key_of_inject: "sort_key_of (k, r) = sort_key_of (k', r') \<longleftrightarrow> k = k'"
proof -
  have "to_be 4 a = to_be 4 b \<longleftrightarrow> a = b" for a b :: Ipv4Addr
    by (metis from_be_to_be_32)
  then show ?thesis by (auto simp: sort_key_of_def intro: PrefixKey.equality)
qed

text \<open>The rows of a table: the entries of the Loc-RIB that satisfy \<open>P\<close>, sorted.\<close>

definition loc_table :: "(Route \<Rightarrow> bool) \<Rightarrow> 'f Rib \<Rightarrow> (PrefixKey \<times> Route) list" where
  "loc_table P rib = sort_key sort_key_of (filter (\<lambda>(k, r). P r) (loc_rib rib))"

lemma loc_table_spec:
  assumes "hm_ok (loc_rib rib)"
  shows "set (loc_table P rib) = {(k, r). hm_get (loc_rib rib) k = Some r \<and> P r}"
    and "distinct (loc_table P rib)" and "sorted (map sort_key_of (loc_table P rib))"
  using assms by (auto simp: loc_table_def hm_ok_def distinct_map dest: map_of_SomeD)

text \<open>The keys are distinct, so that the sorted table does not depend on the traversal.\<close>

context hash_orders
begin

lemma sort_routes_order:
  assumes "hm_ok (loc_rib rib)"
  shows "sort_routes (filter (\<lambda>(k, r). P r) (routes_order H (loc_rib rib))) = loc_table P rib"
proof -
  let ?xs = "filter (\<lambda>(k, r). P r) (routes_order H (loc_rib rib))"
  let ?ys = "filter (\<lambda>(k, r). P r) (loc_rib rib)"
  have mset: "mset ?xs = mset (loc_table P rib)" by (simp add: loc_table_def routes.visits)
  have "k = k' \<longrightarrow> r = r'" if "(k, r) \<in> set (loc_rib rib)" "(k', r') \<in> set (loc_rib rib)" for k r k' r'
    using that assms by (auto simp: hm_in_set)
  then have "inj_on sort_key_of (set ?xs)"
    by (auto simp: inj_on_def sort_key_of_inject)
  from sort_key_inj_key_eq [OF mset this] show ?thesis
    using loc_table_spec(3) [OF assms] by (simp add: sort_routes_def sort_by_sort_key)
qed

lemma found_Nil:
  assumes "hm_ok (loc_rib rib)"
  shows "filter (\<lambda>(k, r). P r) (routes_order H (loc_rib rib)) = [] \<longleftrightarrow> loc_table P rib = []"
  unfolding sort_routes_order [OF assms, symmetric] by (simp add: sort_routes_def)

lemma sort_routes_all:
  "hm_ok (loc_rib rib) \<Longrightarrow> sort_routes (routes_order H (loc_rib rib)) = loc_table (\<lambda>_. True) rib"
  using sort_routes_order [of rib "\<lambda>_. True"] by (simp add: case_prod_beta)

end

section \<open>Command lines\<close>

lemma split_by_word:
  "\<forall>c \<in> set w. \<not> P c \<Longrightarrow> split_by P w = [w]"
  by (induction w) auto

lemma show_nat_word: "c \<in> set (show_nat n) \<Longrightarrow> \<not> is_whitespace c"
  using show_nat_excludes [of c n] by (auto simp: is_whitespace_def Let_def)

lemma show_ipv4_word: "c \<in> set (show_ipv4 a) \<Longrightarrow> \<not> is_whitespace c"
  using show_nat_word by (auto simp: show_ipv4_def is_whitespace_def split: list.splits)

lemma parse_u32_show [simp]: "parse_u32 (show_u32 n) = Some n"
proof -
  have "unat n < 2 ^ 32" using unsigned_less [of n] by simp
  then show ?thesis by (simp add: parse_u32_def show_u32_def parse_uint_show_nat)
qed

text \<open>White space among literal characters.\<close>

lemma is_whitespace_lit:
  "is_whitespace (Char b0 b1 b2 b3 b4 b5 b6 b7) =
     (let n = of_char (Char b0 b1 b2 b3 b4 b5 b6 b7) :: nat in (9 \<le> n \<and> n \<le> 13) \<or> n = 32)"
  by (simp only: is_whitespace_def)

lemma split_command:
  assumes "\<forall>c \<in> set w. \<not> is_whitespace c" and "w \<noteq> []"
  shows "split_whitespace (''show bgp rib prefix '' @ w) = [''show'', ''bgp'', ''rib'', ''prefix'', w]"
    and "split_whitespace (''show bgp rib aspath '' @ w) = [''show'', ''bgp'', ''rib'', ''aspath'', w]"
    and "split_whitespace (''show bgp rib nexthop '' @ w) = [''show'', ''bgp'', ''rib'', ''nexthop'', w]"
  using split_by_word [OF assms(1)] assms(2) by (simp_all add: split_whitespace_def is_whitespace_lit)

lemma process_rib_commands:
  assumes "\<forall>c \<in> set w. \<not> is_whitespace c" and "w \<noteq> []"
  shows "process_command H Q rustc st rib m (''show bgp rib prefix '' @ w) = cmd_bgp_rib_prefix rib w"
    and "process_command H Q rustc st rib m (''show bgp rib aspath '' @ w) = cmd_bgp_rib_aspath H rib w"
    and "process_command H Q rustc st rib m (''show bgp rib nexthop '' @ w) = cmd_bgp_rib_nexthop H rib w"
  unfolding process_command_def split_command [OF assms] by simp_all

lemma process_show_rib: "process_command H Q rustc st rib m ''show bgp rib'' = cmd_bgp_rib H rib"
  by (simp add: process_command_def split_whitespace_def is_whitespace_lit)

lemma show_ipv4_nonempty [simp]: "show_ipv4 a \<noteq> []"
  by (simp add: show_ipv4_def numeral_eq_Suc)

text \<open>A query for the text of a prefix is answered from its entry in the Loc-RIB.\<close>

lemma prefix_query:
  "process_command H Q rustc st rib m (''show bgp rib prefix '' @ PrefixKey_to_string k) =
     (case hm_get (loc_rib rib) k of
        Some r \<Rightarrow> route_detail (PrefixKey_to_string k) r
      | None \<Rightarrow> ''Prefix '' @ PrefixKey_to_string k @ '' not found in Loc-RIB.'' @ nl)"
proof -
  have word: "\<forall>c \<in> set (PrefixKey_to_string k). \<not> is_whitespace c" "PrefixKey_to_string k \<noteq> []"
    using show_ipv4_word show_nat_word by (auto simp: PrefixKey_to_string_def is_whitespace_def)
  have "parse_u8 (show_nat (unat (key_prefix_len k))) = Some (key_prefix_len k)"
    using unat_u8_less [of "key_prefix_len k"] by (simp add: parse_u8_def parse_uint_show_nat)
  then show ?thesis
    unfolding process_rib_commands(1) [OF word] cmd_bgp_rib_prefix_def
    by (cases k) (simp add: PrefixKey_to_string_def split_once_app show_ipv4_no_slash parse_ipv4_show)
qed

section \<open>Properties\<close>

text \<open>C23: the tables that an operator sees are the Loc-RIB.  For every Loc-RIB there are tables of rows (all
  entries, those whose AS path contains \<open>n\<close>, those with next hop \<open>hop\<close>), each listing exactly the entries in
  question once, in ascending order of address and length, such that the commands \<^verbatim>\<open>show bgp rib\<close>,
  \<^verbatim>\<open>show bgp rib aspath\<close> and \<^verbatim>\<open>show bgp rib nexthop\<close> print these rows, or report that there are
  none, whatever the traversal order of the hash map.\<close>

theorem rib_tables_exact:
  assumes "hm_ok (loc_rib rib)"
  shows "\<exists>all with_asn via_hop.
     set all = {(k, r). hm_get (loc_rib rib) k = Some r} \<and>
     set with_asn = {(k, r). hm_get (loc_rib rib) k = Some r \<and> has_asn n r} \<and>
     set via_hop = {(k, r). hm_get (loc_rib rib) k = Some r \<and> next_hop (attrs r) = Some hop} \<and>
     (\<forall>rows \<in> {all, with_asn, via_hop}. distinct rows \<and> sorted (map sort_key_of rows)) \<and>
     (\<forall>H. hash_orders H \<longrightarrow>
        process_command H Q rustc st rib m ''show bgp rib'' =
          (if all = [] then ''Loc-RIB is empty.'' @ nl else rib_head @ concat (map rib_row all)) \<and>
        process_command H Q rustc st rib m (''show bgp rib aspath '' @ show_u32 n) =
          (if with_asn = [] then ''No routes with ASN '' @ show_u32 n @ '' in AS_PATH.'' @ nl
           else ''Routes with ASN '' @ show_u32 n @ '' in AS_PATH'' @ nl @ replicate 40 (CHR 0x3D) @ nl @
             concat (map aspath_row with_asn)) \<and>
        process_command H Q rustc st rib m (''show bgp rib nexthop '' @ show_ipv4 hop) =
          (if via_hop = [] then ''No routes with next-hop '' @ show_ipv4 hop @ ''.'' @ nl
           else ''Routes via next-hop '' @ show_ipv4 hop @ nl @ replicate 40 (CHR 0x3D) @ nl @
             concat (map nexthop_row via_hop)))"
proof -
  let ?all = "loc_table (\<lambda>_. True) rib" and ?asn = "loc_table (has_asn n) rib"
  let ?hop = "loc_table (\<lambda>r. next_hop (attrs r) = Some hop) rib"
  have nil: "loc_rib rib = [] \<longleftrightarrow> ?all = []"
    unfolding loc_table_def case_prod_beta by (metis filter_True length_0_conv length_sort)
  have word: "\<forall>c \<in> set (show_u32 n). \<not> is_whitespace c" "show_u32 n \<noteq> []"
    by (auto simp: show_u32_def dest: show_nat_word)
  have hop_word: "\<forall>c \<in> set (show_ipv4 hop). \<not> is_whitespace c" by (auto dest: show_ipv4_word)
  have "process_command H Q rustc st rib m ''show bgp rib'' =
      (if ?all = [] then ''Loc-RIB is empty.'' @ nl else rib_head @ concat (map rib_row ?all))"
    if "hash_orders H" for H
    by (simp add: process_show_rib cmd_bgp_rib_def nil hash_orders.sort_routes_all [OF that assms])
  moreover have "process_command H Q rustc st rib m (''show bgp rib aspath '' @ show_u32 n) =
      (if ?asn = [] then ''No routes with ASN '' @ show_u32 n @ '' in AS_PATH.'' @ nl
       else ''Routes with ASN '' @ show_u32 n @ '' in AS_PATH'' @ nl @ replicate 40 (CHR 0x3D) @ nl @
         concat (map aspath_row ?asn))"
    if "hash_orders H" for H
    unfolding process_rib_commands(2) [OF word] cmd_bgp_rib_aspath_def
    by (simp only: parse_u32_show option.case Let_def hash_orders.sort_routes_order [OF that assms]
        hash_orders.found_Nil [OF that assms])
  moreover have "process_command H Q rustc st rib m (''show bgp rib nexthop '' @ show_ipv4 hop) =
      (if ?hop = [] then ''No routes with next-hop '' @ show_ipv4 hop @ ''.'' @ nl
       else ''Routes via next-hop '' @ show_ipv4 hop @ nl @ replicate 40 (CHR 0x3D) @ nl @
         concat (map nexthop_row ?hop))"
    if "hash_orders H" for H
    unfolding process_rib_commands(3) [OF hop_word show_ipv4_nonempty] cmd_bgp_rib_nexthop_def
    by (simp only: parse_ipv4_show option.case Let_def hash_orders.sort_routes_order [OF that assms]
        hash_orders.found_Nil [OF that assms])
  ultimately show ?thesis
    using loc_table_spec [OF assms]
    by (intro exI [of _ ?all] exI [of _ ?asn] exI [of _ ?hop]) simp
qed

theorem rib_tables_exact_witness:
  "\<exists>all. set all = {(k, r). hm_get (loc_rib one_update) k = Some r} \<and>
     process_command reverse_order (\<lambda>t. t) None MgmtState_default one_update Metrics_new ''show bgp rib'' =
       (if all = [] then ''Loc-RIB is empty.'' @ nl else rib_head @ concat (map rib_row all))"
proof -
  have "hm_ok (loc_rib one_update)" using one_update_ok by (simp add: rib_ok_def maps_ok_def)
  from rib_tables_exact [OF this, of 0 0 "\<lambda>t. t" None MgmtState_default Metrics_new] show ?thesis
    using reverse.hash_orders_axioms by blast
qed

end
