(* ===== verification/Startup.thy ===== *)
theory Startup
  imports Server Config Mgmt Handshake
begin

text \<open>
  The start of the program, \<^verbatim>\<open>src/main.rs\<close>: the command line, the settings of the daemon from the
  configuration file or from the options, and the server and the management server on one RIB and one set of
  counters.  The command line arrives parsed, as the record \<open>Cli\<close>.
\<close>

record Cli =
  cli_config :: "string option"
  cli_listen :: "SocketAddr option"
  cli_local_as :: "u32 option"
  cli_router_id :: "Ipv4Addr option"
  cli_hold_time :: "u16 option"
  cli_mgmt_socket :: string

text \<open>\<^verbatim>\<open>Option::unwrap_or\<close>\<close>

definition unwrap_or :: "'a option \<Rightarrow> 'a \<Rightarrow> 'a" where
  "unwrap_or x d = (case x of Some v \<Rightarrow> v | None \<Rightarrow> d)"

definition settings ::
    "(string \<Rightarrow> string option) \<Rightarrow> (string \<Rightarrow> Config option) \<Rightarrow> Cli \<Rightarrow>
     (ConfigError, LocalConfig \<times> SocketAddr) outcome" where
  "settings read_file parse_toml cli = (case cli_config cli of
     Some config_path \<Rightarrow>
       and_then (Config_from_file read_file parse_toml config_path) (\<lambda>cfg.
         let lc = LocalConfig_new (rc_local_as (router cfg)) (rc_router_id (router cfg));
             lc = lc\<lparr>local_hold_time := rc_hold_time (router cfg)\<rparr>;
             listen = unwrap_or (cli_listen cli) (rc_listen (router cfg))
         in Ok (lc, listen))
   | None \<Rightarrow>
       let lc = LocalConfig_new (unwrap_or (cli_local_as cli) 65000) (unwrap_or (cli_router_id cli) 0x01010101);
           lc = lc\<lparr>local_hold_time := unwrap_or (cli_hold_time cli) 90\<rparr>;
           listen = unwrap_or (cli_listen cli) \<lparr>sock_ip = V4 0, sock_port = 179\<rparr>
       in Ok (lc, listen))"

text \<open>The management server; its \<^verbatim>\<open>Arc\<close>s to the RIB and the counters are those of the server.\<close>

record MgmtServer =
  socket_path :: string
  mgmt_state :: MgmtState

definition MgmtServer_new :: "string \<Rightarrow> MgmtState \<Rightarrow> MgmtServer" where
  "MgmtServer_new path st = \<lparr>socket_path = path, mgmt_state = st\<rparr>"

definition start ::
    "'f f64_ops \<Rightarrow> (string \<Rightarrow> string option) \<Rightarrow> (string \<Rightarrow> Config option) \<Rightarrow> Cli \<Rightarrow>
     (ConfigError, 'f System \<times> MgmtServer) outcome" where
  "start F read_file parse_toml cli =
     and_then (settings read_file parse_toml cli) (\<lambda>(lc, listen).
       let srv = Server_new F listen lc Metrics_new;
           mgmt = MgmtServer_new (cli_mgmt_socket cli) MgmtState_default
       in Ok (System_new srv, mgmt))"

text \<open>
  A command on the management socket while the daemon is in state \<open>s\<close>.  No code writes to the table of peers,
  so that it is the one the program started with.
\<close>

definition query ::
    "hash_order \<Rightarrow> peer_order \<Rightarrow> string option \<Rightarrow> 'f System \<Rightarrow> MgmtServer \<Rightarrow> string \<Rightarrow> string" where
  "query H Q rustc s mgmt line =
     process_command H Q rustc (mgmt_state mgmt) (srv_rib (server s)) (srv_metrics (server s)) (trim line)"

section \<open>Lemmas\<close>

lemma start_Ok:
  "start F read_file parse_toml cli = Ok (s, mgmt) \<longleftrightarrow>
     (\<exists>lc listen. settings read_file parse_toml cli = Ok (lc, listen) \<and>
        s = System_new (Server_new F listen lc Metrics_new) \<and>
        mgmt = MgmtServer_new (cli_mgmt_socket cli) MgmtState_default)"
  by (auto simp: start_def and_then_eq_Ok_iff Let_def)

lemma settings_of_config:
  assumes "cli_config cli = Some path"
  shows "settings read_file parse_toml cli = Ok (lc, listen) \<longleftrightarrow>
     (\<exists>cfg. Config_from_file read_file parse_toml path = Ok cfg \<and>
        lc = \<lparr>local_as = rc_local_as (router cfg), router_id = rc_router_id (router cfg),
              local_hold_time = rc_hold_time (router cfg)\<rparr> \<and>
        listen = unwrap_or (cli_listen cli) (rc_listen (router cfg)))"
  using assms by (auto simp: settings_def and_then_eq_Ok_iff LocalConfig_new_def Let_def)

lemma accept_first:
  assumes "ws 0"
  shows "\<exists>p. sessions (accept B a c ws (System_new srv)) = [(p, [], False)] \<and>
     sent p = OpenMessage_serialize B (session_open (srv_local srv))"
  using assms
  by (simp add: accept_def session_start_def incoming_peer_def Peer_new_def write_all_def env_defs store_def
      System_new_def Let_def)

lemma my_as_nonzero: "local_as lc \<noteq> 0 \<Longrightarrow> my_as (session_open lc) \<noteq> 0"
  using ucast_min_u16 [of "local_as lc"] by (auto simp: min_def split: if_splits)

lemma dropWhile_hd: "xs \<noteq> [] \<Longrightarrow> \<not> P (hd xs) \<Longrightarrow> dropWhile P xs = xs"
  by (cases xs) simp_all

lemma query_prefix:
  "query H Q rustc s mgmt (''show bgp rib prefix '' @ PrefixKey_to_string k) =
     (case hm_get (loc_rib (srv_rib (server s))) k of
        Some r \<Rightarrow> route_detail (PrefixKey_to_string k) r
      | None \<Rightarrow> ''Prefix '' @ PrefixKey_to_string k @ '' not found in Loc-RIB.'' @ nl)"
proof -
  let ?line = "''show bgp rib prefix '' @ PrefixKey_to_string k"
  have "last ?line \<in> set (show_nat (unat (key_prefix_len k)))"
    by (simp add: PrefixKey_to_string_def)
  then have "\<not> is_whitespace (last ?line)" by (rule show_nat_word)
  then have "dropWhile is_whitespace (rev ?line) = rev ?line"
    by (intro dropWhile_hd) (simp_all only: hd_rev rev_is_Nil_conv, simp_all)
  moreover have "dropWhile is_whitespace ?line = ?line" by (simp add: is_whitespace_lit)
  ultimately have "trim ?line = ?line" by (simp only: trim_def rev_rev_ident)
  then show ?thesis unfolding query_def by (simp only: prefix_query)
qed

section \<open>Properties\<close>

text \<open>C22: the configuration reaches the wire.  A program started with a configuration file listens where the
  file (or \<^verbatim>\<open>--listen\<close>) says, and the first bytes it sends on a new connection are an OPEN message with the
  router identifier and hold time of the file and, as capability, its AS number, all of them valid: neither
  identifier nor AS number is zero, and the hold time is zero or at least three seconds.  Nothing else has an
  influence: any other valid configuration and command line with the same AS number, identifier, hold time and
  addresses start the same daemon, whatever their neighbors, policies and keepalive interval, and whatever
  \<^verbatim>\<open>--local-as\<close>, \<^verbatim>\<open>--router-id\<close> and \<^verbatim>\<open>--hold-time\<close> say.\<close>

theorem configured_open:
  assumes "bytes_crate B" and "cli_config cli = Some path"
    and "start F read_file parse_toml cli = Ok (s, mgmt)" and "ws 0"
  shows "\<exists>cfg p f msg. Config_from_file read_file parse_toml path = Ok cfg \<and>
     bind_addr (server s) = (case cli_listen cli of Some a \<Rightarrow> a | None \<Rightarrow> rc_listen (router cfg)) \<and>
     sessions (accept B a c ws s) = [(p, [], False)] \<and>
     BgpMessage_parse B (sent p) = Ok (Some f, []) \<and> msg_type (msg_header f) = Open \<and>
     OpenMessage_parse B (msg_body f) = Ok msg \<and> version msg = 4 \<and>
     bgp_id msg = rc_router_id (router cfg) \<and> open_hold_time msg = rc_hold_time (router cfg) \<and>
     FourOctetAsn (rc_local_as (router cfg)) \<in> set (parse_from_open_params (optional_params msg)) \<and>
     bgp_id msg \<noteq> 0 \<and> my_as msg \<noteq> 0 \<and> rc_local_as (router cfg) \<noteq> 0 \<and> hold_time_ok (open_hold_time msg) \<and>
     (\<forall>cli' read_file' parse_toml' path' cfg'. cli_config cli' = Some path' \<and>
        Config_from_file read_file' parse_toml' path' = Ok cfg' \<and> cli_listen cli' = cli_listen cli \<and>
        cli_mgmt_socket cli' = cli_mgmt_socket cli \<and> rc_local_as (router cfg') = rc_local_as (router cfg) \<and>
        rc_router_id (router cfg') = rc_router_id (router cfg) \<and> rc_hold_time (router cfg') = rc_hold_time (router cfg) \<and>
        rc_listen (router cfg') = rc_listen (router cfg) \<longrightarrow>
        start F read_file' parse_toml' cli' = Ok (s, mgmt))"
proof -
  obtain lc listen where set: "settings read_file parse_toml cli = Ok (lc, listen)"
    and s: "s = System_new (Server_new F listen lc Metrics_new)"
    and mgmt: "mgmt = MgmtServer_new (cli_mgmt_socket cli) MgmtState_default"
    using assms(3) by (auto simp: start_Ok)
  then obtain cfg where cfg: "Config_from_file read_file parse_toml path = Ok cfg"
    and lc: "lc = \<lparr>local_as = rc_local_as (router cfg), router_id = rc_router_id (router cfg),
              local_hold_time = rc_hold_time (router cfg)\<rparr>"
    and listen: "listen = unwrap_or (cli_listen cli) (rc_listen (router cfg))"
    by (auto simp: settings_of_config [OF assms(2)])
  let ?msg = "session_open lc"
  obtain p where p: "sessions (accept B a c ws s) = [(p, [], False)]" "sent p = OpenMessage_serialize B ?msg"
    using accept_first [of ws, OF assms(4), of B a c "Server_new F listen lc Metrics_new"]
    by (auto simp: s Server_new_def)
  obtain f where f: "BgpMessage_parse B (sent p) = Ok (Some f, [])" "msg_type (msg_header f) = Open"
    "OpenMessage_parse B (msg_body f) = Ok ?msg" "parse_from_open_params (optional_params ?msg) = local_caps lc"
    using open_session_framed [OF assms(1), of lc "[]"] p(2) by auto
  have valid: "rc_local_as (router cfg) \<noteq> 0" "rc_router_id (router cfg) \<noteq> 0" "hold_time_ok (rc_hold_time (router cfg))"
    using cfg unfolding config_load_iff by blast+
  have same: "\<forall>cli' read_file' parse_toml' path' cfg'. cli_config cli' = Some path' \<and>
      Config_from_file read_file' parse_toml' path' = Ok cfg' \<and> cli_listen cli' = cli_listen cli \<and>
      cli_mgmt_socket cli' = cli_mgmt_socket cli \<and> rc_local_as (router cfg') = rc_local_as (router cfg) \<and>
      rc_router_id (router cfg') = rc_router_id (router cfg) \<and> rc_hold_time (router cfg') = rc_hold_time (router cfg) \<and>
      rc_listen (router cfg') = rc_listen (router cfg) \<longrightarrow> start F read_file' parse_toml' cli' = Ok (s, mgmt)"
    by (auto simp: start_Ok settings_of_config s mgmt lc listen)
  show ?thesis
    by (intro exI [of _ cfg] exI [of _ p] exI [of _ f] exI [of _ ?msg] conjI same)
       (use cfg p(1) f valid my_as_nonzero [of lc] in
         \<open>simp_all add: s lc listen local_caps_def System_new_def Server_new_def unwrap_or_def\<close>)
qed

definition config_cli :: Cli where
  "config_cli = \<lparr>cli_config = Some ''pathforge.toml'', cli_listen = None, cli_local_as = Some 65099,
     cli_router_id = None, cli_hold_time = None, cli_mgmt_socket = ''/tmp/pathforge.sock''\<rparr>"

definition configured_system :: "real System" where
  "configured_system = System_new (Server_new real_f64 default_listen
     \<lparr>local_as = 65001, router_id = 0x0A000001, local_hold_time = 90\<rparr> Metrics_new)"

lemma start_configured:
  "start real_f64 (\<lambda>_. Some ''pathforge'') (\<lambda>_. Some sample_config) config_cli =
     Ok (configured_system, MgmtServer_new ''/tmp/pathforge.sock'' MgmtState_default)"
proof -
  have load: "Config_from_file (\<lambda>_. Some ''pathforge'') (\<lambda>_. Some sample_config) ''pathforge.toml'' = Ok sample_config"
    unfolding config_load_iff
    by (simp add: sample_config_def hold_time_ok_def neighbor_ok_def default_hold_time_def to_be_def)
  then show ?thesis
    by (simp add: start_def settings_def config_cli_def configured_system_def sample_config_def unwrap_or_def
        LocalConfig_new_def default_hold_time_def Let_def)
qed

theorem configured_open_witness:
  "\<exists>p f msg. sessions (accept documented_bytes a_peer (\<lambda>i. i) (\<lambda>_. True) configured_system) = [(p, [], False)] \<and>
     BgpMessage_parse documented_bytes (sent p) = Ok (Some f, []) \<and>
     OpenMessage_parse documented_bytes (msg_body f) = Ok msg \<and> my_as msg \<noteq> 0"
proof -
  have "cli_config config_cli = Some ''pathforge.toml''" by (simp add: config_cli_def)
  from configured_open [OF documented_bytes_ok this start_configured, of "\<lambda>_. True" a_peer "\<lambda>i. i"]
  show ?thesis by blast
qed

text \<open>C13: the operator sees the routes that the daemon has selected.  However long the daemon has run since
  the program started, with whatever peers and bytes, the command \<^verbatim>\<open>show bgp rib prefix\<close> for the text of a
  prefix reports that the prefix is not there exactly when no peer offers a route for it, and prints
  otherwise the details of a route that the named peer offers and to which no offered route is preferred.\<close>

theorem operator_sees_best_route:
  assumes "start F read_file parse_toml cli = Ok (s0, mgmt)" and "(sys_step B F)\<^sup>*\<^sup>* s0 s"
  shows "let rib = srv_rib (server s); txt = PrefixKey_to_string k;
             answer = query H Q rustc s mgmt (''show bgp rib prefix '' @ txt)
         in if \<forall>p. adj rib p k = None then answer = ''Prefix '' @ txt @ '' not found in Loc-RIB.'' @ nl
            else \<exists>r c. adj rib (peer_addr r) k = Some c \<and> r\<lparr>stale := False\<rparr> = c\<lparr>stale := False\<rparr> \<and>
                   (\<forall>p c. adj rib p k = Some c \<longrightarrow> \<not> preferred c r) \<and> answer = route_detail txt r"
proof -
  obtain lc listen where "s0 = System_new (Server_new F listen lc Metrics_new)"
    using assms(1) by (auto simp: start_Ok)
  from daemon_best [OF assms(2) [unfolded this], of k] show ?thesis
    unfolding Let_def query_prefix by (cases "hm_get (loc_rib (srv_rib (server s))) k") auto
qed

theorem operator_sees_best_route_witness:
  "query insertion_order (\<lambda>t. t) None
     (accept documented_bytes a_peer (\<lambda>i. i) (\<lambda>_. True) configured_system)
     (MgmtServer_new ''/tmp/pathforge.sock'' MgmtState_default)
     (''show bgp rib prefix '' @ PrefixKey_to_string a_key) =
   ''Prefix '' @ PrefixKey_to_string a_key @ '' not found in Loc-RIB.'' @ nl"
proof -
  let ?s = "accept documented_bytes a_peer (\<lambda>i. i) (\<lambda>_. True) configured_system"
  have "\<forall>p. adj (srv_rib (server ?s)) p a_key = None"
    by (simp add: accept_def store_def configured_system_def System_new_def Server_new_def Rib_new_def
        Rib_default_def adj_def Let_def case_prod_beta)
  moreover have "(sys_step documented_bytes real_f64)\<^sup>*\<^sup>* configured_system ?s"
    by (rule r_into_rtranclp) (rule sys_step.accepted)
  ultimately show ?thesis
    using operator_sees_best_route [OF start_configured, of documented_bytes ?s a_key] unfolding Let_def by metis
qed

end
