(* ===== verification/Program.thy ===== *)
theory Program
  imports Startup
begin

text \<open>
  The program as a whole: the daemon of \<^verbatim>\<open>server.rs\<close> and the management server of \<^verbatim>\<open>mgmt.rs\<close>, whose
  \<^verbatim>\<open>run\<close> is a task of its own with one further task for each connection.  The management connections read the
  shared RIB and counters while the daemon goes on; the lemmas show that they never disturb it and what their
  transcripts consist of.  All counters that an answer shows are read at one time in the model.
\<close>

section \<open>State\<close>

record mgmt_conn =
  conn_out :: string
  conn_live :: bool

text \<open>\<^verbatim>\<open>run\<close> of the management server before its \<^verbatim>\<open>bind\<close>, in its loop, and after a failed \<^verbatim>\<open>bind\<close>.\<close>

datatype mgmt_task = Binding | Listening | Stopped

record 'f Program =
  prog_daemon :: "'f System"
  prog_mgmt :: MgmtServer
  prog_task :: mgmt_task
  prog_conns :: "mgmt_conn list"

definition Program_new :: "'f System \<Rightarrow> MgmtServer \<Rightarrow> 'f Program" where
  "Program_new s mgmt = \<lparr>prog_daemon = s, prog_mgmt = mgmt, prog_task = Binding, prog_conns = []\<rparr>"

section \<open>Operations\<close>

text \<open>The \<^verbatim>\<open>bind\<close> of \<^verbatim>\<open>MgmtServer::run\<close>: when it fails the task ends and the daemon goes on.\<close>

definition mgmt_bind :: "bool \<Rightarrow> 'f Program \<Rightarrow> 'f Program" where
  "mgmt_bind bound P =
     (if prog_task P = Binding then P\<lparr>prog_task := (if bound then Listening else Stopped)\<rparr> else P)"

text \<open>An accepted connection writes its greeting; \<open>ok\<close> tells whether that succeeds.\<close>

definition mgmt_accept :: "string option \<Rightarrow> bool \<Rightarrow> 'f Program \<Rightarrow> 'f Program" where
  "mgmt_accept rustc ok P =
     (if prog_task P = Listening then
        let (r, out) = handle_mgmt_conn rustc (\<lambda>_. ok) ([] :: 'f mgmt_line list)
        in P\<lparr>prog_conns := prog_conns P @ [\<lparr>conn_out = out, conn_live = (r = Ok ())\<rparr>]\<rparr>
      else P)"

text \<open>What a connection works on when it handles a line: the shared state as it is then.\<close>

definition snapshot :: "MgmtServer \<Rightarrow> hash_order \<times> peer_order \<times> 'f System \<times> string \<Rightarrow> 'f mgmt_line" where
  "snapshot mgmt = (\<lambda>(H, Q, s, line). (H, Q, mgmt_state mgmt, srv_rib (server s), srv_metrics (server s), line))"

text \<open>One pass of the loop of \<^verbatim>\<open>handle_mgmt_conn\<close>.\<close>

definition mgmt_answer ::
    "string option \<Rightarrow> hash_order \<Rightarrow> peer_order \<Rightarrow> (nat \<Rightarrow> bool) \<Rightarrow> string \<Rightarrow> nat \<Rightarrow> 'f Program \<Rightarrow> 'f Program" where
  "mgmt_answer rustc H Q ws line i P =
     (if i < length (prog_conns P) \<and> conn_live (prog_conns P ! i) then
        let (r, out) = answer_lines rustc ws [snapshot (prog_mgmt P) (H, Q, prog_daemon P, line)]
              (conn_out (prog_conns P ! i))
        in P\<lparr>prog_conns := (prog_conns P)[i := \<lparr>conn_out = out, conn_live = (r = Ok ())\<rparr>]\<rparr>
      else P)"

text \<open>The end of the lines, or a line that cannot be read.\<close>

definition mgmt_hang_up :: "nat \<Rightarrow> 'f Program \<Rightarrow> 'f Program" where
  "mgmt_hang_up i P =
     (if i < length (prog_conns P)
      then P\<lparr>prog_conns := (prog_conns P)[i := (prog_conns P ! i)\<lparr>conn_live := False\<rparr>]\<rparr> else P)"

inductive program_step ::
    "bytes_ops \<Rightarrow> 'f f64_ops \<Rightarrow> string option \<Rightarrow> 'f Program \<Rightarrow> 'f Program \<Rightarrow> bool" for B F rustc where
  ran: "sys_step B F (prog_daemon P) s \<Longrightarrow> program_step B F rustc P (P\<lparr>prog_daemon := s\<rparr>)"
| bound: "program_step B F rustc P (mgmt_bind ok P)"
| connected: "program_step B F rustc P (mgmt_accept rustc ok P)"
| answered: "program_step B F rustc P (mgmt_answer rustc H Q ws line i P)"
| hung_up: "program_step B F rustc P (mgmt_hang_up i P)"

inductive_cases program_stepE: "program_step B F rustc P P'"

section \<open>Transcripts\<close>

text \<open>\<open>visits step s us t\<close>: a run from \<open>s\<close> to \<open>t\<close> passes through the states \<open>us\<close> in this order.\<close>

primrec visits :: "('s \<Rightarrow> 's \<Rightarrow> bool) \<Rightarrow> 's \<Rightarrow> 's list \<Rightarrow> 's \<Rightarrow> bool" where
  "visits step s [] t = step\<^sup>*\<^sup>* s t"
| "visits step s (u # us) t = (step\<^sup>*\<^sup>* s u \<and> visits step u us t)"

lemma visits_run: "visits step s us t \<Longrightarrow> step\<^sup>*\<^sup>* s t"
  by (induction us arbitrary: s) (auto intro: rtranclp_trans)

lemma visits_on: "visits step s us t \<Longrightarrow> step\<^sup>*\<^sup>* t t' \<Longrightarrow> visits step s us t'"
  by (induction us arbitrary: s) (auto intro: rtranclp_trans)

lemma visits_here: "visits step s us t \<Longrightarrow> visits step s (us @ [t]) t"
  by (induction us arbitrary: s) auto

text \<open>A list of lines uses two results of writes for each of them.\<close>

lemma answer_lines_cong:
  "(\<And>i. i < 2 * length ls \<Longrightarrow> ws i = ws' i) \<Longrightarrow> answer_lines rustc ws ls out = answer_lines rustc ws' ls out"
proof (induction ls arbitrary: ws ws' out)
  case (Cons l ls)
  have "answer_lines rustc (\<lambda>i. ws (i + 2)) ls o2 = answer_lines rustc (\<lambda>i. ws' (i + 2)) ls o2" for o2
    by (rule Cons.IH) (simp add: Cons.prems)
  then show ?case using Cons.prems [of 0] Cons.prems [of 1] by (cases l) (simp add: Let_def)
qed simp

lemma answer_lines_append:
  "answer_lines rustc ws ls out = (Ok (), out') \<Longrightarrow>
   answer_lines rustc ws (ls @ ls') out = answer_lines rustc (\<lambda>i. ws (i + 2 * length ls)) ls' out'"
proof (induction ls arbitrary: ws out)
  case (Cons l ls)
  then show ?case
    by (cases l) (auto simp: Let_def algebra_simps numeral_eq_Suc split: if_splits)
qed simp

text \<open>A connection that goes on with one more line.\<close>

lemma conn_append:
  assumes "handle_mgmt_conn rustc ws ls = (Ok (), out)"
  shows "\<exists>ws''. handle_mgmt_conn rustc ws'' (ls @ [l]) = answer_lines rustc ws' [l] out"
proof -
  let ?n = "2 * length ls"
  let ?ws = "\<lambda>i. if i \<le> ?n then ws i else ws' (i - Suc ?n)"
  let ?greeting = "''PathForge BGP Management'' @ nl @ ''> ''"
  have ws0: "ws 0" and ans: "answer_lines rustc (\<lambda>i. ws (Suc i)) ls ?greeting = (Ok (), out)"
    using assms by (auto simp: handle_mgmt_conn_def split: if_splits)
  have "answer_lines rustc (\<lambda>i. ?ws (Suc i)) ls ?greeting = answer_lines rustc (\<lambda>i. ws (Suc i)) ls ?greeting"
    by (rule answer_lines_cong) auto
  then have "answer_lines rustc (\<lambda>i. ?ws (Suc i)) (ls @ [l]) ?greeting =
      answer_lines rustc (\<lambda>i. ?ws (Suc (i + ?n))) [l] out"
    using ans by (intro answer_lines_append) (simp only:)
  also have "\<dots> = answer_lines rustc ws' [l] out"
    by (rule answer_lines_cong) simp
  finally have "handle_mgmt_conn rustc ?ws (ls @ [l]) = answer_lines rustc ws' [l] out"
    using ws0 by (simp add: handle_mgmt_conn_def)
  then show ?thesis by blast
qed

section \<open>The invariant\<close>

text \<open>The transcript of a connection is that of \<^verbatim>\<open>handle_mgmt_conn\<close> on states of the daemon in the order of its run.\<close>

definition transcript ::
    "('f System \<Rightarrow> 'f System \<Rightarrow> bool) \<Rightarrow> string option \<Rightarrow> 'f System \<Rightarrow> MgmtServer \<Rightarrow> 'f System \<Rightarrow> mgmt_conn \<Rightarrow> bool" where
  "transcript step rustc s0 mgmt s c \<longleftrightarrow>
     (\<exists>ws visited r. visits step s0 (map (\<lambda>(H, Q, u, line). u) visited) s \<and>
        handle_mgmt_conn rustc ws (map (snapshot mgmt) visited) = (r, conn_out c) \<and> (conn_live c \<longrightarrow> r = Ok ()))"

definition program_ok :: "bytes_ops \<Rightarrow> 'f f64_ops \<Rightarrow> string option \<Rightarrow> 'f System \<Rightarrow> MgmtServer \<Rightarrow> 'f Program \<Rightarrow> bool" where
  "program_ok B F rustc s0 mgmt P \<longleftrightarrow>
     (sys_step B F)\<^sup>*\<^sup>* s0 (prog_daemon P) \<and> prog_mgmt P = mgmt \<and>
     (\<forall>c \<in> set (prog_conns P). transcript (sys_step B F) rustc s0 mgmt (prog_daemon P) c)"

lemma transcript_on:
  "transcript step rustc s0 mgmt s c \<Longrightarrow> step s s' \<Longrightarrow> transcript step rustc s0 mgmt s' c"
  unfolding transcript_def by (blast intro: visits_on)

lemma transcript_greeting:
  assumes "step\<^sup>*\<^sup>* s0 s" and "handle_mgmt_conn rustc (\<lambda>_. ok) ([] :: 'f mgmt_line list) = (r, out)"
  shows "transcript step rustc s0 mgmt (s :: 'f System) \<lparr>conn_out = out, conn_live = (r = Ok ())\<rparr>"
  unfolding transcript_def using assms
  by (intro exI [of _ "\<lambda>_. ok"] exI [of _ "[]"] exI [of _ r]) simp

lemma transcript_answer:
  assumes "transcript step rustc s0 mgmt s c" and "conn_live c"
    and "answer_lines rustc ws [snapshot mgmt (H, Q, s, line)] (conn_out c) = (r, out)"
  shows "transcript step rustc s0 mgmt s \<lparr>conn_out = out, conn_live = (r = Ok ())\<rparr>"
proof -
  obtain ws0 visited where v: "visits step s0 (map (\<lambda>(H, Q, u, line). u) visited) s"
    and h: "handle_mgmt_conn rustc ws0 (map (snapshot mgmt) visited) = (Ok (), conn_out c)"
    using assms(1,2) by (auto simp: transcript_def)
  from conn_append [OF h] obtain ws' where
    "handle_mgmt_conn rustc ws' (map (snapshot mgmt) visited @ [snapshot mgmt (H, Q, s, line)]) = (r, out)"
    using assms(3) by metis
  with visits_here [OF v] show ?thesis
    unfolding transcript_def
    by (intro exI [of _ ws'] exI [of _ "visited @ [(H, Q, s, line)]"] exI [of _ r]) simp
qed

lemma transcript_ended: "transcript step rustc s0 mgmt s c \<Longrightarrow> transcript step rustc s0 mgmt s (c\<lparr>conn_live := False\<rparr>)"
  by (auto simp: transcript_def)

lemma in_set_update: "x \<in> set (xs[i := y]) \<Longrightarrow> x = y \<or> x \<in> set xs"
  using set_update_subset_insert [of xs i y] by auto

interpretation program: state_machine "\<lambda>P. P = Program_new s0 mgmt" "program_step B F rustc"
    "program_ok B F rustc s0 mgmt"
  for B rustc s0 mgmt and F :: "'f f64_ops"
proof
  show "program_ok B F rustc s0 mgmt P" if "P = Program_new s0 mgmt" for P
    using that by (simp add: program_ok_def Program_new_def)
  show "program_ok B F rustc s0 mgmt P'"
    if ok: "program_ok B F rustc s0 mgmt P" and step: "program_step B F rustc P P'" for P P' :: "'f Program"
    using step
  proof cases
    case (ran s)
    then show ?thesis
      using ok by (auto simp: program_ok_def intro: transcript_on rtranclp.rtrancl_into_rtrancl)
  next
    case (bound b)
    then show ?thesis using ok by (simp add: program_ok_def mgmt_bind_def)
  next
    case (connected b)
    then show ?thesis
      using ok transcript_greeting [of "sys_step B F" s0 "prog_daemon P" rustc b]
      by (auto simp: program_ok_def mgmt_accept_def split: prod.split)
  next
    case (answered H Q ws line i)
    then show ?thesis
      using ok transcript_answer [of "sys_step B F" rustc s0 mgmt "prog_daemon P" "prog_conns P ! i" ws H Q line]
      by (auto simp: program_ok_def mgmt_answer_def simp del: answer_lines.simps split: prod.split dest!: in_set_update)
  next
    case (hung_up i)
    then show ?thesis
      using ok by (auto simp: program_ok_def mgmt_hang_up_def dest!: in_set_update intro: transcript_ended)
  qed
qed

section \<open>The program and its daemon\<close>

text \<open>The management interface only observes: the daemon is in a state that it can reach alone, and what a
  connection has written is the transcript of \<^verbatim>\<open>handle_mgmt_conn\<close> with every line answered from a state that the
  daemon has been in, and these states in the order in which the daemon went through them.\<close>

lemma management_observes:
  assumes "start F read_file parse_toml cli = Ok (s0, mgmt)"
    and "(program_step B F rustc)\<^sup>*\<^sup>* (Program_new s0 mgmt) P"
  shows "(sys_step B F)\<^sup>*\<^sup>* s0 (prog_daemon P) \<and>
    (\<forall>c \<in> set (prog_conns P). \<exists>ws visited.
       visits (sys_step B F) s0 (map (\<lambda>(H, Q, s, line). s) visited) (prog_daemon P) \<and>
       conn_out c = snd (handle_mgmt_conn rustc ws (map (snapshot mgmt) visited)))"
proof -
  have "program_ok B F rustc s0 mgmt P" using assms(2) by (rule program.reachable_inv [OF refl])
  then show ?thesis unfolding program_ok_def transcript_def by (metis snd_conv)
qed

lemma program_runs:
  assumes "(sys_step B F)\<^sup>*\<^sup>* (prog_daemon P) s"
  shows "(program_step B F rustc)\<^sup>*\<^sup>* P (P\<lparr>prog_daemon := s\<rparr>)"
  using assms
proof (induction rule: rtranclp_induct)
  case base
  then show ?case by simp
next
  case (step s t)
  have "program_step B F rustc (P\<lparr>prog_daemon := s\<rparr>) (P\<lparr>prog_daemon := s, prog_daemon := t\<rparr>)"
    using step(2) by (intro program_step.ran) simp
  with step(3) show ?case by simp
qed

text \<open>A line on a live connection whose writes succeed is answered with the text of its command.\<close>

lemma answered_query:
  assumes "i < length (prog_conns P)" and "conn_live (prog_conns P ! i)" and "ws 0" and "ws 1"
  shows "prog_conns (mgmt_answer rustc H Q ws line i P) ! i =
    \<lparr>conn_out = conn_out (prog_conns P ! i) @ query H Q rustc (prog_daemon P) (prog_mgmt P) line @ nl @ ''> '',
     conn_live = True\<rparr>"
  using assms by (simp add: mgmt_answer_def snapshot_def query_def Let_def)

end
