(* ===== verification/Fuzz.thy ===== *)
theory Fuzz
  imports Open_Message Mp
begin

text \<open>
  The fuzz targets, \<^verbatim>\<open>fuzz/fuzz_targets\<close>.  A target copies the data of the fuzzer into a buffer, calls one
  parser and drops its result, so that a run of it ends normally unless the parser panics or does not end.
\<close>

definition dropped :: "('e, 'a) outcome \<Rightarrow> ('e, unit) outcome" where
  "dropped r = (case r of Ok _ \<Rightarrow> Ok () | Err _ \<Rightarrow> Ok () | Panic \<Rightarrow> Panic | NoFuel \<Rightarrow> NoFuel)"

definition fuzz_bgp_message :: "bytes_ops \<Rightarrow> u8 list \<Rightarrow> (MessageError, unit) outcome" where
  "fuzz_bgp_message B data = dropped (BgpMessage_parse B data)"

definition fuzz_open_message :: "bytes_ops \<Rightarrow> u8 list \<Rightarrow> (MessageError, unit) outcome" where
  "fuzz_open_message B data = dropped (OpenMessage_parse B data)"

definition fuzz_update_message :: "bytes_ops \<Rightarrow> u8 list \<Rightarrow> (MessageError, unit) outcome" where
  "fuzz_update_message B data = dropped (UpdateMessage_parse B data)"

definition fuzz_path_attrs :: "bytes_ops \<Rightarrow> u8 list \<Rightarrow> (AttrError, unit) outcome" where
  "fuzz_path_attrs B data = dropped (PathAttributes_parse B data)"

lemma dropped_Ok [simp]: "dropped r = Ok () \<longleftrightarrow> returns r"
  by (cases r) (simp_all add: dropped_def)

lemma dropped_Panic [simp]: "dropped r = Panic \<longleftrightarrow> r = Panic"
  by (cases r) (simp_all add: dropped_def)

text \<open>C36: what the fuzz targets look for.  The targets of the framing, of OPEN and of the path attributes
  end normally on every input, and so would targets of the parsers of NOTIFICATION and MP_UNREACH_NLRI, which
  have none.  The target of UPDATE ends normally on every input on which it does not panic, and such an input
  has at least four bytes of which at most one follows the withdrawn routes.  A target of MP_REACH_NLRI would
  end too, and would panic exactly when both families are known and the attribute ends with its next hops, so
  that the SNPA octet, which is read unchecked, is missing.\<close>

theorem parsers_return:
  assumes "bytes_crate B"
  shows "fuzz_bgp_message B data = Ok () \<and> fuzz_open_message B data = Ok () \<and> fuzz_path_attrs B data = Ok () \<and>
         returns (NotificationMessage_parse B data) \<and> returns (MpUnreachNlri_parse B data) \<and>
         (fuzz_update_message B data = Ok () \<or>
          fuzz_update_message B data = Panic \<and> 4 \<le> length data \<and> withdrawn_len data + 2 \<le> length data \<and>
          length data < withdrawn_len data + 4) \<and>
         dropped (MpReachNlri_parse B data) =
           (if 4 \<le> length data \<and> (\<exists>fam. Afi_try_from (from_be (take 2 data)) = Ok fam) \<and>
               (\<exists>sub. Safi_try_from (data ! 2) = Ok sub) \<and> length data = 4 + unat (data ! 3)
            then Panic else Ok ())"
proof -
  have "fuzz_update_message B data = Ok () \<or>
      fuzz_update_message B data = Panic \<and> 4 \<le> length data \<and> withdrawn_len data + 2 \<le> length data \<and>
      length data < withdrawn_len data + 4"
    using bytes_crate.UpdateMessage_parse_outcome [OF assms, of data]
    by (cases "UpdateMessage_parse B data") (simp_all add: fuzz_update_message_def dropped_def)
  moreover have "dropped (MpReachNlri_parse B data) =
      (if 4 \<le> length data \<and> (\<exists>fam. Afi_try_from (from_be (take 2 data)) = Ok fam) \<and>
          (\<exists>sub. Safi_try_from (data ! 2) = Ok sub) \<and> length data = 4 + unat (data ! 3)
       then Panic else Ok ())"
    using mp_reach_parse_panics_iff [OF assms, of data] by (cases "MpReachNlri_parse B data") (auto simp: dropped_def)
  ultimately show ?thesis
    by (simp add: fuzz_bgp_message_def fuzz_open_message_def fuzz_path_attrs_def
        bytes_crate.returns_BgpMessage_parse [OF assms] bytes_crate.returns_OpenMessage_parse [OF assms]
        bytes_crate.returns_NotificationMessage_parse [OF assms] bytes_crate.returns_PathAttributes_parse [OF assms]
        bytes_crate.returns_MpUnreachNlri_parse [OF assms])
qed

theorem parsers_return_witness:
  "fuzz_open_message documented_bytes [4, 255, 255, 0, 90] = Ok () \<and>
   fuzz_path_attrs documented_bytes [4, 255, 255, 0, 90] = Ok () \<and>
   fuzz_update_message documented_bytes [] = Ok () \<and> MpReachNlri_parse documented_bytes [0, 1, 1, 0] = Panic"
  using parsers_return [OF documented_bytes_ok, of "[4, 255, 255, 0, 90]"] parsers_return [OF documented_bytes_ok, of "[]"]
    parsers_return [OF documented_bytes_ok, of "[0, 1, 1, 0]"]
  by (simp add: Afi_try_from_def Safi_try_from_def from_be_def)

end
