(* ===== verification/Unit_Tests_Wire.thy ===== *)
theory Unit_Tests_Wire
  imports Mp Open_Message
begin

text \<open>
  The unit tests of the codecs, translated: each test is a truth value, and the lemma after it shows that the
  test passes on the model.  The \<^verbatim>\<open>bytes\<close> crate is \<open>documented_bytes\<close>.
\<close>

text \<open>\<^verbatim>\<open>unwrap()\<close> followed by assertions.\<close>

definition unwrapped :: "('e, 'a) outcome \<Rightarrow> ('a \<Rightarrow> bool) \<Rightarrow> bool" where
  "unwrapped r P = (case r of Ok a \<Rightarrow> P a | _ \<Rightarrow> False)"

section \<open>Framing\<close>

definition test_header_roundtrip :: bool where
  "test_header_roundtrip =
     (let hdr = Header_new Keepalive 0; buf = Header_serialize documented_bytes hdr []
      in length buf = HEADER_LEN \<and>
         unwrapped (Header_parse documented_bytes buf) (\<lambda>(parsed, _).
           msg_type parsed = Keepalive \<and> hdr_length parsed = of_nat HEADER_LEN))"

lemma test_header_roundtrip_passes: test_header_roundtrip
  by code_simp

definition test_invalid_marker :: bool where
  "test_invalid_marker = (Header_parse documented_bytes (replicate 19 0) = Err InvalidMarker)"

lemma test_invalid_marker_passes: test_invalid_marker
  by code_simp

definition test_keepalive_serialize :: bool where
  "test_keepalive_serialize =
     (let bytes = KeepaliveMessage_serialize documented_bytes
      in length bytes = HEADER_LEN \<and>
         unwrapped (Header_parse documented_bytes bytes) (\<lambda>(hdr, _).
           msg_type hdr = Keepalive \<and> hdr_length hdr = of_nat HEADER_LEN))"

lemma test_keepalive_serialize_passes: test_keepalive_serialize
  by code_simp

section \<open>OPEN, NOTIFICATION and ROUTE-REFRESH\<close>

definition test_open_roundtrip :: bool where
  "test_open_roundtrip =
     (let serialized = OpenMessage_serialize documented_bytes (OpenMessage_new 65001 90 0x0A000001)
      in unwrapped (OpenMessage_parse documented_bytes (drop HEADER_LEN serialized)) (\<lambda>parsed.
           version parsed = 4 \<and> my_as parsed = 65001 \<and> open_hold_time parsed = 90 \<and> bgp_id parsed = 0x0A000001))"

lemma test_open_roundtrip_passes: test_open_roundtrip
  by code_simp

definition test_open_with_optional_param :: bool where
  "test_open_with_optional_param =
     (let msg = OpenMessage_new 65000 180 0x01010101;
          msg = msg\<lparr>optional_params := optional_params msg @ [\<lparr>param_type = 2, param_value = [1, 4, 0, 1, 0, 1]\<rparr>]\<rparr>;
          serialized = OpenMessage_serialize documented_bytes msg
      in unwrapped (OpenMessage_parse documented_bytes (drop HEADER_LEN serialized)) (\<lambda>parsed.
           length (optional_params parsed) = 1 \<and> param_type (optional_params parsed ! 0) = 2))"

lemma test_open_with_optional_param_passes: test_open_with_optional_param
  by code_simp

definition test_notification_roundtrip :: bool where
  "test_notification_roundtrip =
     (let serialized = NotificationMessage_serialize documented_bytes
            (NotificationMessage_new HoldTimerExpiredError 0)
      in unwrapped (NotificationMessage_parse documented_bytes (drop HEADER_LEN serialized)) (\<lambda>parsed.
           error_code parsed = ErrorCode_code HoldTimerExpiredError \<and> error_subcode parsed = 0))"

lemma test_notification_roundtrip_passes: test_notification_roundtrip
  by code_simp

definition test_cease_notification :: bool where
  "test_cease_notification =
     (length (NotificationMessage_serialize documented_bytes NotificationMessage_cease) = HEADER_LEN + 2)"

lemma test_cease_notification_passes: test_cease_notification
  by code_simp

definition test_route_refresh_ipv4_unicast :: bool where
  "test_route_refresh_ipv4_unicast =
     (let bytes = RouteRefresh_serialize documented_bytes (RouteRefresh_new 1 1)
      in bytes ! 18 = 5 \<and>
         (case RouteRefresh_parse (drop 19 bytes) of
            Some parsed \<Rightarrow> rr_afi parsed = 1 \<and> rr_safi parsed = 1 | None \<Rightarrow> False))"

lemma test_route_refresh_ipv4_unicast_passes: test_route_refresh_ipv4_unicast
  by code_simp

definition test_route_refresh_ipv6_unicast :: bool where
  "test_route_refresh_ipv6_unicast =
     (let bytes = RouteRefresh_serialize documented_bytes (RouteRefresh_new 2 1)
      in RouteRefresh_parse (drop 19 bytes) = Some \<lparr>rr_afi = 2, rr_safi = 1\<rparr>)"

lemma test_route_refresh_ipv6_unicast_passes: test_route_refresh_ipv6_unicast
  by code_simp

definition test_route_refresh_too_short :: bool where
  "test_route_refresh_too_short = (RouteRefresh_parse [1, 0, 0] = None)"

lemma test_route_refresh_too_short_passes: test_route_refresh_too_short
  by code_simp

section \<open>Capabilities\<close>

definition test_route_refresh_roundtrip :: bool where
  "test_route_refresh_roundtrip = (Capability_to_bytes RouteRefreshCap = [2, 0])"

lemma test_route_refresh_roundtrip_passes: test_route_refresh_roundtrip
  by code_simp

definition test_four_octet_asn_roundtrip :: bool where
  "test_four_octet_asn_roundtrip =
     (let bytes = Capability_to_bytes (FourOctetAsn 131072)
      in bytes = [65, 4, 0, 2, 0, 0] \<and> Capability_parse_one 65 (drop 2 bytes) = FourOctetAsn 131072)"

lemma test_four_octet_asn_roundtrip_passes: test_four_octet_asn_roundtrip
  by code_simp

definition test_multiprotocol_ipv6 :: bool where
  "test_multiprotocol_ipv6 =
     (let bytes = Capability_to_bytes (MultiProtocol 2 1)
      in bytes ! 0 = 1 \<and> Capability_parse_one 1 (drop 2 bytes) = MultiProtocol 2 1)"

lemma test_multiprotocol_ipv6_passes: test_multiprotocol_ipv6
  by code_simp

definition test_graceful_restart :: bool where
  "test_graceful_restart =
     (let bytes = Capability_to_bytes (GracefulRestart 120 8)
      in case Capability_parse_one 64 (drop 2 bytes) of GracefulRestart t _ \<Rightarrow> t = 120 | _ \<Rightarrow> False)"

lemma test_graceful_restart_passes: test_graceful_restart
  by code_simp

definition test_build_capabilities_block :: bool where
  "test_build_capabilities_block =
     (let block = build_capabilities [RouteRefreshCap, FourOctetAsn 65001];
          parsed = parse_optional_params (drop 1 block)
      in 2 < length block \<and> RouteRefreshCap \<in> set parsed \<and> FourOctetAsn 65001 \<in> set parsed)"

lemma test_build_capabilities_block_passes: test_build_capabilities_block
  by code_simp

definition test_unknown_capability :: bool where
  "test_unknown_capability =
     (case Capability_parse_one 99 [0xAA, 0xBB] of UnknownCap code _ \<Rightarrow> code = 99 | _ \<Rightarrow> False)"

lemma test_unknown_capability_passes: test_unknown_capability
  by code_simp

definition test_display :: bool where
  "test_display \<longleftrightarrow> Capability_to_string RouteRefreshCap = ''RouteRefresh'' \<and>
     Capability_to_string (FourOctetAsn 65000) = ''4-byte-ASN(65000)''"

lemma test_display_passes: test_display
  by (simp add: test_display_def show_nat.simps digit_char_def) code_simp

section \<open>Path attributes\<close>

definition attrs_roundtripped :: "PathAttributes \<Rightarrow> (PathAttributes \<Rightarrow> bool) \<Rightarrow> bool" where
  "attrs_roundtripped a = unwrapped (PathAttributes_parse documented_bytes (PathAttributes_serialize documented_bytes a))"

definition test_origin_roundtrip :: bool where
  "test_origin_roundtrip =
     attrs_roundtripped (PathAttributes_default\<lparr>origin := Some Igp\<rparr>) (\<lambda>parsed. origin parsed = Some Igp)"

lemma test_origin_roundtrip_passes: test_origin_roundtrip
  by code_simp

definition test_as_path_roundtrip :: bool where
  "test_as_path_roundtrip =
     attrs_roundtripped (PathAttributes_default\<lparr>as_path := [AsSequence [65001, 65002, 65003]]\<rparr>) (\<lambda>parsed.
       length (as_path parsed) = 1 \<and> as_numbers (as_path parsed ! 0) = [65001, 65002, 65003] \<and>
       as_path_len parsed = 3)"

lemma test_as_path_roundtrip_passes: test_as_path_roundtrip
  by code_simp

definition test_next_hop_roundtrip :: bool where
  "test_next_hop_roundtrip =
     attrs_roundtripped (PathAttributes_default\<lparr>next_hop := Some 0xC0000201\<rparr>) (\<lambda>parsed.
       next_hop parsed = Some 0xC0000201)"

lemma test_next_hop_roundtrip_passes: test_next_hop_roundtrip
  by code_simp

definition test_med_local_pref :: bool where
  "test_med_local_pref =
     attrs_roundtripped (PathAttributes_default\<lparr>multi_exit_disc := Some 100, local_pref := Some 200\<rparr>) (\<lambda>parsed.
       multi_exit_disc parsed = Some 100 \<and> local_pref parsed = Some 200)"

lemma test_med_local_pref_passes: test_med_local_pref
  by code_simp

definition test_communities :: bool where
  "test_communities =
     attrs_roundtripped (PathAttributes_default\<lparr>communities := [Community 0x00010002, NO_EXPORT]\<rparr>) (\<lambda>parsed.
       length (communities parsed) = 2 \<and> communities parsed ! 1 = NO_EXPORT \<and>
       Community_asn (communities parsed ! 0) = 1 \<and> Community_value (communities parsed ! 0) = 2)"

lemma test_communities_passes: test_communities
  by code_simp

definition test_full_attributes :: bool where
  "test_full_attributes =
     attrs_roundtripped (PathAttributes_default\<lparr>origin := Some Egp,
         as_path := [AsSequence [65000, 65001], AsSet [65002, 65003]], next_hop := Some 0x0A000001,
         multi_exit_disc := Some 50, local_pref := Some 100, atomic_aggregate := True,
         communities := [NO_EXPORT]\<rparr>) (\<lambda>parsed.
       origin parsed = Some Egp \<and> length (as_path parsed) = 2 \<and> as_path_len parsed = 3 \<and>
       atomic_aggregate parsed \<and> communities parsed ! 0 = NO_EXPORT)"

lemma test_full_attributes_passes: test_full_attributes
  by code_simp

section \<open>UPDATE\<close>

definition update_roundtripped :: "UpdateMessage \<Rightarrow> (UpdateMessage \<Rightarrow> bool) \<Rightarrow> bool" where
  "update_roundtripped msg =
     unwrapped (and_then (UpdateMessage_serialize documented_bytes msg) (\<lambda>serialized.
       UpdateMessage_parse documented_bytes (drop HEADER_LEN serialized)))"

definition test_prefix_roundtrip :: bool where
  "test_prefix_roundtrip =
     unwrapped (Prefix_serialize documented_bytes (Prefix_new 0xC0A80100 24) [] :: (MessageError, _) outcome) (\<lambda>buf.
       length buf = 4 \<and> unwrapped (Prefix_parse documented_bytes buf) (\<lambda>(parsed, _).
         prefix_len parsed = 24 \<and> address parsed = 0xC0A80100))"

lemma test_prefix_roundtrip_passes: test_prefix_roundtrip
  by code_simp

definition test_update_empty_roundtrip :: bool where
  "test_update_empty_roundtrip =
     update_roundtripped UpdateMessage_new (\<lambda>parsed. withdrawn_routes parsed = [] \<and> nlri parsed = [])"

lemma test_update_empty_roundtrip_passes: test_update_empty_roundtrip
  by code_simp

definition test_update_with_attrs_and_nlri :: bool where
  "test_update_with_attrs_and_nlri =
     (let a = (path_attributes UpdateMessage_new)\<lparr>origin := Some Igp, as_path := [AsSequence [65000, 65001]],
            next_hop := Some 0x0A000001, local_pref := Some 100\<rparr>;
          msg = UpdateMessage_new\<lparr>path_attributes := a, nlri := [Prefix_new 0x0A000000 8, Prefix_new 0xAC100000 12]\<rparr>
      in update_roundtripped msg (\<lambda>parsed.
           length (nlri parsed) = 2 \<and> origin (path_attributes parsed) = Some Igp \<and>
           local_pref (path_attributes parsed) = Some 100 \<and> as_path_len (path_attributes parsed) = 2))"

lemma test_update_with_attrs_and_nlri_passes: test_update_with_attrs_and_nlri
  by code_simp

definition test_withdrawn_routes :: bool where
  "test_withdrawn_routes =
     update_roundtripped (UpdateMessage_new\<lparr>withdrawn_routes := [Prefix_new 0xC0A80000 16]\<rparr>) (\<lambda>parsed.
       length (withdrawn_routes parsed) = 1 \<and> prefix_len (withdrawn_routes parsed ! 0) = 16)"

lemma test_withdrawn_routes_passes: test_withdrawn_routes
  by code_simp

section \<open>Multiprotocol extensions\<close>

definition mp_prefix_roundtripped :: "MpPrefix \<Rightarrow> Afi \<Rightarrow> (MpPrefix \<Rightarrow> bool) \<Rightarrow> bool" where
  "mp_prefix_roundtripped p afi P =
     unwrapped (MpPrefix_serialize documented_bytes p [] :: (MpError, _) outcome) (\<lambda>buf.
       unwrapped (MpPrefix_parse documented_bytes afi buf) (\<lambda>(parsed, _). P parsed))"

definition test_mp_prefix_ipv4_roundtrip :: bool where
  "test_mp_prefix_ipv4_roundtrip =
     mp_prefix_roundtripped (MpPrefix_ipv4 0x0A000000 8) Ipv4 (\<lambda>parsed.
       mp_prefix_len parsed = 8 \<and> mp_address parsed = V4 0x0A000000)"

lemma test_mp_prefix_ipv4_roundtrip_passes: test_mp_prefix_ipv4_roundtrip
  by code_simp

definition test_mp_prefix_ipv6_roundtrip :: bool where
  "test_mp_prefix_ipv6_roundtrip =
     (let a = 0x20010DB8000000000000000000000000
      in mp_prefix_roundtripped (MpPrefix_ipv6 a 32) Ipv6 (\<lambda>parsed.
           mp_prefix_len parsed = 32 \<and> mp_address parsed = V6 a))"

lemma test_mp_prefix_ipv6_roundtrip_passes: test_mp_prefix_ipv6_roundtrip
  by code_simp

definition test_mp_reach_nlri_roundtrip :: bool where
  "test_mp_reach_nlri_roundtrip =
     (let nh = V6 0x20010DB8000000000000000000000001;
          reach = MpReachNlri_new Ipv6 Unicast nh;
          reach = reach\<lparr>reach_nlri := reach_nlri reach @ [MpPrefix_ipv6 0x20010DB8000100000000000000000000 48]\<rparr>;
          reach = reach\<lparr>reach_nlri := reach_nlri reach @ [MpPrefix_ipv6 0xFD000000000000000000000000000000 8]\<rparr>
      in unwrapped (and_then (MpReachNlri_serialize documented_bytes reach) (MpReachNlri_parse documented_bytes)) (\<lambda>parsed.
           reach_afi parsed = Ipv6 \<and> reach_safi parsed = Unicast \<and> length (next_hops parsed) = 1 \<and>
           length (reach_nlri parsed) = 2 \<and> mp_prefix_len (reach_nlri parsed ! 0) = 48))"

lemma test_mp_reach_nlri_roundtrip_passes: test_mp_reach_nlri_roundtrip
  by code_simp

definition test_mp_unreach_nlri_roundtrip :: bool where
  "test_mp_unreach_nlri_roundtrip =
     (let unreach = MpUnreachNlri_new Ipv6 Unicast;
          unreach = unreach\<lparr>withdrawn := withdrawn unreach @ [MpPrefix_ipv6 0x20010DB8000000000000000000000000 32]\<rparr>
      in unwrapped (and_then (MpUnreachNlri_serialize documented_bytes unreach) (MpUnreachNlri_parse documented_bytes)) (\<lambda>parsed.
           unreach_afi parsed = Ipv6 \<and> length (withdrawn parsed) = 1 \<and> mp_prefix_len (withdrawn parsed ! 0) = 32))"

lemma test_mp_unreach_nlri_roundtrip_passes: test_mp_unreach_nlri_roundtrip
  by code_simp

definition test_mp_reach_ipv4_roundtrip :: bool where
  "test_mp_reach_ipv4_roundtrip =
     (let reach = MpReachNlri_new Ipv4 Unicast (V4 0x0A000001);
          reach = reach\<lparr>reach_nlri := reach_nlri reach @ [MpPrefix_ipv4 0xC0A80000 24]\<rparr>
      in unwrapped (and_then (MpReachNlri_serialize documented_bytes reach) (MpReachNlri_parse documented_bytes)) (\<lambda>parsed.
           reach_afi parsed = Ipv4 \<and> mp_prefix_len (reach_nlri parsed ! 0) = 24))"

lemma test_mp_reach_ipv4_roundtrip_passes: test_mp_reach_ipv4_roundtrip
  by code_simp

end
