(* ===== verification/Unit_Tests_Rib.thy ===== *)
theory Unit_Tests_Rib
  imports Rib_Correct Policy Rr
begin

text \<open>
  The unit tests of the routing modules, translated as those of the codecs.  The tests of \<^verbatim>\<open>rib.rs\<close> do not
  compute with penalties, except for the withdrawal; the hash maps are traversed in insertion order and the
  clock counts its readings.
\<close>

section \<open>Origin validation\<close>

definition validator_with_roas :: RpkiValidator where
  "validator_with_roas =
     (let v = RpkiValidator_new Strict;
          v = add_roa (Roa_new 0x0A000000 8 24 65001) v
      in add_roa (Roa_new 0xC0A80000 16 16 65002) v)"

definition test_valid_route :: bool where
  "test_valid_route = (validate_route validator_with_roas 0x0A010000 24 65001 = Valid)"

lemma test_valid_route_passes: test_valid_route
  by code_simp

definition test_invalid_wrong_origin :: bool where
  "test_invalid_wrong_origin = (validate_route validator_with_roas 0x0A010000 24 65099 = Invalid)"

lemma test_invalid_wrong_origin_passes: test_invalid_wrong_origin
  by code_simp

definition test_invalid_prefix_too_long :: bool where
  "test_invalid_prefix_too_long = (validate_route validator_with_roas 0x0A010200 25 65001 = NotFound)"

lemma test_invalid_prefix_too_long_passes: test_invalid_prefix_too_long
  by code_simp

definition test_not_found :: bool where
  "test_not_found = (validate_route validator_with_roas 0xAC100000 12 65001 = NotFound)"

lemma test_not_found_passes: test_not_found
  by code_simp

definition test_disabled_mode_always_not_found :: bool where
  "test_disabled_mode_always_not_found =
     (validate_route (validator_with_roas\<lparr>rpki_mode := Disabled\<rparr>) 0x0A010000 24 65001 = NotFound)"

lemma test_disabled_mode_always_not_found_passes: test_disabled_mode_always_not_found
  by code_simp

definition test_should_reject_strict :: bool where
  "test_should_reject_strict \<longleftrightarrow> should_reject validator_with_roas Invalid \<and>
     \<not> should_reject validator_with_roas Valid \<and> \<not> should_reject validator_with_roas NotFound"

lemma test_should_reject_strict_passes: test_should_reject_strict
  by code_simp

definition test_should_not_reject_loose :: bool where
  "test_should_not_reject_loose =
     (let v = validator_with_roas\<lparr>rpki_mode := Loose\<rparr>
      in \<not> should_reject v Invalid \<and> \<not> should_reject v Valid)"

lemma test_should_not_reject_loose_passes: test_should_not_reject_loose
  by code_simp

definition test_roa_covers_exact_length :: bool where
  "test_roa_covers_exact_length =
     (let roa = Roa_new 0xC0A80000 16 16 65001
      in covers roa 0xC0A80000 16 \<and> \<not> covers roa 0xC0A80000 15 \<and> \<not> covers roa 0xC0A80000 17)"

lemma test_roa_covers_exact_length_passes: test_roa_covers_exact_length
  by code_simp

definition test_roa_covers_subnet :: bool where
  "test_roa_covers_subnet =
     (let roa = Roa_new 0x0A000000 8 24 65001
      in covers roa 0x0A000000 8 \<and> covers roa 0x0A010000 16 \<and> covers roa 0x0A010200 24 \<and>
         \<not> covers roa 0x0A010200 25 \<and> \<not> covers roa 0x0B000000 8)"

lemma test_roa_covers_subnet_passes: test_roa_covers_subnet
  by code_simp

definition test_rov_state_display :: bool where
  "test_rov_state_display \<longleftrightarrow> RovState_to_string Valid = ''valid'' \<and> RovState_to_string Invalid = ''invalid'' \<and>
     RovState_to_string NotFound = ''not-found''"

lemma test_rov_state_display_passes: test_rov_state_display
  by code_simp

definition test_rpki_mode_display :: bool where
  "test_rpki_mode_display \<longleftrightarrow> RpkiMode_to_string Disabled = ''disabled'' \<and> RpkiMode_to_string Loose = ''loose'' \<and>
     RpkiMode_to_string Strict = ''strict''"

lemma test_rpki_mode_display_passes: test_rpki_mode_display
  by code_simp

section \<open>Route reflection\<close>

definition make_rr :: RouteReflector where
  "make_rr = RouteReflector_new (RrConfig_new 0x0A000001) 0x0A000001"

definition test_peer :: "u8 \<Rightarrow> SocketAddr" where
  "test_peer n = \<lparr>sock_ip = V4 (from_be [10, 0, 0, n]), sock_port = 179\<rparr>"

definition test_reflect_client_to_client :: bool where
  "test_reflect_client_to_client = should_reflect make_rr Client Client (test_peer 2) (test_peer 3)"

lemma test_reflect_client_to_client_passes: test_reflect_client_to_client
  by code_simp

definition test_reflect_client_to_non_client :: bool where
  "test_reflect_client_to_non_client = should_reflect make_rr Client NonClient (test_peer 2) (test_peer 3)"

lemma test_reflect_client_to_non_client_passes: test_reflect_client_to_non_client
  by code_simp

definition test_no_reflect_non_client_to_non_client :: bool where
  "test_no_reflect_non_client_to_non_client =
     (\<not> should_reflect make_rr NonClient NonClient (test_peer 2) (test_peer 3))"

lemma test_no_reflect_non_client_to_non_client_passes: test_no_reflect_non_client_to_non_client
  by code_simp

definition test_reflect_non_client_to_client :: bool where
  "test_reflect_non_client_to_client = should_reflect make_rr NonClient Client (test_peer 2) (test_peer 3)"

lemma test_reflect_non_client_to_client_passes: test_reflect_non_client_to_client
  by code_simp

definition test_no_reflect_to_originator :: bool where
  "test_no_reflect_to_originator = (\<not> should_reflect make_rr Client Client (test_peer 2) (test_peer 2))"

lemma test_no_reflect_to_originator_passes: test_no_reflect_to_originator
  by code_simp

definition test_cluster_loop_detection :: bool where
  "test_cluster_loop_detection \<longleftrightarrow>
     has_cluster_loop make_rr (PathAttributes_default\<lparr>cluster_list := [0x0A000001]\<rparr>) \<and>
     \<not> has_cluster_loop make_rr (PathAttributes_default\<lparr>cluster_list := [0x0A000063]\<rparr>)"

lemma test_cluster_loop_detection_passes: test_cluster_loop_detection
  by code_simp

definition test_originator_loop_detection :: bool where
  "test_originator_loop_detection =
     has_originator_loop make_rr (PathAttributes_default\<lparr>originator_id := Some 0x0A000001\<rparr>)"

lemma test_originator_loop_detection_passes: test_originator_loop_detection
  by code_simp

definition test_prepare_reflected_attrs :: bool where
  "test_prepare_reflected_attrs =
     (let reflected = prepare_reflected_attrs make_rr PathAttributes_default 0x0A000005
      in originator_id reflected = Some 0x0A000005 \<and> cluster_list reflected = [0x0A000001])"

lemma test_prepare_reflected_attrs_passes: test_prepare_reflected_attrs
  by code_simp

definition test_cluster_list_prepend :: bool where
  "test_cluster_list_prepend =
     (let reflected = prepare_reflected_attrs make_rr (PathAttributes_default\<lparr>cluster_list := [0x0A000063]\<rparr>) 0x0A000005
      in cluster_list reflected ! 0 = 0x0A000001 \<and> cluster_list reflected ! 1 = 0x0A000063)"

lemma test_cluster_list_prepend_passes: test_cluster_list_prepend
  by code_simp

definition test_originator_id_not_overwritten :: bool where
  "test_originator_id_not_overwritten =
     (let reflected = prepare_reflected_attrs make_rr (PathAttributes_default\<lparr>originator_id := Some 0x0A000032\<rparr>) 0x0A000063
      in originator_id reflected = Some 0x0A000032)"

lemma test_originator_id_not_overwritten_passes: test_originator_id_not_overwritten
  by code_simp

section \<open>Policy\<close>

definition make_engine :: PolicyEngine where
  "make_engine = PolicyEngine_new \<lparr>prefix_lists =
     [\<lparr>pl_name = ''allow-rfc1918'', entries =
        [\<lparr>ple_action = Permit, ple_prefix = ''10.0.0.0/8'', ge = Some 8, le = Some 24\<rparr>,
         \<lparr>ple_action = Permit, ple_prefix = ''192.168.0.0/16'', ge = None, le = None\<rparr>,
         \<lparr>ple_action = Deny, ple_prefix = ''0.0.0.0/0'', ge = None, le = None\<rparr>]\<rparr>,
      \<lparr>pl_name = ''exact-only'', entries =
        [\<lparr>ple_action = Permit, ple_prefix = ''172.16.0.0/12'', ge = None, le = None\<rparr>]\<rparr>],
     community_lists = [\<lparr>cl_name = ''no-export-comms'', cl_communities = [''no-export'', ''65001:100'']\<rparr>]\<rparr>"

definition test_permit_in_range :: bool where
  "test_permit_in_range \<longleftrightarrow>
     apply_policy make_engine ''allow-rfc1918'' (Prefix_new 0x0A000000 8) PathAttributes_default \<and>
     apply_policy make_engine ''allow-rfc1918'' (Prefix_new 0x0A010000 16) PathAttributes_default \<and>
     \<not> apply_policy make_engine ''allow-rfc1918'' (Prefix_new 0x0A000000 25) PathAttributes_default"

lemma test_permit_in_range_passes: test_permit_in_range
  by code_simp

definition test_exact_prefix_match :: bool where
  "test_exact_prefix_match \<longleftrightarrow>
     apply_policy make_engine ''allow-rfc1918'' (Prefix_new 0xC0A80000 16) PathAttributes_default \<and>
     \<not> apply_policy make_engine ''allow-rfc1918'' (Prefix_new 0xC0A80100 24) PathAttributes_default"

lemma test_exact_prefix_match_passes: test_exact_prefix_match
  by code_simp

definition test_exact_only_policy :: bool where
  "test_exact_only_policy \<longleftrightarrow>
     apply_policy make_engine ''exact-only'' (Prefix_new 0xAC100000 12) PathAttributes_default \<and>
     \<not> apply_policy make_engine ''exact-only'' (Prefix_new 0xAC100100 24) PathAttributes_default"

lemma test_exact_only_policy_passes: test_exact_only_policy
  by code_simp

definition test_unknown_policy_default_permit :: bool where
  "test_unknown_policy_default_permit =
     apply_policy make_engine ''nonexistent'' (Prefix_new 0x01020300 24) PathAttributes_default"

lemma test_unknown_policy_default_permit_passes: test_unknown_policy_default_permit
  by code_simp

definition test_community_matching :: bool where
  "test_community_matching \<longleftrightarrow>
     matches_community_list make_engine ''no-export-comms'' (PathAttributes_default\<lparr>communities := [NO_EXPORT]\<rparr>) \<and>
     matches_community_list make_engine ''no-export-comms''
       (PathAttributes_default\<lparr>communities := [Community (push_bit 16 65001 OR 100)]\<rparr>) \<and>
     \<not> matches_community_list make_engine ''no-export-comms'' PathAttributes_default"

lemma parse_65001: "parse_u16 ''65001'' = Some 65001"
  by (simp add: parse_u16_def parse_uint_def digit_val_def)

lemma parse_hundreds: "parse_u16 ''100'' = Some 100" "parse_u16 ''200'' = Some 200"
  by (simp_all add: parse_u16_def parse_uint_def digit_val_def)

lemma test_community_matching_passes: test_community_matching
  by (simp add: test_community_matching_def matches_community_list_def make_engine_def PolicyEngine_new_def
      has_community_def parse_community_str_def PathAttributes_default_def parse_65001 parse_hundreds)

definition test_community_parse :: bool where
  "test_community_parse \<longleftrightarrow>
     parse_community_str ''no-export'' = Some NO_EXPORT \<and>
     (case parse_community_str ''65001:200'' of
        Some c \<Rightarrow> Community_asn c = 65001 \<and> Community_value c = 200
      | None \<Rightarrow> False) \<and>
     parse_community_str ''invalid'' = None"

lemma test_community_parse_passes: test_community_parse
  by (simp add: test_community_parse_def parse_community_str_def parse_65001 parse_hundreds Community_asn_def
      Community_value_def)

definition test_is_subnet :: bool where
  "test_is_subnet \<longleftrightarrow> is_subnet 0x0A010000 16 0x0A000000 8 \<and> \<not> is_subnet 0xC0A80000 16 0x0A000000 8 \<and>
     is_subnet 0x01020304 32 0 0"

lemma test_is_subnet_passes: test_is_subnet
  by code_simp

section \<open>Routing information base\<close>

text \<open>
  The tests hold for every floating-point type \<open>F\<close>: the announcements meet no damped prefix, and the
  withdrawal changes the Loc-RIB alike whatever penalty it records.
\<close>

definition some_and :: "'a option \<Rightarrow> ('a \<Rightarrow> bool) \<Rightarrow> bool" where
  "some_and r P = (case r of Some a \<Rightarrow> P a | None \<Rightarrow> False)"

definition updated ::
    "'f f64_ops \<Rightarrow> SocketAddr \<Rightarrow> u32 \<Rightarrow> Prefix list \<Rightarrow> PathAttributes \<Rightarrow> Prefix list \<Rightarrow> 'f Rib \<times> clock \<Rightarrow>
     'f Rib \<times> clock" where
  "updated F peer asn announced a ws = (\<lambda>(rib, c). process_update F insertion_order peer asn announced a ws rib c)"

definition fresh :: "'f f64_ops \<Rightarrow> 'f Rib \<times> clock" where
  "fresh F = (Rib_new F, \<lambda>i. i)"

text \<open>The \<^verbatim>\<open>stale\<close> flag of a route of the Adj-RIB-In, behind the \<^verbatim>\<open>unwrap()\<close> and the indexing of the tests.\<close>

definition stale_flag :: "Prefix \<Rightarrow> 'f Rib \<Rightarrow> bool option" where
  "stale_flag p rib =
     (case get_adj_rib_in (test_peer 1) rib of
        None \<Rightarrow> None
      | Some m \<Rightarrow> map_option stale (hm_get m (PrefixKey_from p)))"

lemma test_peers_differ: "test_peer 1 \<noteq> test_peer 2"
  by code_simp

lemmas rib_tests =
  updated_def fresh_def install_routes.simps record_withdrawals.simps process_update_def Rib_new_def Rib_default_def DampeningTable_new_def check_advertisement_def
  Route_new_def now_def run_decisions_def run_decision_process_def candidates_def insertion_order_def
  RpkiValidator_default_def RpkiValidator_new_def validate_route_def should_reject_def PrefixKey_from_def Prefix_new_def
  AList.delete_eq hm_map_values_def prefix_count_def some_and_def stale_flag_def get_adj_rib_in_def
  stale_route_count_def mark_peer_stale_def remove_stale_for_peer_def remove_peer_def rib_summary_def longest_match_def
  max_by_key_def key_matches_def route_cmp_def cmp_def ordering_then_def sort_by_def local_pref_of_def as_path_len_def
  origin_of_def med_of_def PathAttributes_default_def Let_def List.map_filter_simps
  test_peers_differ

definition test_basic_route_insertion :: "'f f64_ops \<Rightarrow> bool" where
  "test_basic_route_insertion F =
     (let prefix = Prefix_new 0x0A000000 8;
          attrs = PathAttributes_default\<lparr>origin := Some Igp, local_pref := Some 100\<rparr>;
          (rib, c) = updated F (test_peer 1) 65001 [prefix] attrs [] (fresh F)
      in prefix_count rib = 1 \<and>
         some_and (hm_get (loc_rib rib) (PrefixKey_from prefix)) (\<lambda>best. peer_addr best = test_peer 1))"

lemma test_basic_route_insertion_passes: "test_basic_route_insertion F"
  by (simp add: test_basic_route_insertion_def rib_tests)

definition test_best_path_local_pref :: "'f f64_ops \<Rightarrow> bool" where
  "test_best_path_local_pref F =
     (let prefix = Prefix_new 0xC0A80000 24;
          attrs_low = PathAttributes_default\<lparr>local_pref := Some 50\<rparr>;
          rib = updated F (test_peer 1) 65001 [prefix] attrs_low [] (fresh F);
          attrs_high = PathAttributes_default\<lparr>local_pref := Some 200\<rparr>;
          (rib, c) = updated F (test_peer 2) 65002 [prefix] attrs_high [] rib
      in some_and (hm_get (loc_rib rib) (PrefixKey_from prefix)) (\<lambda>best. peer_addr best = test_peer 2))"

lemma test_best_path_local_pref_passes: "test_best_path_local_pref F"
  by (simp add: test_best_path_local_pref_def rib_tests)

definition test_best_path_as_path_length :: "'f f64_ops \<Rightarrow> bool" where
  "test_best_path_as_path_length F =
     (let prefix = Prefix_new 0xAC100000 16;
          attrs_long = PathAttributes_default\<lparr>local_pref := Some 100, as_path := [AsSequence [65001, 65002, 65003]]\<rparr>;
          rib = updated F (test_peer 1) 65001 [prefix] attrs_long [] (fresh F);
          attrs_short = PathAttributes_default\<lparr>local_pref := Some 100, as_path := [AsSequence [65004]]\<rparr>;
          (rib, c) = updated F (test_peer 2) 65002 [prefix] attrs_short [] rib
      in some_and (hm_get (loc_rib rib) (PrefixKey_from prefix)) (\<lambda>best. peer_addr best = test_peer 2))"

lemma test_best_path_as_path_length_passes: "test_best_path_as_path_length F"
  by (simp add: test_best_path_as_path_length_def rib_tests)

definition test_withdraw_route :: "'f f64_ops \<Rightarrow> bool" where
  "test_withdraw_route F =
     (let prefix = Prefix_new 0x0A000000 8;
          (rib, c) = updated F (test_peer 1) 65001 [prefix] PathAttributes_default [] (fresh F);
          (rib', c') = updated F (test_peer 1) 65001 [] PathAttributes_default [prefix] (rib, c)
      in prefix_count rib = 1 \<and> prefix_count rib' = 0)"

lemma test_withdraw_route_passes: "test_withdraw_route F"
  by (simp add: test_withdraw_route_def rib_tests split: prod.split)

definition test_remove_peer :: "'f f64_ops \<Rightarrow> bool" where
  "test_remove_peer F =
     (let p1 = Prefix_new 0x0A000000 8; p2 = Prefix_new 0xAC100000 16;
          (rib, c) = updated F (test_peer 1) 65001 [p1, p2] PathAttributes_default [] (fresh F);
          (_, rib') = remove_peer insertion_order (test_peer 1) rib
      in prefix_count rib = 2 \<and> prefix_count rib' = 0)"

lemma test_remove_peer_passes: "test_remove_peer F"
  by (simp add: test_remove_peer_def rib_tests)

definition test_summary :: "'f f64_ops \<Rightarrow> bool" where
  "test_summary F =
     (let p1 = Prefix_new 0x0A000000 8; p2 = Prefix_new 0xAC100000 16;
          (rib, c) = updated F (test_peer 1) 65001 [p1, p2] PathAttributes_default [] (fresh F)
      in rib_summary rib = (1, 2, 2))"

lemma test_summary_passes: "test_summary F"
  by (simp add: test_summary_def rib_tests)

definition test_longest_prefix_match_basic :: "'f f64_ops \<Rightarrow> bool" where
  "test_longest_prefix_match_basic F =
     (let p8 = Prefix_new 0x0A000000 8; p24 = Prefix_new 0x0A010200 24;
          (rib, c) = updated F (test_peer 1) 65001 [p8, p24] PathAttributes_default [] (fresh F)
      in some_and (longest_match insertion_order 0x0A010205 rib) (\<lambda>(key, _). key_prefix_len key = 24) \<and>
         some_and (longest_match insertion_order 0x0A020001 rib) (\<lambda>(key, _). key_prefix_len key = 8) \<and>
         longest_match insertion_order 0xC0000001 rib = None)"

lemma test_longest_prefix_match_basic_passes: "test_longest_prefix_match_basic F"
  by (simp add: test_longest_prefix_match_basic_def rib_tests) code_simp

definition test_longest_prefix_match_default_route :: "'f f64_ops \<Rightarrow> bool" where
  "test_longest_prefix_match_default_route F =
     (let default = Prefix_new 0 0; specific = Prefix_new 0x0A000000 8;
          (rib, c) = updated F (test_peer 1) 65001 [default, specific] PathAttributes_default [] (fresh F)
      in some_and (longest_match insertion_order 0x0A050001 rib) (\<lambda>(key, _). key_prefix_len key = 8) \<and>
         some_and (longest_match insertion_order 0x01020304 rib) (\<lambda>(key, _). key_prefix_len key = 0))"

lemma test_longest_prefix_match_default_route_passes: "test_longest_prefix_match_default_route F"
  by (simp add: test_longest_prefix_match_default_route_def rib_tests) code_simp

definition test_longest_prefix_match_empty_rib :: "'f f64_ops \<Rightarrow> bool" where
  "test_longest_prefix_match_empty_rib F = (longest_match insertion_order 0x0A000001 (Rib_new F) = None)"

lemma test_longest_prefix_match_empty_rib_passes: "test_longest_prefix_match_empty_rib F"
  by (simp add: test_longest_prefix_match_empty_rib_def rib_tests)

definition test_graceful_restart_mark_stale :: "'f f64_ops \<Rightarrow> bool" where
  "test_graceful_restart_mark_stale F =
     (let p = Prefix_new 0x0A000000 8;
          (rib, c) = updated F (test_peer 1) 65001 [p] PathAttributes_default [] (fresh F);
          rib' = mark_peer_stale (test_peer 1) rib
      in stale_flag p rib = Some False \<and> stale_flag p rib' = Some True \<and> prefix_count rib' = 1 \<and>
         stale_route_count rib' = 1)"

lemma test_graceful_restart_mark_stale_passes: "test_graceful_restart_mark_stale F"
  by (simp add: test_graceful_restart_mark_stale_def rib_tests)

definition test_graceful_restart_refresh_clears_stale :: "'f f64_ops \<Rightarrow> bool" where
  "test_graceful_restart_refresh_clears_stale F =
     (let p = Prefix_new 0x0A000000 8;
          (rib, c) = updated F (test_peer 1) 65001 [p] PathAttributes_default [] (fresh F);
          rib = mark_peer_stale (test_peer 1) rib;
          (rib, c) = updated F (test_peer 1) 65001 [p] PathAttributes_default [] (rib, c)
      in stale_flag p rib = Some False \<and> stale_route_count rib = 0)"

lemma test_graceful_restart_refresh_clears_stale_passes: "test_graceful_restart_refresh_clears_stale F"
  by (simp add: test_graceful_restart_refresh_clears_stale_def rib_tests)

definition test_graceful_restart_remove_stale :: "'f f64_ops \<Rightarrow> bool" where
  "test_graceful_restart_remove_stale F =
     (let p1 = Prefix_new 0x0A000000 8; p2 = Prefix_new 0xAC100000 16;
          (rib, c) = updated F (test_peer 1) 65001 [p1, p2] PathAttributes_default [] (fresh F);
          rib = mark_peer_stale (test_peer 1) rib;
          (rib, c) = updated F (test_peer 1) 65001 [p1] PathAttributes_default [] (rib, c);
          (removed, rib') = remove_stale_for_peer insertion_order (test_peer 1) rib
      in stale_route_count rib = 1 \<and> removed = [PrefixKey_from p2] \<and> prefix_count rib' = 1)"

lemma test_graceful_restart_remove_stale_passes: "test_graceful_restart_remove_stale F"
  by (simp add: test_graceful_restart_remove_stale_def rib_tests)

end
