(* ===== verification/Unit_Tests_Ops.thy ===== *)
theory Unit_Tests_Ops
  imports Unit_Tests_Rib Mgmt "HOL-Library.Sublist"
begin

text \<open>
  The unit tests of dampening, of the metrics and of the management interface, translated as those of the
  codecs.  The dampening tests run on the reals, on a clock that only advances while the test sleeps.
\<close>

section \<open>Dampening\<close>

definition pfx :: "u8 \<Rightarrow> PrefixKey" where
  "pfx a = \<lparr>key_address = from_be [10, 0, 0, a], key_prefix_len = 24\<rparr>"

text \<open>\<^verbatim>\<open>std::thread::sleep\<close>: every later reading of the clock is later by the time slept.\<close>

definition slept :: "Duration \<Rightarrow> clock \<Rightarrow> clock" where
  "slept d c = (\<lambda>i. c i + d)"

definition flap :: "PrefixKey \<Rightarrow> real DampeningTable \<times> clock \<Rightarrow> bool \<times> real DampeningTable \<times> clock" where
  "flap k = (\<lambda>(t, c). record_withdrawal real_f64 (test_peer 1) k t c)"

definition strict_table :: "real DampeningTable \<times> clock" where
  "strict_table = (DampeningTable_new ((DampeningConfig_default real_f64)\<lparr>suppress_limit := 1500\<rparr>), \<lambda>_. 0)"

definition test_no_suppression_single_flap :: bool where
  "test_no_suppression_single_flap =
     (let (suppressed, t, c) = flap (pfx 1) (DampeningTable_new (DampeningConfig_default real_f64), \<lambda>_. 0)
      in \<not> suppressed)"

definition test_suppression_after_two_flaps :: bool where
  "test_suppression_after_two_flaps =
     (let (_, t) = flap (pfx 1) strict_table; (suppressed, t, c) = flap (pfx 1) t
      in suppressed \<and> is_suppressed (test_peer 1) (pfx 1) t \<and> suppressed_count t = 1)"

definition test_unsuppressed_on_advertisement_below_reuse :: bool where
  "test_unsuppressed_on_advertisement_below_reuse =
     (let (_, t) = flap (pfx 1) strict_table; (_, t, c) = flap (pfx 1) t
      in is_suppressed (test_peer 1) (pfx 1) t \<and>
         (case hm_get (damp_state t) (test_peer 1, pfx 1) of
            None \<Rightarrow> False
          | Some entry \<Rightarrow>
              let t = put_entry (test_peer 1, pfx 1) (entry\<lparr>penalty := 500\<rparr>) t;
                  (still_suppressed, t, c) = check_advertisement real_f64 (test_peer 1) (pfx 1) t c
              in \<not> still_suppressed \<and> \<not> is_suppressed (test_peer 1) (pfx 1) t))"

definition test_max_suppress_time_override :: bool where
  "test_max_suppress_time_override =
     (let table = DampeningTable_new ((DampeningConfig_default real_f64)
            \<lparr>suppress_limit := 1500, max_suppress_time := 1000000\<rparr>);
          (_, t) = flap (pfx 1) (table, \<lambda>_. 0); (_, t, c) = flap (pfx 1) t;
          (still_suppressed, t', c') = check_advertisement real_f64 (test_peer 1) (pfx 1) t (slept 5000000 c)
      in is_suppressed (test_peer 1) (pfx 1) t \<and> \<not> still_suppressed)"

definition test_penalty_decays_over_time :: bool where
  "test_penalty_decays_over_time =
     (let t = DampeningTable_new ((DampeningConfig_default real_f64)\<lparr>half_life_secs := 1\<rparr>);
          (entry, c) = entry_or_new real_f64 (test_peer 1, pfx 1) t (\<lambda>_. 0);
          t = put_entry (test_peer 1, pfx 1) (entry\<lparr>penalty := 2000\<rparr>) t;
          (penalty, t, c) = current_penalty real_f64 (test_peer 1) (pfx 1) t (slept 1100000000 c)
      in penalty < 1100 \<and> 800 < penalty)"

definition test_remove_peer_clears_state :: bool where
  "test_remove_peer_clears_state =
     (let (_, t) = flap (pfx 1) strict_table; (_, t, c) = flap (pfx 1) t;
          t' = damp_remove_peer (test_peer 1) t
      in suppressed_count t = 1 \<and> suppressed_count t' = 0 \<and> length (damp_state t') = 0)"

definition test_independent_prefixes :: bool where
  "test_independent_prefixes =
     (let (_, t) = flap (pfx 1) strict_table; (_, t) = flap (pfx 1) t; (_, t, c) = flap (pfx 2) t
      in is_suppressed (test_peer 1) (pfx 1) t \<and> \<not> is_suppressed (test_peer 1) (pfx 2) t \<and>
         suppressed_count t = 1)"

lemma pfx_differ: "pfx 1 \<noteq> pfx 2"
  by code_simp

lemmas dampening_tests =
  flap_def strict_table_def slept_def record_withdrawal_def entry_or_new_def decay_def elapsed_def now_def
  PrefixDampening_new_def put_entry_def check_advertisement_def current_penalty_def is_suppressed_def
  suppressed_count_def damp_remove_peer_def hm_retain_def DampeningTable_new_def DampeningConfig_default_def
  real_f64_def from_secs_def pfx_differ pfx_differ [symmetric] Let_def

lemma test_no_suppression_single_flap_passes: test_no_suppression_single_flap
  by (simp add: test_no_suppression_single_flap_def dampening_tests)

lemma test_suppression_after_two_flaps_passes: test_suppression_after_two_flaps
  by (simp add: test_suppression_after_two_flaps_def dampening_tests)

lemma test_unsuppressed_on_advertisement_below_reuse_passes: test_unsuppressed_on_advertisement_below_reuse
  by (simp add: test_unsuppressed_on_advertisement_below_reuse_def dampening_tests)

lemma test_max_suppress_time_override_passes: test_max_suppress_time_override
  by (simp add: test_max_suppress_time_override_def dampening_tests)

text \<open>After 1.1 half-lives more than two fifths and at most one half of the penalty is left.\<close>

lemma half_powr: "2 / 5 < (1 / 2 :: real) powr (11 / 10)" "(1 / 2 :: real) powr (11 / 10) \<le> 1 / 2"
proof -
  let ?x = "(1 / 2 :: real) powr (11 / 10)"
  have "?x ^ 10 = ?x powr 10" by (rule powr_numeral [symmetric]) simp
  also have "\<dots> = (1 / 2) powr 11" unfolding powr_powr by simp
  also have "\<dots> = (1 / 2) ^ 11" by (rule powr_numeral) simp
  finally have "?x ^ 10 = (1 / 2) ^ 11" .
  moreover have "(2 / 5 :: real) ^ 10 < (1 / 2) ^ 11" by (simp add: power_divide)
  ultimately have "(2 / 5) ^ 10 < ?x ^ 10" by simp
  then show "2 / 5 < ?x" by (rule power_less_imp_less_base) simp
  have "?x \<le> (1 / 2) powr 1" by (rule powr_mono') simp_all
  then show "?x \<le> 1 / 2" by simp
qed

lemma test_penalty_decays_over_time_passes: test_penalty_decays_over_time
  using half_powr by (simp add: test_penalty_decays_over_time_def dampening_tests)

lemma test_remove_peer_clears_state_passes: test_remove_peer_clears_state
  by (simp add: test_remove_peer_clears_state_def dampening_tests)

lemma test_independent_prefixes_passes: test_independent_prefixes
  by (simp add: test_independent_prefixes_def dampening_tests)

section \<open>Metrics\<close>

text \<open>\<^verbatim>\<open>str::contains\<close>.\<close>

definition contains :: "string \<Rightarrow> string \<Rightarrow> bool" where
  "contains s pat = sublist pat s"

definition test_metrics_increment :: bool where
  "test_metrics_increment =
     (let m = Metrics_new;
          m = metric_inc sessions_established_update m;
          m = metric_inc sessions_established_update m;
          m = metric_inc messages_rx_update_update m
      in sessions_established m = 2 \<and> messages_rx_update m = 1 \<and> sessions_active m = 0)"

lemma test_metrics_increment_passes: test_metrics_increment
  by (simp add: test_metrics_increment_def metric_inc_def fetch_add_def Metrics_new_def Let_def)

definition test_prometheus_output :: bool where
  "test_prometheus_output =
     (let m = metric_inc sessions_active_update Metrics_new;
          m = metric_inc routes_received_update m;
          m = metric_inc routes_received_update m;
          out = prometheus_text m
      in contains out ''bgp_sessions_active 1'' \<and> contains out ''bgp_routes_received_total 2'' \<and>
         contains out ''# HELP'' \<and> contains out ''# TYPE'')"

definition test_text_summary :: bool where
  "test_text_summary =
     (let m = metric_set routes_loc_rib_update 42 Metrics_new
      in contains (text_summary m) ''Loc-RIB:    42'')"

text \<open>
  Two threads of a thousand increments each: the increments are atomic and of one counter, so every
  interleaving of them is the same sequence of two thousand.
\<close>

definition test_thread_safe_shared :: bool where
  "test_thread_safe_shared =
     (let thread = metric_inc messages_rx_keepalive_update ^^ 1000
      in messages_rx_keepalive (thread (thread Metrics_new)) = 2000)"

lemma contains_concat: "x \<in> set xs \<Longrightarrow> contains x pat \<Longrightarrow> contains (concat xs) pat"
proof -
  assume "x \<in> set xs" and sub: "contains x pat"
  then obtain ys zs where "xs = ys @ x # zs" by (auto dest: split_list)
  then show ?thesis using sub by (simp add: contains_def sublist_append)
qed

lemma contains_map: "x \<in> set xs \<Longrightarrow> contains (f x) pat \<Longrightarrow> contains (concat (map f xs)) pat"
  by (rule contains_concat) simp_all

lemma contains_append: "contains s pat \<or> contains t pat \<Longrightarrow> contains (s @ t) pat"
  by (auto simp: contains_def sublist_append)

lemma increments: "messages_rx_keepalive ((metric_inc messages_rx_keepalive_update ^^ n) m) =
   messages_rx_keepalive m + of_nat n"
  by (induction n) (simp_all add: metric_inc_def fetch_add_def)

lemma test_thread_safe_shared_passes: test_thread_safe_shared
  by (simp add: test_thread_safe_shared_def increments Metrics_new_def Let_def del: funpow.simps)

lemma test_text_summary_passes: test_text_summary
proof -
  let ?m = "metric_set routes_loc_rib_update 42 Metrics_new"
  have row: "(''Routes:'' @ nl @ ''Loc-RIB:    '', 42, nl) \<in> set (summary_rows ?m)"
    by (simp add: summary_rows_def metric_set_def)
  have "show_u64 42 = ''42''" by (simp add: show_u64_def show_nat.simps digit_char_def) code_simp
  then have "contains ((''Routes:'' @ nl @ ''Loc-RIB:    '') @ show_u64 42 @ nl) ''Loc-RIB:    42''"
    by (simp only:) code_simp
  then show ?thesis
    unfolding test_text_summary_def text_summary_def Let_def by (intro contains_map [OF row]) (simp only: prod.case)
qed

lemma test_prometheus_output_passes: test_prometheus_output
proof -
  let ?m = "metric_inc routes_received_update (metric_inc routes_received_update
      (metric_inc sessions_active_update Metrics_new))"
  let ?active = "(''gauge'', ''bgp_sessions_active'', ''Currently active BGP sessions'', 1 :: u64)"
  let ?received = "(''counter'', ''bgp_routes_received_total'', ''Total routes received (NLRI)'', 2 :: u64)"
  have active: "?active \<in> set (prometheus_rows ?m)"
    by (simp add: prometheus_rows_def metric_inc_def fetch_add_def Metrics_new_def)
  have received: "?received \<in> set (prometheus_rows ?m)"
    by (simp add: prometheus_rows_def metric_inc_def fetch_add_def Metrics_new_def)
  have "contains (metric_text ?received) ''bgp_routes_received_total 2''"
    "contains (metric_text ?active) ''bgp_sessions_active 1''"
    "contains (metric_text ?active) ''# HELP''" "contains (metric_text ?active) ''# TYPE''"
    by code_simp+
  then show ?thesis
    unfolding test_prometheus_output_def prometheus_text_def Let_def
    using contains_map [OF active, where f = metric_text] contains_map [OF received, where f = metric_text] by blast
qed

section \<open>Management interface\<close>

definition test_show_bgp_summary_empty :: "'f f64_ops \<Rightarrow> bool" where
  "test_show_bgp_summary_empty F =
     (let out = cmd_bgp_summary (\<lambda>t. t) MgmtState_default (Rib_new F)
      in contains out ''Loc-RIB: 0'' \<or> contains out ''no peers'')"

definition test_show_bgp_rib_empty :: "'f f64_ops \<Rightarrow> bool" where
  "test_show_bgp_rib_empty F = contains (cmd_bgp_rib insertion_order (Rib_new F)) ''empty''"

definition test_show_bgp_rib_prefix_not_found :: "'f f64_ops \<Rightarrow> bool" where
  "test_show_bgp_rib_prefix_not_found F = contains (cmd_bgp_rib_prefix (Rib_new F) ''10.0.0.0/8'') ''not found''"

definition test_help :: bool where
  "test_help \<longleftrightarrow> contains cmd_help ''show bgp summary'' \<and> contains cmd_help ''show bgp rib''"

definition test_unknown_command :: "'f f64_ops \<Rightarrow> bool" where
  "test_unknown_command F =
     contains (process_command insertion_order (\<lambda>t. t) None MgmtState_default (Rib_new F) Metrics_new ''foo bar'')
       ''Unknown command''"

definition test_show_rib_with_routes :: "'f f64_ops \<Rightarrow> bool" where
  "test_show_rib_with_routes F =
     (let attrs = PathAttributes_default\<lparr>origin := Some Igp, local_pref := Some 100, next_hop := Some 0x0A000001,
            as_path := [AsSequence [65001, 65002]]\<rparr>;
          (rib, c) = updated F (test_peer 2) 65001 [Prefix_new 0xC0A80000 24] attrs [] (fresh F);
          out = cmd_bgp_rib insertion_order rib
      in contains out ''192.168.0.0/24'' \<and> contains out ''65001'')"

definition rib_with_routes :: "'f f64_ops \<Rightarrow> 'f Rib" where
  "rib_with_routes F =
     (let attrs = PathAttributes_default\<lparr>next_hop := Some 0xC0000201, as_path := [AsSequence [64500, 64501]]\<rparr>;
          peer = \<lparr>sock_ip = V4 0xC0000201, sock_port = 179\<rparr>;
          (rib, c) = updated F peer 64500 [Prefix_new 0x0A000000 8] attrs [] (fresh F)
      in rib)"

definition test_show_rib_aspath_found :: "'f f64_ops \<Rightarrow> bool" where
  "test_show_rib_aspath_found F =
     (let out = cmd_bgp_rib_aspath insertion_order (rib_with_routes F) ''64500''
      in contains out ''10.0.0.0/8'' \<and> contains out ''64500'')"

definition test_show_rib_aspath_not_found :: "'f f64_ops \<Rightarrow> bool" where
  "test_show_rib_aspath_not_found F =
     contains (cmd_bgp_rib_aspath insertion_order (rib_with_routes F) ''99999'') ''No routes''"

definition test_show_rib_aspath_invalid :: "'f f64_ops \<Rightarrow> bool" where
  "test_show_rib_aspath_invalid F =
     contains (cmd_bgp_rib_aspath insertion_order (Rib_new F) ''notanasn'') ''Invalid''"

definition test_show_rib_nexthop_found :: "'f f64_ops \<Rightarrow> bool" where
  "test_show_rib_nexthop_found F =
     contains (cmd_bgp_rib_nexthop insertion_order (rib_with_routes F) ''192.0.2.1'') ''10.0.0.0/8''"

definition test_show_rib_nexthop_not_found :: "'f f64_ops \<Rightarrow> bool" where
  "test_show_rib_nexthop_not_found F =
     contains (cmd_bgp_rib_nexthop insertion_order (rib_with_routes F) ''1.2.3.4'') ''No routes''"

definition test_show_rib_nexthop_invalid :: "'f f64_ops \<Rightarrow> bool" where
  "test_show_rib_nexthop_invalid F =
     contains (cmd_bgp_rib_nexthop insertion_order (Rib_new F) ''not-an-ip'') ''Invalid''"

definition test_version :: bool where
  "test_version = contains (cmd_version None) ''PathForge''"

lemma loc_rib_new [simp]: "loc_rib (Rib_new F) = []"
  by (simp add: Rib_new_def Rib_default_def)

lemma contains_prefix: "contains (pat @ s) pat"
  by (simp add: contains_def)

lemma test_show_bgp_rib_empty_passes: "test_show_bgp_rib_empty F"
  unfolding test_show_bgp_rib_empty_def cmd_bgp_rib_def loc_rib_new by code_simp

lemma test_help_passes: test_help
  unfolding test_help_def cmd_help_def by (intro conjI contains_append disjI2; code_simp)

lemma test_version_passes: test_version
  by code_simp

lemma parse_texts:
  "parse_ipv4 ''10.0.0.0'' = Some 0x0A000000" "parse_ipv4 ''192.0.2.1'' = Some 0xC0000201"
  "parse_ipv4 ''1.2.3.4'' = Some 0x01020304" "parse_ipv4 ''not-an-ip'' = None" "parse_u8 ''8'' = Some 8"
  by code_simp+

lemma parse_numbers:
  "parse_u32 ''64500'' = Some 64500" "parse_u32 ''99999'' = Some 99999" "parse_u32 ''notanasn'' = None"
  by (simp_all add: parse_u32_def parse_uint_def digit_val_def)

lemma test_show_rib_nexthop_invalid_passes: "test_show_rib_nexthop_invalid F"
  unfolding test_show_rib_nexthop_invalid_def cmd_bgp_rib_nexthop_def parse_texts option.case by code_simp

lemma test_show_rib_aspath_invalid_passes: "test_show_rib_aspath_invalid F"
  unfolding test_show_rib_aspath_invalid_def cmd_bgp_rib_aspath_def parse_numbers option.case by code_simp

lemma test_show_bgp_rib_prefix_not_found_passes: "test_show_bgp_rib_prefix_not_found F"
proof -
  have "split_once (CHR 0x2F) ''10.0.0.0/8'' = Some (''10.0.0.0'', ''8'')" by code_simp
  then show ?thesis
    unfolding test_show_bgp_rib_prefix_not_found_def cmd_bgp_rib_prefix_def
    by (simp only: parse_texts option.case prod.case loc_rib_new map_of.simps) code_simp
qed

lemma test_show_bgp_summary_empty_passes: "test_show_bgp_summary_empty F"
proof -
  have here: "contains (s @ ''(no peers configured)'' @ nl) ''no peers''" for s
    by (rule contains_append, rule disjI2) code_simp
  have "\<exists>s. cmd_bgp_summary (\<lambda>t. t) MgmtState_default (Rib_new F) = s @ ''(no peers configured)'' @ nl"
    unfolding cmd_bgp_summary_def Let_def MgmtState_default_def MgmtState.select_convs if_P [OF refl]
    by (cases "rib_summary (Rib_new F)") (simp only: prod.case, blast)
  then show ?thesis
    unfolding test_show_bgp_summary_empty_def Let_def by (metis here)
qed

lemma test_unknown_command_passes: "test_unknown_command F"
proof -
  have "split_whitespace ''foo bar'' = [''foo'', ''bar'']" by code_simp
  moreover have "contains (''Unknown command: '' @ s) ''Unknown command''" for s
    using contains_prefix [of "''Unknown command''" "'': '' @ s"] by simp
  ultimately show ?thesis
    unfolding test_unknown_command_def process_command_def by (simp add: Let_def)
qed

text \<open>The one route of the tables that the commands are tried on.\<close>

definition shown_route :: Route where
  "shown_route = \<lparr>route_prefix = Prefix_new 0x0A000000 8,
     attrs = PathAttributes_default\<lparr>next_hop := Some 0xC0000201, as_path := [AsSequence [64500, 64501]]\<rparr>,
     peer_addr = \<lparr>sock_ip = V4 0xC0000201, sock_port = 179\<rparr>, peer_as = 64500, received_at = 0, stale = False,
     rov_state = NotFound\<rparr>"

lemma rib_with_routes_loc: "loc_rib (rib_with_routes F) = [(PrefixKey_from (Prefix_new 0x0A000000 8), shown_route)]"
  by (simp add: rib_with_routes_def shown_route_def rib_tests)

lemma show_address: "show_ipv4 (from_be [a, b, c, d]) =
   show_nat (unat a) @ [CHR 0x2E] @ show_nat (unat b) @ [CHR 0x2E] @ show_nat (unat c) @ [CHR 0x2E] @ show_nat (unat d)"
  by (simp add: show_ipv4_def)

lemma octets: "0x0A000000 = (from_be [10, 0, 0, 0] :: u32)" "0xC0A80000 = (from_be [192, 168, 0, 0] :: u32)"
  "0xC0000201 = (from_be [192, 0, 2, 1] :: u32)" "0x01020304 = (from_be [1, 2, 3, 4] :: u32)"
  by code_simp+

lemma show_keys:
  "PrefixKey_to_string (PrefixKey_from (Prefix_new 0x0A000000 8)) = ''10.0.0.0/8''"
  "PrefixKey_to_string (PrefixKey_from (Prefix_new 0xC0A80000 24)) = ''192.168.0.0/24''"
  by (simp only: PrefixKey_to_string_def PrefixKey_from_def Prefix_new_def octets PrefixKey.simps Prefix.simps show_address,
      simp add: show_nat.simps digit_char_def, code_simp)+

lemma show_asns: "show_u32 64500 = ''64500''" "show_u32 65001 = ''65001''"
  by (simp_all add: show_u32_def show_nat.simps digit_char_def, code_simp+)

lemma test_show_rib_aspath_not_found_passes: "test_show_rib_aspath_not_found F"
proof -
  have "\<not> has_asn 99999 shown_route" by (simp add: has_asn_def shown_route_def)
  then show ?thesis
    using contains_prefix [of "''No routes''"]
    by (simp add: test_show_rib_aspath_not_found_def cmd_bgp_rib_aspath_def parse_numbers rib_with_routes_loc
        insertion_order_def)
qed

lemma test_show_rib_nexthop_not_found_passes: "test_show_rib_nexthop_not_found F"
  using contains_prefix [of "''No routes''"]
  by (simp add: test_show_rib_nexthop_not_found_def cmd_bgp_rib_nexthop_def parse_texts rib_with_routes_loc
      insertion_order_def shown_route_def)

lemma contains_row: "contains (left_col 20 s @ t) s"
  using contains_prefix by (simp add: left_col_def)

lemma test_show_rib_aspath_found_passes: "test_show_rib_aspath_found F"
proof -
  let ?kr = "(PrefixKey_from (Prefix_new 0x0A000000 8), shown_route)"
  have "has_asn 64500 shown_route" by (simp add: has_asn_def shown_route_def)
  then have out: "cmd_bgp_rib_aspath insertion_order (rib_with_routes F) ''64500'' =
      ''Routes with ASN '' @ ''64500'' @ '' in AS_PATH'' @ nl @ replicate 40 (CHR 0x3D) @ nl @ aspath_row ?kr"
    by (simp add: cmd_bgp_rib_aspath_def parse_numbers show_asns rib_with_routes_loc insertion_order_def sort_routes_def
        sort_by_def)
  have "contains (aspath_row ?kr) ''10.0.0.0/8''"
    unfolding aspath_row_def prod.case show_keys by (rule contains_row)
  moreover have "contains (''64500'' @ s) ''64500''" for s by (rule contains_prefix)
  ultimately show ?thesis
    unfolding test_show_rib_aspath_found_def out Let_def by (blast intro: contains_append)
qed

lemma test_show_rib_nexthop_found_passes: "test_show_rib_nexthop_found F"
proof -
  let ?kr = "(PrefixKey_from (Prefix_new 0x0A000000 8), shown_route)"
  have out: "cmd_bgp_rib_nexthop insertion_order (rib_with_routes F) ''192.0.2.1'' =
      ''Routes via next-hop '' @ show_ipv4 0xC0000201 @ nl @ replicate 40 (CHR 0x3D) @ nl @ nexthop_row ?kr"
    by (simp add: cmd_bgp_rib_nexthop_def parse_texts rib_with_routes_loc insertion_order_def sort_routes_def
        sort_by_def shown_route_def)
  have "contains (nexthop_row ?kr) ''10.0.0.0/8''"
    unfolding nexthop_row_def prod.case show_keys by (rule contains_row)
  then show ?thesis
    unfolding test_show_rib_nexthop_found_def out by (blast intro: contains_append)
qed

lemma test_show_rib_with_routes_passes: "test_show_rib_with_routes F"
proof -
  let ?key = "PrefixKey_from (Prefix_new 0xC0A80000 24)"
  let ?attrs = "PathAttributes_default\<lparr>origin := Some Igp, local_pref := Some 100, next_hop := Some 0x0A000001,
    as_path := [AsSequence [65001, 65002]]\<rparr>"
  obtain rib c r where up: "updated F (test_peer 2) 65001 [Prefix_new 0xC0A80000 24] ?attrs [] (fresh F) = (rib, c)"
    and loc: "loc_rib rib = [(?key, r)]" and at: "attrs r = ?attrs"
    by (simp add: rib_tests)
  have row: "rib_row (?key, r) = left_col 20 ''192.168.0.0/24'' @ '' '' @ right_col 10 (show_u32 (local_pref_of r)) @ '' '' @
     right_col 6 (show_u32 (med_of r)) @ '' '' @ ''65001 '' @ show_u32 65002 @ '' '' @
     left_col 20 (next_hop_text r) @ '' '' @ origin_text r @ nl"
    by (simp add: rib_row_def show_keys as_path_text_def at show_asns or_else_def right_col_def [of 6 "_ # _"])
  have "contains (''65001 '' @ s) ''65001''" for s using contains_prefix [of "''65001''" "'' '' @ s"] by simp
  then have "contains (rib_row (?key, r)) ''192.168.0.0/24'' \<and> contains (rib_row (?key, r)) ''65001''"
    unfolding row by (blast intro: contains_append contains_row)
  moreover have "cmd_bgp_rib insertion_order rib = rib_head @ rib_row (?key, r)"
    by (simp add: cmd_bgp_rib_def loc insertion_order_def sort_routes_def sort_by_def)
  ultimately show ?thesis
    unfolding test_show_rib_with_routes_def Let_def up prod.case by (simp add: contains_append)
qed

end
