(* ===== verification/Unit_Tests_Config.thy ===== *)
theory Unit_Tests_Config
  imports Unit_Tests_Wire Unit_Tests_Ops
begin

text \<open>
  The unit tests of the configuration.  They decode TOML documents with the \<^verbatim>\<open>toml\<close> crate, which is the parameter
  \<open>parse_toml\<close>: a test is a truth value over that parameter, and it passes for every decoder that reads the
  document of the test as the data written there, with the defaults of \<^verbatim>\<open>config.rs\<close> for what is left out.
\<close>

section \<open>Messages\<close>

text \<open>The messages of \<^verbatim>\<open>anyhow::bail!\<close> in \<^verbatim>\<open>validate\<close>; those of the file system and of the \<^verbatim>\<open>toml\<close> crate are not in the
  repository.\<close>

definition bail_message :: "ConfigError \<Rightarrow> string option" where
  "bail_message e = (case e of
     ReadError \<Rightarrow> None
   | TomlError \<Rightarrow> None
   | ZeroLocalAs \<Rightarrow> Some ''local_as must be non-zero''
   | UnspecifiedRouterId \<Rightarrow> Some ''router_id must not be 0.0.0.0''
   | BroadcastRouterId \<Rightarrow> Some ''router_id must not be 255.255.255.255''
   | LoopbackRouterId \<Rightarrow> Some ''router_id must not be a loopback address (127.x.x.x)''
   | BadHoldTime \<Rightarrow> Some ''hold_time must be 0 or >= 3 seconds (RFC 4271)''
   | ZeroKeepalive \<Rightarrow> Some ''keepalive_interval must be > 0''
   | KeepaliveNotBelowHoldTime \<Rightarrow> Some ''keepalive_interval must be less than hold_time''
   | DuplicateNeighbor a \<Rightarrow> Some (''duplicate neighbor address: '' @ show_ip a)
   | ZeroRemoteAs a \<Rightarrow> Some (''neighbor '' @ show_ip a @ '': remote_as must be non-zero'')
   | BadNeighborHoldTime a \<Rightarrow> Some (''neighbor '' @ show_ip a @ '': hold_time must be 0 or >= 3 seconds'')
   | EmptyMd5Password a \<Rightarrow> Some (''neighbor '' @ show_ip a @ '': md5_password must not be empty'')
   | LongMd5Password a \<Rightarrow> Some (''neighbor '' @ show_ip a @ '': md5_password exceeds 80 bytes (RFC 2385)''))"

section \<open>Documents\<close>

definition document :: "string list \<Rightarrow> string" where
  "document ls = concat (map (\<lambda>l. l @ nl) ls)"

definition decoded :: "RouterConfig \<Rightarrow> NeighborConfig list \<Rightarrow> Config" where
  "decoded r ns = \<lparr>router = r, neighbors = ns, policy = \<lparr>prefix_lists = [], community_lists = []\<rparr>\<rparr>"

definition neighbor :: "Ipv4Addr \<Rightarrow> u32 \<Rightarrow> NeighborConfig" where
  "neighbor a remote = \<lparr>nb_addr = V4 a, nb_remote_as = remote, nb_hold_time = None, nb_description = None,
     route_reflector_client = False, import_policy = None, export_policy = None, md5_password = None\<rparr>"

definition is_err :: "('e, 'a) outcome \<Rightarrow> bool" where
  "is_err r = (case r of Err _ \<Rightarrow> True | _ \<Rightarrow> False)"

text \<open>\<^verbatim>\<open>unwrap_err().to_string().contains(pat)\<close>.\<close>

definition err_contains :: "(ConfigError, 'a) outcome \<Rightarrow> string \<Rightarrow> bool" where
  "err_contains r pat = (case r of Err e \<Rightarrow> some_and (bail_message e) (\<lambda>s. contains s pat) | _ \<Rightarrow> False)"

lemma bail_texts:
  "err_contains (Err UnspecifiedRouterId) ''0.0.0.0''"
  "err_contains (Err KeepaliveNotBelowHoldTime) ''keepalive_interval''"
  "err_contains (Err (DuplicateNeighbor a)) ''duplicate''"
  "err_contains (Err (EmptyMd5Password a)) ''md5_password''"
  "err_contains (Err (LongMd5Password a)) ''md5_password''"
proof -
  have within: "contains s pat \<Longrightarrow> contains (s @ t) pat" "contains s pat \<Longrightarrow> contains (u @ s) pat" for s t u pat
    by (simp_all add: contains_append)
  have "contains ''router_id must not be 0.0.0.0'' ''0.0.0.0''"
    "contains ''keepalive_interval must be less than hold_time'' ''keepalive_interval''"
    "contains ''duplicate neighbor address: '' ''duplicate''"
    "contains '': md5_password must not be empty'' ''md5_password''"
    "contains '': md5_password exceeds 80 bytes (RFC 2385)'' ''md5_password''"
    by code_simp+
  then show
    "err_contains (Err UnspecifiedRouterId) ''0.0.0.0''"
    "err_contains (Err KeepaliveNotBelowHoldTime) ''keepalive_interval''"
    "err_contains (Err (DuplicateNeighbor a)) ''duplicate''"
    "err_contains (Err (EmptyMd5Password a)) ''md5_password''"
    "err_contains (Err (LongMd5Password a)) ''md5_password''"
    unfolding err_contains_def bail_message_def some_and_def outcome.case ConfigError.case option.case
    by (auto intro: within simp del: append_Cons)
qed

lemma router_ids:
  "to_be 4 (0x01020304 :: u32) = [1, 2, 3, 4]" "to_be 4 (0xFFFFFFFF :: u32) = [255, 255, 255, 255]"
  "to_be 4 (0x7F000001 :: u32) = [127, 0, 0, 1]" "to_be 4 (0x0A000001 :: u32) = [10, 0, 0, 1]"
  by code_simp+

lemmas config_tests =
  Config_from_str_def decoded_def neighbor_def validate_def check_keepalive_def check_md5_def is_err_def unwrapped_def
  default_hold_time_def is_loopback_def bail_texts router_ids Let_def

section \<open>Tests\<close>

definition minimal_config_doc :: string where
  "minimal_config_doc = document
     ['''',
      ''[router]'',
      ''local_as = 65000'',
      ''router_id = '' @ [CHR 0x22] @ ''1.2.3.4'' @ [CHR 0x22]]"

definition test_minimal_config :: "(string \<Rightarrow> Config option) \<Rightarrow> bool" where
  "test_minimal_config parse_toml =
     unwrapped (Config_from_str parse_toml minimal_config_doc) (\<lambda>cfg. rc_local_as (router cfg) = 65000 \<and> neighbors cfg = [])"

lemma test_minimal_config_passes:
  assumes "parse_toml minimal_config_doc = Some (decoded
    \<lparr>rc_local_as = 65000, rc_router_id = 0x01020304, rc_listen = default_listen,
        rc_hold_time = default_hold_time, rc_keepalive_interval = None\<rparr>
    [])"
  shows "test_minimal_config parse_toml"
  using assms by (simp add: test_minimal_config_def config_tests)

definition invalid_hold_time_doc :: string where
  "invalid_hold_time_doc = document
     ['''',
      ''[router]'',
      ''local_as = 65000'',
      ''router_id = '' @ [CHR 0x22] @ ''1.2.3.4'' @ [CHR 0x22],
      ''hold_time = 2'']"

definition test_invalid_hold_time :: "(string \<Rightarrow> Config option) \<Rightarrow> bool" where
  "test_invalid_hold_time parse_toml =
     is_err (Config_from_str parse_toml invalid_hold_time_doc)"

lemma test_invalid_hold_time_passes:
  assumes "parse_toml invalid_hold_time_doc = Some (decoded
    \<lparr>rc_local_as = 65000, rc_router_id = 0x01020304, rc_listen = default_listen,
        rc_hold_time = 2, rc_keepalive_interval = None\<rparr>
    [])"
  shows "test_invalid_hold_time parse_toml"
  using assms by (simp add: test_invalid_hold_time_def config_tests)

definition invalid_as_doc :: string where
  "invalid_as_doc = document
     ['''',
      ''[router]'',
      ''local_as = 0'',
      ''router_id = '' @ [CHR 0x22] @ ''1.2.3.4'' @ [CHR 0x22]]"

definition test_invalid_as :: "(string \<Rightarrow> Config option) \<Rightarrow> bool" where
  "test_invalid_as parse_toml =
     is_err (Config_from_str parse_toml invalid_as_doc)"

lemma test_invalid_as_passes:
  assumes "parse_toml invalid_as_doc = Some (decoded
    \<lparr>rc_local_as = 0, rc_router_id = 0x01020304, rc_listen = default_listen,
        rc_hold_time = default_hold_time, rc_keepalive_interval = None\<rparr>
    [])"
  shows "test_invalid_as parse_toml"
  using assms by (simp add: test_invalid_as_def config_tests)

definition invalid_router_id_unspecified_doc :: string where
  "invalid_router_id_unspecified_doc = document
     ['''',
      ''[router]'',
      ''local_as = 65000'',
      ''router_id = '' @ [CHR 0x22] @ ''0.0.0.0'' @ [CHR 0x22]]"

definition test_invalid_router_id_unspecified :: "(string \<Rightarrow> Config option) \<Rightarrow> bool" where
  "test_invalid_router_id_unspecified parse_toml =
     err_contains (Config_from_str parse_toml invalid_router_id_unspecified_doc) ''0.0.0.0''"

lemma test_invalid_router_id_unspecified_passes:
  assumes "parse_toml invalid_router_id_unspecified_doc = Some (decoded
    \<lparr>rc_local_as = 65000, rc_router_id = 0, rc_listen = default_listen,
        rc_hold_time = default_hold_time, rc_keepalive_interval = None\<rparr>
    [])"
  shows "test_invalid_router_id_unspecified parse_toml"
  using assms by (simp add: test_invalid_router_id_unspecified_def config_tests)

definition invalid_router_id_broadcast_doc :: string where
  "invalid_router_id_broadcast_doc = document
     ['''',
      ''[router]'',
      ''local_as = 65000'',
      ''router_id = '' @ [CHR 0x22] @ ''255.255.255.255'' @ [CHR 0x22]]"

definition test_invalid_router_id_broadcast :: "(string \<Rightarrow> Config option) \<Rightarrow> bool" where
  "test_invalid_router_id_broadcast parse_toml =
     is_err (Config_from_str parse_toml invalid_router_id_broadcast_doc)"

lemma test_invalid_router_id_broadcast_passes:
  assumes "parse_toml invalid_router_id_broadcast_doc = Some (decoded
    \<lparr>rc_local_as = 65000, rc_router_id = 0xFFFFFFFF, rc_listen = default_listen,
        rc_hold_time = default_hold_time, rc_keepalive_interval = None\<rparr>
    [])"
  shows "test_invalid_router_id_broadcast parse_toml"
  using assms by (simp add: test_invalid_router_id_broadcast_def config_tests)

definition invalid_router_id_loopback_doc :: string where
  "invalid_router_id_loopback_doc = document
     ['''',
      ''[router]'',
      ''local_as = 65000'',
      ''router_id = '' @ [CHR 0x22] @ ''127.0.0.1'' @ [CHR 0x22]]"

definition test_invalid_router_id_loopback :: "(string \<Rightarrow> Config option) \<Rightarrow> bool" where
  "test_invalid_router_id_loopback parse_toml =
     is_err (Config_from_str parse_toml invalid_router_id_loopback_doc)"

lemma test_invalid_router_id_loopback_passes:
  assumes "parse_toml invalid_router_id_loopback_doc = Some (decoded
    \<lparr>rc_local_as = 65000, rc_router_id = 0x7F000001, rc_listen = default_listen,
        rc_hold_time = default_hold_time, rc_keepalive_interval = None\<rparr>
    [])"
  shows "test_invalid_router_id_loopback parse_toml"
  using assms by (simp add: test_invalid_router_id_loopback_def config_tests)

definition duplicate_neighbor_doc :: string where
  "duplicate_neighbor_doc = document
     ['''',
      ''[router]'',
      ''local_as = 65000'',
      ''router_id = '' @ [CHR 0x22] @ ''1.2.3.4'' @ [CHR 0x22],
      '''',
      [CHR 0x5B] @ ''[neighbors]'' @ [CHR 0x5D],
      ''addr = '' @ [CHR 0x22] @ ''10.0.0.1'' @ [CHR 0x22],
      ''remote_as = 65001'',
      '''',
      [CHR 0x5B] @ ''[neighbors]'' @ [CHR 0x5D],
      ''addr = '' @ [CHR 0x22] @ ''10.0.0.1'' @ [CHR 0x22],
      ''remote_as = 65002'']"

definition test_duplicate_neighbor :: "(string \<Rightarrow> Config option) \<Rightarrow> bool" where
  "test_duplicate_neighbor parse_toml =
     err_contains (Config_from_str parse_toml duplicate_neighbor_doc) ''duplicate''"

lemma test_duplicate_neighbor_passes:
  assumes "parse_toml duplicate_neighbor_doc = Some (decoded
    \<lparr>rc_local_as = 65000, rc_router_id = 0x01020304, rc_listen = default_listen,
        rc_hold_time = default_hold_time, rc_keepalive_interval = None\<rparr>
    [neighbor 0x0A000001 65001, neighbor 0x0A000001 65002])"
  shows "test_duplicate_neighbor parse_toml"
  using assms by (simp add: test_duplicate_neighbor_def config_tests)

definition neighbor_zero_remote_as_doc :: string where
  "neighbor_zero_remote_as_doc = document
     ['''',
      ''[router]'',
      ''local_as = 65000'',
      ''router_id = '' @ [CHR 0x22] @ ''1.2.3.4'' @ [CHR 0x22],
      '''',
      [CHR 0x5B] @ ''[neighbors]'' @ [CHR 0x5D],
      ''addr = '' @ [CHR 0x22] @ ''10.0.0.1'' @ [CHR 0x22],
      ''remote_as = 0'']"

definition test_neighbor_zero_remote_as :: "(string \<Rightarrow> Config option) \<Rightarrow> bool" where
  "test_neighbor_zero_remote_as parse_toml =
     is_err (Config_from_str parse_toml neighbor_zero_remote_as_doc)"

lemma test_neighbor_zero_remote_as_passes:
  assumes "parse_toml neighbor_zero_remote_as_doc = Some (decoded
    \<lparr>rc_local_as = 65000, rc_router_id = 0x01020304, rc_listen = default_listen,
        rc_hold_time = default_hold_time, rc_keepalive_interval = None\<rparr>
    [neighbor 0x0A000001 0])"
  shows "test_neighbor_zero_remote_as parse_toml"
  using assms by (simp add: test_neighbor_zero_remote_as_def config_tests)

definition invalid_keepalive_interval_doc :: string where
  "invalid_keepalive_interval_doc = document
     ['''',
      ''[router]'',
      ''local_as = 65000'',
      ''router_id = '' @ [CHR 0x22] @ ''1.2.3.4'' @ [CHR 0x22],
      ''hold_time = 90'',
      ''keepalive_interval = 100'']"

definition test_invalid_keepalive_interval :: "(string \<Rightarrow> Config option) \<Rightarrow> bool" where
  "test_invalid_keepalive_interval parse_toml =
     err_contains (Config_from_str parse_toml invalid_keepalive_interval_doc) ''keepalive_interval''"

lemma test_invalid_keepalive_interval_passes:
  assumes "parse_toml invalid_keepalive_interval_doc = Some (decoded
    \<lparr>rc_local_as = 65000, rc_router_id = 0x01020304, rc_listen = default_listen,
        rc_hold_time = 90, rc_keepalive_interval = Some 100\<rparr>
    [])"
  shows "test_invalid_keepalive_interval parse_toml"
  using assms by (simp add: test_invalid_keepalive_interval_def config_tests)

definition md5_password_valid_doc :: string where
  "md5_password_valid_doc = document
     ['''',
      ''[router]'',
      ''local_as = 65000'',
      ''router_id = '' @ [CHR 0x22] @ ''1.2.3.4'' @ [CHR 0x22],
      '''',
      [CHR 0x5B] @ ''[neighbors]'' @ [CHR 0x5D],
      ''addr = '' @ [CHR 0x22] @ ''10.0.0.1'' @ [CHR 0x22],
      ''remote_as = 65001'',
      ''md5_password = '' @ [CHR 0x22] @ ''secret'' @ [CHR 0x22]]"

definition test_md5_password_valid :: "(string \<Rightarrow> Config option) \<Rightarrow> bool" where
  "test_md5_password_valid parse_toml =
     unwrapped (Config_from_str parse_toml md5_password_valid_doc) (\<lambda>cfg. md5_password (neighbors cfg ! 0) = Some ''secret'')"

lemma test_md5_password_valid_passes:
  assumes "parse_toml md5_password_valid_doc = Some (decoded
    \<lparr>rc_local_as = 65000, rc_router_id = 0x01020304, rc_listen = default_listen,
        rc_hold_time = default_hold_time, rc_keepalive_interval = None\<rparr>
    [(neighbor 0x0A000001 65001)\<lparr>md5_password := Some ''secret''\<rparr>])"
  shows "test_md5_password_valid parse_toml"
  using assms by (simp add: test_md5_password_valid_def config_tests)

definition md5_password_empty_rejected_doc :: string where
  "md5_password_empty_rejected_doc = document
     ['''',
      ''[router]'',
      ''local_as = 65000'',
      ''router_id = '' @ [CHR 0x22] @ ''1.2.3.4'' @ [CHR 0x22],
      '''',
      [CHR 0x5B] @ ''[neighbors]'' @ [CHR 0x5D],
      ''addr = '' @ [CHR 0x22] @ ''10.0.0.1'' @ [CHR 0x22],
      ''remote_as = 65001'',
      ''md5_password = '' @ [CHR 0x22] @ [CHR 0x22]]"

definition test_md5_password_empty_rejected :: "(string \<Rightarrow> Config option) \<Rightarrow> bool" where
  "test_md5_password_empty_rejected parse_toml =
     err_contains (Config_from_str parse_toml md5_password_empty_rejected_doc) ''md5_password''"

lemma test_md5_password_empty_rejected_passes:
  assumes "parse_toml md5_password_empty_rejected_doc = Some (decoded
    \<lparr>rc_local_as = 65000, rc_router_id = 0x01020304, rc_listen = default_listen,
        rc_hold_time = default_hold_time, rc_keepalive_interval = None\<rparr>
    [(neighbor 0x0A000001 65001)\<lparr>md5_password := Some ''''\<rparr>])"
  shows "test_md5_password_empty_rejected parse_toml"
  using assms by (simp add: test_md5_password_empty_rejected_def config_tests)

definition md5_password_too_long_rejected_doc :: string where
  "md5_password_too_long_rejected_doc = document
     ['''',
      ''[router]'',
      ''local_as = 65000'',
      ''router_id = '' @ [CHR 0x22] @ ''1.2.3.4'' @ [CHR 0x22],
      '''',
      [CHR 0x5B] @ ''[neighbors]'' @ [CHR 0x5D],
      ''addr = '' @ [CHR 0x22] @ ''10.0.0.1'' @ [CHR 0x22],
      ''remote_as = 65001'',
      ''md5_password = '' @ [CHR 0x22] @ replicate 81 (CHR ''x'') @ [CHR 0x22]]"

definition test_md5_password_too_long_rejected :: "(string \<Rightarrow> Config option) \<Rightarrow> bool" where
  "test_md5_password_too_long_rejected parse_toml =
     err_contains (Config_from_str parse_toml md5_password_too_long_rejected_doc) ''md5_password''"

lemma test_md5_password_too_long_rejected_passes:
  assumes "parse_toml md5_password_too_long_rejected_doc = Some (decoded
    \<lparr>rc_local_as = 65000, rc_router_id = 0x01020304, rc_listen = default_listen,
        rc_hold_time = default_hold_time, rc_keepalive_interval = None\<rparr>
    [(neighbor 0x0A000001 65001)\<lparr>md5_password := Some (replicate 81 (CHR ''x''))\<rparr>])"
  shows "test_md5_password_too_long_rejected parse_toml"
  using assms by (simp add: test_md5_password_too_long_rejected_def config_tests)

definition SAMPLE_CONFIG :: string where
  "SAMPLE_CONFIG = document
     ['''',
      ''[router]'',
      ''local_as = 65001'',
      ''router_id = '' @ [CHR 0x22] @ ''10.0.0.1'' @ [CHR 0x22],
      ''listen = '' @ [CHR 0x22] @ ''0.0.0.0:179'' @ [CHR 0x22],
      ''hold_time = 90'',
      '''',
      [CHR 0x5B] @ ''[neighbors]'' @ [CHR 0x5D],
      ''addr = '' @ [CHR 0x22] @ ''192.168.1.2'' @ [CHR 0x22],
      ''remote_as = 65002'',
      ''description = '' @ [CHR 0x22] @ ''Upstream provider'' @ [CHR 0x22],
      ''import_policy = '' @ [CHR 0x22] @ ''import-from-upstream'' @ [CHR 0x22],
      '''',
      [CHR 0x5B] @ ''[neighbors]'' @ [CHR 0x5D],
      ''addr = '' @ [CHR 0x22] @ ''10.0.0.2'' @ [CHR 0x22],
      ''remote_as = 65001'',
      ''description = '' @ [CHR 0x22] @ ''iBGP peer'' @ [CHR 0x22],
      ''route_reflector_client = true'',
      '''',
      ''[policy]'',
      [CHR 0x5B] @ ''[policy.prefix_lists]'' @ [CHR 0x5D],
      ''name = '' @ [CHR 0x22] @ ''allowed-prefixes'' @ [CHR 0x22],
      ''entries = ['',
      ''    { action = '' @ [CHR 0x22] @ ''permit'' @ [CHR 0x22] @ '', prefix = '' @ [CHR 0x22] @ ''10.0.0.0/8'' @ [CHR 0x22] @ '' },'',
      ''    { action = '' @ [CHR 0x22] @ ''permit'' @ [CHR 0x22] @ '', prefix = '' @ [CHR 0x22] @ ''172.16.0.0/12'' @ [CHR 0x22] @ '', ge = 24, le = 32 },'',
      ''    { action = '' @ [CHR 0x22] @ ''deny'' @ [CHR 0x22] @ '',   prefix = '' @ [CHR 0x22] @ ''0.0.0.0/0'' @ [CHR 0x22] @ '' },'',
      '']'',
      '''',
      [CHR 0x5B] @ ''[policy.community_lists]'' @ [CHR 0x5D],
      ''name = '' @ [CHR 0x22] @ ''no-export-comms'' @ [CHR 0x22],
      ''communities = ['' @ [CHR 0x22] @ ''no-export'' @ [CHR 0x22] @ '', '' @ [CHR 0x22] @ ''65001:100'' @ [CHR 0x22] @ '']'']"

definition test_parse_full_config :: "(string \<Rightarrow> Config option) \<Rightarrow> bool" where
  "test_parse_full_config parse_toml =
     unwrapped (Config_from_str parse_toml SAMPLE_CONFIG) (\<lambda>cfg.
       rc_local_as (router cfg) = 65001 \<and> rc_router_id (router cfg) = 0x0A000001 \<and> rc_hold_time (router cfg) = 90 \<and>
       length (neighbors cfg) = 2 \<and> nb_remote_as (neighbors cfg ! 0) = 65002 \<and>
       route_reflector_client (neighbors cfg ! 1) \<and> length (prefix_lists (policy cfg)) = 1 \<and>
       length (entries (prefix_lists (policy cfg) ! 0)) = 3 \<and> length (community_lists (policy cfg)) = 1)"

lemma test_parse_full_config_passes:
  assumes "parse_toml SAMPLE_CONFIG = Some
    \<lparr>router = \<lparr>rc_local_as = 65001, rc_router_id = 0x0A000001, rc_listen = default_listen,
        rc_hold_time = 90, rc_keepalive_interval = None\<rparr>,
     neighbors =
       [(neighbor 0xC0A80102 65002)\<lparr>nb_description := Some ''Upstream provider'',
          import_policy := Some ''import-from-upstream''\<rparr>,
        (neighbor 0x0A000002 65001)\<lparr>nb_description := Some ''iBGP peer'', route_reflector_client := True\<rparr>],
     policy = \<lparr>prefix_lists =
         [\<lparr>pl_name = ''allowed-prefixes'', entries =
            [\<lparr>ple_action = Permit, ple_prefix = ''10.0.0.0/8'', ge = None, le = None\<rparr>,
             \<lparr>ple_action = Permit, ple_prefix = ''172.16.0.0/12'', ge = Some 24, le = Some 32\<rparr>,
             \<lparr>ple_action = Deny, ple_prefix = ''0.0.0.0/0'', ge = None, le = None\<rparr>]\<rparr>],
       community_lists = [\<lparr>cl_name = ''no-export-comms'', cl_communities = [''no-export'', ''65001:100'']\<rparr>]\<rparr>\<rparr>"
  shows "test_parse_full_config parse_toml"
  using assms by (simp add: test_parse_full_config_def config_tests)

end
