(* ===== verification/Spec2Isabelle.thy ===== *)
theory Spec2Isabelle
  imports Message Capabilities Open_Message Attr Attr_Wire Update Mp Std_Lib Rpki Dampening Rib
    Rib_Correct Rib_Props Fsm Text Metrics Peer Peer_Correct Peer_Props Server Config Policy Rr
    Attr_Typed Peer_Live Keepalive Handshake Route_Spec Isolation Session_Inv Mgmt Startup Program Fuzz
    Unit_Tests_Wire Unit_Tests_Rib Unit_Tests_Ops Unit_Tests_Config
begin

text \<open>
  PathForge is a BGP-4 daemon written in Rust (\<^verbatim>\<open>src/src\<close>).  It accepts TCP connections from peers, exchanges
  OPEN and KEEPALIVE messages with them, stores the routes of their UPDATE messages in one Adj-RIB-In for
  each peer, and keeps in the Loc-RIB the best route for every prefix.  This library models the protocol
  codecs, the routing table with dampening and origin validation, the session event loop, the daemon as a
  system of interleaved sessions, the start of the program and its management interface, and the
  configuration, policy, reflection and metrics modules.

  \<^bold>\<open>How the parts interact.\<close>  The server (\<^verbatim>\<open>server.rs\<close>) spawns one session (\<^verbatim>\<open>peer.rs\<close>) per
  connection.  A session appends what it reads to a buffer, extracts messages (\<^verbatim>\<open>message/mod.rs\<close>), parses
  their bodies (\<^verbatim>\<open>message/*.rs\<close>, \<^verbatim>\<open>attr.rs\<close>, \<^verbatim>\<open>capabilities.rs\<close>), drives its state machine and
  timers (\<^verbatim>\<open>fsm.rs\<close>, \<^verbatim>\<open>timer.rs\<close>) and calls the shared RIB (\<^verbatim>\<open>rib.rs\<close>) behind a lock; the RIB
  asks the dampening table (\<^verbatim>\<open>dampening.rs\<close>) and the ROA table (\<^verbatim>\<open>rpki.rs\<close>) whether to install a route.
  \<^verbatim>\<open>main.rs\<close> starts the server and the management server (\<^verbatim>\<open>mgmt.rs\<close>) on the same RIB and counters, with
  settings from the configuration (\<^verbatim>\<open>config.rs\<close>) or the command line.

  \<^bold>\<open>The theories.\<close>
  \<^item> \<open>Prelude\<close>: integer and address types, the \<open>outcome\<close> type, big-endian encoding, decimal text.  An
    \<open>outcome\<close> is \<open>Ok\<close>, \<open>Err\<close> (the \<^verbatim>\<open>Err\<close> of a \<^verbatim>\<open>Result\<close>), \<open>Panic\<close>, or \<open>NoFuel\<close>.
  \<^item> \<open>Bytes_Api\<close>: the \<^verbatim>\<open>bytes\<close> crate.  It is not part of the repository, so its operations are the fields of a
    record argument \<open>B\<close>; the locale \<open>bytes_crate\<close> states what its documentation promises and
    \<open>documented_bytes\<close> is an instance.
  \<^item> \<open>Message\<close>: \<^verbatim>\<open>message/mod.rs\<close>, \<^verbatim>\<open>keepalive.rs\<close>, \<^verbatim>\<open>notification.rs\<close>, \<^verbatim>\<open>route_refresh.rs\<close>.
  \<^item> \<open>Capabilities\<close>, \<open>Open_Message\<close>: \<^verbatim>\<open>capabilities.rs\<close>, \<^verbatim>\<open>message/open.rs\<close>.
  \<^item> \<open>Attr\<close>, \<open>Attr_Wire\<close>, \<open>Attr_Typed\<close>: \<^verbatim>\<open>attr.rs\<close>, the wire format of attributes with its round trip, and
    the invariants of the record that the parser returns.
  \<^item> \<open>Update\<close>, \<open>Mp\<close>: \<^verbatim>\<open>message/update.rs\<close>, \<^verbatim>\<open>mp.rs\<close>.
  \<^item> \<open>Std_Lib\<close>, \<open>Text\<close>: what the code uses of Rust's standard library: comparators and \<^verbatim>\<open>sort_by\<close>,
    \<^verbatim>\<open>HashMap\<close>, \<^verbatim>\<open>Instant\<close>, shifts; splitting, number and address parsing and printing.  The locale
    \<open>state_machine\<close> carries invariants to all reachable states, its extension \<open>simulation\<close> runs to an
    abstract machine.
  \<^item> \<open>Rpki\<close>, \<open>Dampening\<close>: \<^verbatim>\<open>rpki.rs\<close>, \<^verbatim>\<open>dampening.rs\<close>.
  \<^item> \<open>Rib\<close> (the model of \<^verbatim>\<open>rib.rs\<close>), \<open>Rib_Correct\<close> (its invariant, kept by every operation),
    \<open>Rib_Props\<close> (its properties).
  \<^item> \<open>Fsm\<close>, \<open>Metrics\<close>: \<^verbatim>\<open>fsm.rs\<close> with \<^verbatim>\<open>timer.rs\<close>, \<^verbatim>\<open>metrics.rs\<close>.
  \<^item> \<open>Peer\<close> (the model of \<^verbatim>\<open>peer.rs\<close>), \<open>Peer_Correct\<close>, \<open>Peer_Props\<close>, \<open>Peer_Live\<close> (a peer that falls
    silent is given up, one that never speaks is not), \<open>Keepalive\<close> (how often a session sends keepalives),
    \<open>Handshake\<close> (two instances of the program establish a session).
  \<^item> \<open>Server\<close>: \<^verbatim>\<open>server.rs\<close> and the daemon as a transition system.
  \<^item> \<open>Route_Spec\<close>: the abstract specification of the daemon, offers of peers and a selection from them, and
    the proof that the daemon refines it.  \<open>Isolation\<close>: what one peer observes does not depend on the others.
    \<open>Session_Inv\<close>: the invariant of the sessions of the running daemon.
  \<^item> \<open>Config\<close>, \<open>Policy\<close>, \<open>Rr\<close>: \<^verbatim>\<open>config.rs\<close>, \<^verbatim>\<open>policy.rs\<close>, \<^verbatim>\<open>rr.rs\<close>.
  \<^item> \<open>Mgmt\<close>, \<open>Startup\<close>: \<^verbatim>\<open>mgmt.rs\<close> with the text of every command, \<^verbatim>\<open>main.rs\<close>.
    \<open>Program\<close>: the daemon and the management server together, with the management connections as tasks.
  \<^item> \<open>Fuzz\<close>: the fuzz targets.  \<open>Unit_Tests_Wire\<close>, \<open>Unit_Tests_Rib\<close>, \<open>Unit_Tests_Ops\<close>, \<open>Unit_Tests_Config\<close>: the unit
    tests of the repository as truth values, each with a lemma that it passes, which ties the model to the
    behaviour that the authors observed.

  \<^bold>\<open>State and operations.\<close>  Structs are records and enums datatypes with the fields and variants of the
  source; a method that takes \<^verbatim>\<open>&mut self\<close> returns the changed record.  A name that two modules use is
  prefixed by its type (\<open>OpenMessage_parse\<close>).  Integers have the width of the source; arithmetic wraps and
  shift amounts are masked, as in the release profile that the Dockerfile and the Makefile build.
  \<^verbatim>\<open>usize\<close> is \<^typ>\<open>nat\<close>: it counts bytes and entries in memory.  A hash map is an association list with
  distinct keys; the order in which it is traversed is chosen by an argument \<open>H\<close>, of which only the locale
  \<open>hash_orders\<close> is assumed.  A clock is the sequence of its coming readings, without an assumption
  on it.  \<^verbatim>\<open>f64\<close> is a type parameter with the operations in a record \<open>F\<close>; the locale \<open>f64_laws\<close>
  states the facts used, and \<open>real_f64\<close> is an instance.  A session reads \<open>read_event\<close>s and the outcomes of
  its writes from the environment, so that the theorems hold for every network.

  \<^bold>\<open>Loops and fuel.\<close>  A parser loop has a fuel argument that starts at one more than the number of bytes
  left, and every pass consumes a byte; lemmas \<open>returns_...\<close> and \<open>session_iter_ends\<close> show that the fuel
  never runs out.  The event loop of a session and the accept loop need not end: their iterations are
  \<open>session_iter\<close> and the steps of \<open>sys_step\<close>.

  \<^bold>\<open>Interleaving.\<close>  A step of the daemon is an accepted connection, the passage of one session from the head of
  its loop to new data (\<open>poll\<close>), the handling of one message by one session (\<open>process\<close>), or one purge task.
  Each of them takes the lock of the RIB at most once, and the program switches tasks only between them or at
  points where it holds no lock.  \<open>iteration_refined\<close> shows that an undisturbed iteration of the event loop is
  a sequence of such steps.

  \<^bold>\<open>What is proved.\<close>  For the codecs: framing is exact, messages survive the wire, and for each parser either
  that it returns on every input or exactly on which inputs it panics.  For the RIB: the Loc-RIB holds a most
  preferred route for exactly the prefixes on offer in every reachable state; what announcements,
  withdrawals, peer loss and restart do; independence of hash order; longest prefix match.  For sessions: the
  handshake order, independence of stream segmentation, progress, that a peer that falls silent is given up, that
  an idle session sends its keepalives at least an interval apart and, as long as it runs often enough, within the hold
  time of the peer,
  that two instances of the program reach Established with the same hold time, what each kind of end leaves behind.
  For the daemon: the RIB invariant under all interleavings, the refinement of its abstract specification,
  the isolation of the peers from each other, the invariant of the sessions, the way of an announcement from the
  wire to the table and on to the answer that the operator reads, the way of a configuration from the file to the
  wire, and that the management commands show the selected routes.  For the other modules: the decisions of
  dampening, origin validation, prefix lists, reflection and configuration loading.  Theorems about error paths
  state where the code departs from its documentation: graceful restart is never entered, failing sessions leave
  their routes, the maximum length of a ROA is not enforced, a mute peer is kept, prefixes of more than 32 bits
  capture traffic.

  \<^bold>\<open>Not modelled.\<close>  Log output; the libraries \<^verbatim>\<open>clap\<close> (the command line arrives as the record \<open>Cli\<close>), \<^verbatim>\<open>toml\<close>
  and \<^verbatim>\<open>serde\<close> (parameters of \<open>Config\<close>) and \<^verbatim>\<open>tokio\<close> (its sockets, timers and tasks are the environment of the
  model); the failure of \<^verbatim>\<open>bind\<close> or \<^verbatim>\<open>accept\<close> on the BGP port, which ends the program, and of
  \<^verbatim>\<open>accept\<close> on the management socket, which is logged; the bytes that a failing write has sent before its error
  (a write sends all of its bytes or none); flow information and scope of IPv6 socket addresses; TCP-MD5, which the
  configuration stores and nothing uses; command lines with characters outside ASCII; and the
  end-to-end tests, which drive the running program from outside.  No code writes the table of peers of the management interface, so it stays empty in \<open>Startup\<close>.
\<close>

section \<open>Lemmas\<close>

text \<open>One UPDATE message in the buffer is one call of its handler.\<close>

lemma drain_one_update:
  assumes "BgpMessage_parse B buf = Ok (Some f, [])" and "msg_type (msg_header f) = Update"
    and "handle_update B F H (msg_body f) p = (q, Ok ())" and "0 < length buf"
  shows "drain B F H (Suc (length buf)) p buf = (q, [], Ok ())"
proof -
  obtain n where n: "length buf = Suc n" using assms(4) by (cases "length buf") auto
  have "handle_message B F H f p = (q, Ok ())" using assms(2,3) by (simp add: handle_message_def)
  from drain_message [OF assms(1) this, of "length buf"] show ?thesis
    by (simp add: n drain.simps(2) BgpMessage_parse_def HEADER_LEN_def)
qed

lemma session_iter_data:
  assumes "\<not> fst (hold_timer_expired (timers p) (clk p))" and "fst (send_keepalive B (timed p))"
    and "bs \<noteq> []"
    and "drain B F H (Suc (length (buf @ bs))) (snd (send_keepalive B (timed p))) (buf @ bs) = (q, rest, Ok ())"
  shows "session_iter B F H (ReadOk bs) p buf = (q, rest, Next)"
  using assms by (simp add: session_iter_def session_poll_def timed_def [symmetric] Let_def case_prod_beta)

lemma timed_remote_as [simp]: "remote_as (snd (send_keepalive B (timed p))) = remote_as p"
  by (simp add: send_keepalive_def timed_def env_defs)

lemma announced_update:
  assumes "bytes_crate B" and "hash_orders H" and "rib_ok (the_rib p)" and "\<not> rib_poisoned p"
    and "\<not> fst (hold_timer_expired (timers p) (clk p))" and "fst (send_keepalive B (timed p))"
    and "\<forall>w \<in> set (withdrawn_routes msg). prefix_ok w" and "\<forall>n \<in> set (nlri msg). prefix_ok n"
    and "attrs_ok (path_attributes msg)"
    and "length (update_body msg (PathAttributes_serialize B (path_attributes msg))) \<le> 4077"
    and "(UpdateMessage_serialize B msg :: (MessageError, u8 list) outcome) = Ok (buf @ bs)" and "bs \<noteq> []"
    and "n \<in> set (nlri msg)" and "PrefixKey_from n \<notin> PrefixKey_from ` set (withdrawn_routes msg)"
    and "\<not> is_suppressed (addr p) (PrefixKey_from n) (dampening (the_rib p))"
    and "\<not> should_reject (rpki (the_rib p))
           (validate_route (rpki (the_rib p)) (address n) (prefix_len n) (remote_as p))"
  shows "\<exists>q r b. session_iter B F H (ReadOk bs) p buf = (q, [], Next) \<and> state q = state p \<and>
           adj (the_rib q) (addr p) (PrefixKey_from n) = Some r \<and>
           fresh_route (addr p) (remote_as p) (path_attributes msg) (rpki (the_rib p)) (PrefixKey_from n) r \<and>
           hm_get (loc_rib (the_rib q)) (PrefixKey_from n) = Some b \<and> \<not> preferred r b"
proof -
  let ?k = "snd (send_keepalive B (timed p))"
  obtain f where f: "BgpMessage_parse B (buf @ bs) = Ok (Some f, [])" "msg_type (msg_header f) = Update"
      "UpdateMessage_parse B (msg_body f) = Ok msg"
    using update_framed_roundtrip [OF assms(1,7-10), of "[]"] assms(11) by auto
  have "nlri msg \<noteq> [] \<or> withdrawn_routes msg \<noteq> []" using assms(13) by auto
  from handle_update_effect [OF f(3) _ this, of ?k F H] obtain q c where
    q: "handle_update B F H (msg_body f) ?k = (q, Ok ())" "state q = state p"
      "the_rib q = fst (process_update F H (addr p) (remote_as p) (nlri msg) (path_attributes msg)
         (withdrawn_routes msg) (the_rib p) c)"
    using assms(4) by auto
  have "session_iter B F H (ReadOk bs) p buf = (q, [], Next)"
    using assms(12) by (intro session_iter_data assms(5,6) drain_one_update [OF f(1,2) q(1)]) auto
  moreover obtain c' where "process_update F H (addr p) (remote_as p) (nlri msg) (path_attributes msg)
      (withdrawn_routes msg) (the_rib p) c = (the_rib q, c')"
    using q(3) by (metis prod.collapse)
  from announced_installed [OF assms(2,3) this assms(13-16)]
  obtain r b where "adj (the_rib q) (addr p) (PrefixKey_from n) = Some r"
    "fresh_route (addr p) (remote_as p) (path_attributes msg) (rpki (the_rib p)) (PrefixKey_from n) r"
    "hm_get (loc_rib (the_rib q)) (PrefixKey_from n) = Some b" "\<not> preferred r b" by blast
  ultimately show ?thesis using q(2) by blast
qed

section \<open>Sample states\<close>

text \<open>The configured program with one session and one management connection, and the bytes of the sample update.\<close>

definition served :: "real System" where
  "served = accept documented_bytes a_peer (\<lambda>i. i) (\<lambda>_. True) configured_system"

definition watched :: "real Program" where
  "watched = mgmt_accept None True (mgmt_bind True
     ((Program_new configured_system (MgmtServer_new ''/tmp/pathforge.sock'' MgmtState_default))\<lparr>prog_daemon := served\<rparr>))"

definition sample_wire :: "u8 list" where
  "sample_wire =
     (let body = update_body sample_update (PathAttributes_serialize documented_bytes (path_attributes sample_update))
      in header_bytes (Header_new Update (length body)) @ body)"

lemma sample_wire_ok:
  "(UpdateMessage_serialize documented_bytes sample_update :: (MessageError, u8 list) outcome) = Ok ([] @ sample_wire)"
  "sample_wire \<noteq> []"
proof -
  show "(UpdateMessage_serialize documented_bytes sample_update :: (MessageError, u8 list) outcome) = Ok ([] @ sample_wire)"
    using doc.UpdateMessage_serialize_eq [of sample_update]
    by (simp add: sample_update_def sample_wire_def Prefix_new_def Let_def)
  show "sample_wire \<noteq> []" by (simp add: sample_wire_def header_bytes_def Let_def)
qed

lemma sample_update_fits:
  "length (update_body sample_update (PathAttributes_serialize documented_bytes (path_attributes sample_update))) \<le> 4077"
  "attrs_ok (path_attributes sample_update)" "\<forall>w \<in> set (withdrawn_routes sample_update). prefix_ok w"
  "\<forall>n \<in> set (nlri sample_update). prefix_ok n"
  by (simp_all add: sample_update_def Prefix_new_def prefix_ok_def encoded_len_def div_ceil8_def
      attrs_ok_def PathAttributes_default_def update_body_def prefix_bytes_def
      PathAttributes_serialize_def write_attr_def Let_def)

section \<open>Properties\<close>

text \<open>C4: an announcement travels from the wire to the routing table.  A session whose timers are not due
  has received all but the last read of an UPDATE message that the sender serialized; when that read
  arrives, however the message was cut, the iteration handles exactly this message, the session goes on
  in the same state with an empty buffer, every announced prefix that the update does not withdraw,
  dampening does not suppress and origin validation does not reject is in the peer's table with the
  attributes that were sent, and the Loc-RIB holds an entry for it to which it is not preferred.\<close>

theorem announcement_end_to_end:
  assumes "bytes_crate B" and "hash_orders H" and "rib_ok (the_rib p)" and "\<not> rib_poisoned p"
    and "\<not> fst (hold_timer_expired (timers p) (clk p))" and "fst (send_keepalive B (timed p))"
    and "\<forall>w \<in> set (withdrawn_routes msg). prefix_ok w" and "\<forall>n \<in> set (nlri msg). prefix_ok n"
    and "attrs_ok (path_attributes msg)"
    and "length (update_body msg (PathAttributes_serialize B (path_attributes msg))) \<le> 4077"
    and "(UpdateMessage_serialize B msg :: (MessageError, u8 list) outcome) = Ok (buf @ bs)" and "bs \<noteq> []"
    and "n \<in> set (nlri msg)" and "PrefixKey_from n \<notin> PrefixKey_from ` set (withdrawn_routes msg)"
    and "\<not> is_suppressed (addr p) (PrefixKey_from n) (dampening (the_rib p))"
    and "\<not> should_reject (rpki (the_rib p))
           (validate_route (rpki (the_rib p)) (address n) (prefix_len n) (remote_as p))"
  shows "\<exists>q r b. session_iter B F H (ReadOk bs) p buf = (q, [], Next) \<and> state q = state p \<and>
           adj (the_rib q) (addr p) (PrefixKey_from n) = Some r \<and>
           fresh_route (addr p) (remote_as p) (path_attributes msg) (rpki (the_rib p)) (PrefixKey_from n) r \<and>
           hm_get (loc_rib (the_rib q)) (PrefixKey_from n) = Some b \<and> \<not> preferred r b"
  using assms by (rule announced_update)

theorem announcement_end_to_end_witness:
  "\<exists>q r b. session_iter documented_bytes real_f64 insertion_order
       (ReadOk sample_wire) a_session [] = (q, [], Next) \<and> state q = OpenSent \<and>
     adj (the_rib q) a_peer \<lparr>key_address = 0xC0A80100, key_prefix_len = 24\<rparr> = Some r \<and>
     hm_get (loc_rib (the_rib q)) \<lparr>key_address = 0xC0A80100, key_prefix_len = 24\<rparr> = Some b \<and> \<not> preferred r b"
proof -
  have key: "PrefixKey_from (Prefix_new 0xC0A80100 24) = \<lparr>key_address = 0xC0A80100, key_prefix_len = 24\<rparr>"
    by (simp add: PrefixKey_from_def Prefix_new_def)
  have damp: "\<not> is_suppressed a_peer (PrefixKey_from (Prefix_new 0xC0A80100 24)) (dampening one_update)"
    and mode: "rpki one_update = RpkiValidator_default"
    unfolding one_update_def process_update_def
    by (simp_all add: configured_def Rib_new_def Rib_default_def Let_def install_routes.simps(2)
        check_advertisement_def DampeningTable_new_def validate_route_def RpkiValidator_default_def
        RpkiValidator_new_def should_reject_def Route_new_def now_def is_suppressed_def
        insertion.decisions_keeps)
  show ?thesis
    unfolding key [symmetric]
    using announcement_end_to_end [OF documented_bytes_ok insertion.hash_orders_axioms _ _ _ _
        sample_update_fits(3,4,2,1) sample_wire_ok, of a_session "Prefix_new 0xC0A80100 24" real_f64]
      damp mode one_update_ok
    by (simp add: sample_update_def PrefixKey_from_def Prefix_new_def should_reject_def
        RpkiValidator_default_def RpkiValidator_new_def) blast
qed

text \<open>C20: an announcement reaches the operator.  Take any state that the whole program can reach, with the daemon,
  its sessions and the management connections interleaved in any way, in which the lock of the RIB is not
  poisoned and a session has received all but the last read of an UPDATE message.  When that read arrives and the
  session runs its iteration, and the operator then asks on a live connection for a prefix that the update
  announces and does not withdraw, and that dampening does not suppress and origin validation does not reject,
  the program can go this way, the peer's table holds the route with the attributes that were sent, and the
  answer on the connection, followed by the prompt, is the detail of the installed route, to which the announced
  one is not preferred.\<close>

theorem announcement_reaches_operator:
  assumes "bytes_crate B" and "hash_orders H" and "start F read_file parse_toml cli = Ok (s0, mgmt)"
    and "(program_step B F rustc)\<^sup>*\<^sup>* (Program_new s0 mgmt) P" and "s = prog_daemon P"
    and "i < length (sessions s)" and "sessions s ! i = (p, buf, False)" and "\<not> poisoned s"
    and "p' = load s c ws p"
    and "\<not> fst (hold_timer_expired (timers p') (clk p'))" and "fst (send_keepalive B (timed p'))"
    and "\<forall>w \<in> set (withdrawn_routes msg). prefix_ok w" and "\<forall>n \<in> set (nlri msg). prefix_ok n"
    and "attrs_ok (path_attributes msg)"
    and "length (update_body msg (PathAttributes_serialize B (path_attributes msg))) \<le> 4077"
    and "(UpdateMessage_serialize B msg :: (MessageError, u8 list) outcome) = Ok (buf @ bs)" and "bs \<noteq> []"
    and "n \<in> set (nlri msg)" and "PrefixKey_from n \<notin> PrefixKey_from ` set (withdrawn_routes msg)"
    and "\<not> is_suppressed (addr p) (PrefixKey_from n) (dampening (srv_rib (server s)))"
    and "\<not> should_reject (rpki (srv_rib (server s)))
           (validate_route (rpki (srv_rib (server s))) (address n) (prefix_len n) (remote_as p))"
    and "j < length (prog_conns P)" and "conn_live (prog_conns P ! j)" and "ws' 0" and "ws' 1"
  shows "\<exists>q r b. session_iter B F H (ReadOk bs) p' buf = (q, [], Next) \<and>
    (let txt = PrefixKey_to_string (PrefixKey_from n);
         P1 = P\<lparr>prog_daemon := put_session i (q, [], False) (store q s)\<rparr>;
         P2 = mgmt_answer rustc H' Q ws' (''show bgp rib prefix '' @ txt) j P1
     in (program_step B F rustc)\<^sup>*\<^sup>* P P2 \<and>
        adj (srv_rib (server (prog_daemon P2))) (addr p) (PrefixKey_from n) = Some r \<and>
        attrs r = path_attributes msg \<and>
        hm_get (loc_rib (srv_rib (server (prog_daemon P2)))) (PrefixKey_from n) = Some b \<and> \<not> preferred r b \<and>
        prog_conns P2 ! j = \<lparr>conn_out = conn_out (prog_conns P ! j) @ route_detail txt b @ nl @ ''> '', conn_live = True\<rparr>)"
proof -
  have "(sys_step B F)\<^sup>*\<^sup>* s0 s" using management_observes [OF assms(3,4)] assms(5) by blast
  moreover obtain lc listen where s0: "s0 = System_new (Server_new F listen lc Metrics_new)"
    using assms(3) by (auto simp: start_Ok)
  ultimately have "sys_ok s" using daemon.reachable_inv [of s0 F] by blast
  then have ok: "rib_ok (the_rib p')" by (simp add: sys_ok_def assms(9) load_def)
  have p': "addr p' = addr p" "remote_as p' = remote_as p" "the_rib p' = srv_rib (server s)" "\<not> rib_poisoned p'"
    using assms(8) by (simp_all add: assms(9) load_def)
  from announced_update [OF assms(1,2) ok p'(4) assms(10-19)] assms(20,21) obtain q r b where
    q: "session_iter B F H (ReadOk bs) p' buf = (q, [], Next)" "adj (the_rib q) (addr p) (PrefixKey_from n) = Some r"
      "fresh_route (addr p) (remote_as p) (path_attributes msg) (rpki (srv_rib (server s))) (PrefixKey_from n) r"
      "hm_get (loc_rib (the_rib q)) (PrefixKey_from n) = Some b" "\<not> preferred r b"
    unfolding p'(1-3) by blast
  let ?s = "put_session i (q, [], False) (store q s)" and ?txt = "PrefixKey_to_string (PrefixKey_from n)"
  let ?P1 = "P\<lparr>prog_daemon := ?s\<rparr>"
  let ?P2 = "mgmt_answer rustc H' Q ws' (''show bgp rib prefix '' @ ?txt) j ?P1"
  have rib: "srv_rib (server ?s) = the_rib q" by (simp add: put_session_def store_def)
  have "(sys_step B F)\<^sup>*\<^sup>* s ?s"
    using iteration_refined [OF assms(1,2,6,7), of F "ReadOk bs" c ws] q(1) assms(9) by simp
  then have "(program_step B F rustc)\<^sup>*\<^sup>* P ?P1" unfolding assms(5) by (rule program_runs)
  then have "(program_step B F rustc)\<^sup>*\<^sup>* P ?P2"
    by (rule rtranclp.rtrancl_into_rtrancl) (rule program_step.answered)
  moreover have "prog_daemon ?P2 = ?s" by (simp add: mgmt_answer_def Let_def case_prod_beta)
  moreover have P1: "prog_conns ?P1 = prog_conns P" "prog_daemon ?P1 = ?s" by simp_all
  have "prog_conns ?P2 ! j =
      \<lparr>conn_out = conn_out (prog_conns P ! j) @ route_detail ?txt b @ nl @ ''> '', conn_live = True\<rparr>"
    using answered_query [of j ?P1 ws' rustc H' Q "''show bgp rib prefix '' @ ?txt"] assms(22-25)
    by (simp only: query_prefix P1 rib q(4) option.case simp_thms)
  moreover have "attrs r = path_attributes msg" using q(3) by (simp add: fresh_route_def)
  ultimately show ?thesis using q(1,2,4,5) rib unfolding Let_def by metis
qed

theorem announcement_reaches_operator_witness:
  "\<exists>P2 b. (program_step documented_bytes real_f64 None)\<^sup>*\<^sup>* watched P2 \<and>
     prog_conns P2 ! 0 = \<lparr>conn_out = ''PathForge BGP Management'' @ nl @ ''> '' @
       route_detail (PrefixKey_to_string (PrefixKey_from (Prefix_new 0xC0A80100 24))) b @ nl @ ''> '', conn_live = True\<rparr>"
proof -
  let ?init = "Program_new configured_system (MgmtServer_new ''/tmp/pathforge.sock'' MgmtState_default)"
  let ?steps = "(program_step documented_bytes real_f64 None)\<^sup>*\<^sup>*" and ?n = "Prefix_new 0xC0A80100 24"
  have "(sys_step documented_bytes real_f64)\<^sup>*\<^sup>* (prog_daemon ?init) served"
    unfolding served_def by (simp add: Program_new_def) (rule r_into_rtranclp, rule sys_step.accepted)
  then have "?steps ?init (?init\<lparr>prog_daemon := served\<rparr>)" by (rule program_runs)
  then have "?steps ?init (mgmt_bind True (?init\<lparr>prog_daemon := served\<rparr>))"
    by (rule rtranclp.rtrancl_into_rtrancl) (rule program_step.bound)
  then have reach: "?steps ?init watched"
    unfolding watched_def by (rule rtranclp.rtrancl_into_rtrancl) (rule program_step.connected)
  have conns: "prog_conns watched = [\<lparr>conn_out = ''PathForge BGP Management'' @ nl @ ''> '', conn_live = True\<rparr>]"
    and daemon: "prog_daemon watched = served"
    by (simp_all add: watched_def mgmt_accept_def mgmt_bind_def Program_new_def handle_mgmt_conn_def Let_def)
  obtain p where p: "sessions served = [(p, [], False)]" "timers p = BgpTimers_new 90" "state p = OpenSent"
      "addr p = a_peer" "srv_rib (server served) = Rib_new real_f64" "\<not> poisoned served"
    by (simp add: served_def accept_def session_start_def write_all_def store_def configured_system_def System_new_def
        Server_new_def incoming_peer_def Peer_new_def env_defs next_state_def Let_def)
  let ?p = "load served (\<lambda>i. i) (\<lambda>_. True) p"
  have alive: "\<not> fst (hold_timer_expired (timers ?p) (clk ?p))" "fst (send_keepalive documented_bytes (timed ?p))"
    using p(2,3) by (simp_all add: load_def timed_def hold_timer_expired_def BgpTimers_new_def send_keepalive_def)
  have new: "\<not> is_suppressed (addr p) (PrefixKey_from ?n) (dampening (srv_rib (server served)))"
    "\<not> should_reject (rpki (srv_rib (server served)))
       (validate_route (rpki (srv_rib (server served))) (address ?n) (prefix_len ?n) (remote_as p))"
    "?n \<in> set (nlri sample_update)"
    "PrefixKey_from ?n \<notin> PrefixKey_from ` set (withdrawn_routes sample_update)"
    by (simp_all add: p(5) Rib_new_def Rib_default_def DampeningTable_new_def is_suppressed_def should_reject_def
        RpkiValidator_default_def RpkiValidator_new_def sample_update_def PrefixKey_from_def Prefix_new_def)
  have at: "0 < length (sessions served)" "sessions served ! 0 = (p, [], False)" using p(1) by simp_all
  have conn: "0 < length (prog_conns watched)" "conn_live (prog_conns watched ! 0)" by (simp_all add: conns)
  note shown = announcement_reaches_operator [OF documented_bytes_ok insertion.hash_orders_axioms start_configured reach
      daemon [symmetric] at p(6) refl alive sample_update_fits(3,4,2,1) sample_wire_ok new(3,4,1,2) conn,
      of "\<lambda>_. True" insertion_order "\<lambda>t. t"]
  then show ?thesis unfolding Let_def by (simp add: conns) blast
qed

end
